theory Spec2Isabelle
  imports Main "HOL-Library.Word"
begin

section \<open>GraphBinary v1 codec of gremlin-python (graphbinaryV1.py)\<close>

text \<open>
  A shallow embedding of \<^verbatim>\<open>gremlin_python/structure/io/graphbinaryV1.py\<close> under the
  semantics of Python 3 (indexing a \<^verbatim>\<open>bytes\<close> object gives an integer, \<^verbatim>\<open>str\<close> is a
  sequence of Unicode code points). Exceptions are values of type \<open>error\<close>; a function
  that can raise returns \<open>error + 'a\<close>, \<open>Inl\<close> being the exception.
\<close>

subsection \<open>Exceptions\<close>

datatype error =
    Exception string
  | KeyError
  | ValueError
  | TypeError
  | IndexError
  | AttributeError
  | NotImplementedError
  | struct_error
  | UnicodeEncodeError
  | UnicodeDecodeError
  | NotModelled
  | OutOfFuel

text \<open>
  \<open>NotModelled\<close> stands for the handlers whose payload is a floating-point number or a
  calendar date (date, timestamp, float, double), for lambdas and for type objects: they
  are outside this embedding. \<open>OutOfFuel\<close> is not an exception of the program: it is the
  answer of the fuelled reader below when its fuel is used up.
\<close>

definition ebind :: "error + 'a \<Rightarrow> ('a \<Rightarrow> error + 'b) \<Rightarrow> error + 'b" where
  "ebind m f = (case m of Inl e \<Rightarrow> Inl e | Inr x \<Rightarrow> f x)"

subsection \<open>Bytes, \<^verbatim>\<open>struct.pack\<close> and \<^verbatim>\<open>struct.unpack\<close>\<close>

type_synonym byte = "8 word"

text \<open>A \<^verbatim>\<open>str\<close>: its Unicode code points.\<close>

type_synonym ustr = "nat list"

definition ustr_of :: "string \<Rightarrow> ustr" where
  "ustr_of s = map of_char s"

text \<open>The \<open>n\<close> bytes of the two's complement form of \<open>v\<close>, most significant first.\<close>

primrec be_bytes :: "nat \<Rightarrow> int \<Rightarrow> byte list" where
  "be_bytes 0 v = []"
| "be_bytes (Suc n) v = word_of_int (v div 2 ^ (8 * n)) # be_bytes n v"

definition pack_int :: "nat \<Rightarrow> int \<Rightarrow> error + byte list" where
  "pack_int n v =
     (if - (2 ^ (8 * n - 1)) \<le> v \<and> v < 2 ^ (8 * n - 1) then Inr (be_bytes n v)
      else Inl struct_error)"

text \<open>
  \<^verbatim>\<open>struct.pack(fmt, v)\<close> for the integer formats the module uses; it raises
  \<^verbatim>\<open>struct.error\<close> when \<open>v\<close> does not fit the format.
\<close>

definition struct_pack :: "string \<Rightarrow> int \<Rightarrow> error + byte list" where
  "struct_pack fmt v =
     (if fmt = ''>b'' then pack_int 1 v
      else if fmt = ''>i'' then pack_int 4 v
      else if fmt = ''>q'' then pack_int 8 v
      else Inl NotModelled)"

primrec be_uint :: "byte list \<Rightarrow> int" where
  "be_uint [] = 0"
| "be_uint (b # bs) = uint b * 256 ^ length bs + be_uint bs"

definition be_sint :: "byte list \<Rightarrow> int" where
  "be_sint bs =
     (if 2 ^ (8 * length bs - 1) \<le> be_uint bs then be_uint bs - 2 ^ (8 * length bs)
      else be_uint bs)"

definition calcsize :: "string \<Rightarrow> nat" where
  "calcsize fmt = (if fmt = ''>b'' then 1 else if fmt = ''>i'' then 4 else 8)"

text \<open>
  \<^verbatim>\<open>struct.unpack(fmt, bs)[0]\<close>: \<^verbatim>\<open>struct.error\<close> unless \<open>bs\<close> has exactly the size of
  the format.
\<close>

definition struct_unpack :: "string \<Rightarrow> byte list \<Rightarrow> error + int" where
  "struct_unpack fmt bs =
     (if fmt \<noteq> ''>b'' \<and> fmt \<noteq> ''>i'' \<and> fmt \<noteq> ''>q'' then Inl NotModelled
      else if length bs = calcsize fmt then Inr (be_sint bs)
      else Inl struct_error)"

subsection \<open>UTF-8\<close>

text \<open>
  \<^verbatim>\<open>s.encode("utf-8")\<close>: one to four bytes per code point; a surrogate cannot be
  encoded.
\<close>

definition utf8_encode_cp :: "nat \<Rightarrow> byte list option" where
  "utf8_encode_cp c =
     (if c < 0x80 then Some [of_nat c]
      else if c < 0x800 then Some [of_nat (0xC0 + c div 64), of_nat (0x80 + c mod 64)]
      else if 0xD800 \<le> c \<and> c < 0xE000 then None
      else if c < 0x10000 then
        Some [of_nat (0xE0 + c div 4096), of_nat (0x80 + c div 64 mod 64),
              of_nat (0x80 + c mod 64)]
      else if c < 0x110000 then
        Some [of_nat (0xF0 + c div 262144), of_nat (0x80 + c div 4096 mod 64),
              of_nat (0x80 + c div 64 mod 64), of_nat (0x80 + c mod 64)]
      else None)"

primrec utf8_encode :: "ustr \<Rightarrow> error + byte list" where
  "utf8_encode [] = Inr []"
| "utf8_encode (c # cs) =
     (case utf8_encode_cp c of
        None \<Rightarrow> Inl UnicodeEncodeError
      | Some bs \<Rightarrow> (case utf8_encode cs of Inl e \<Rightarrow> Inl e | Inr r \<Rightarrow> Inr (bs @ r)))"

definition is_cont :: "byte \<Rightarrow> bool" where
  "is_cont b = (0x80 \<le> unat b \<and> unat b < 0xC0)"

definition cont :: "byte \<Rightarrow> nat" where
  "cont b = unat b mod 64"

text \<open>
  One step of \<^verbatim>\<open>bs.decode("utf-8")\<close>: the code point at the head of \<open>bs\<close> and the
  bytes after it, \<open>None\<close> when no well-formed sequence starts there (an overlong form, a
  surrogate, a code point above U+10FFFF, a truncated sequence, a stray continuation byte).
\<close>

definition utf8_decode_cp :: "byte list \<Rightarrow> (nat \<times> byte list) option" where
  "utf8_decode_cp bs =
     (case bs of
        [] \<Rightarrow> None
      | b0 # r0 \<Rightarrow>
          (let u = unat b0 in
           if u < 0x80 then Some (u, r0)
           else if 0xC2 \<le> u \<and> u < 0xE0 then
             (case r0 of
                b1 # r1 \<Rightarrow>
                  if is_cont b1 then Some ((u - 0xC0) * 64 + cont b1, r1) else None
              | _ \<Rightarrow> None)
           else if 0xE0 \<le> u \<and> u < 0xF0 then
             (case r0 of
                b1 # b2 # r2 \<Rightarrow>
                  if is_cont b1 \<and> is_cont b2
                     \<and> (u = 0xE0 \<longrightarrow> 0xA0 \<le> unat b1) \<and> (u = 0xED \<longrightarrow> unat b1 < 0xA0)
                  then Some ((u - 0xE0) * 4096 + cont b1 * 64 + cont b2, r2)
                  else None
              | _ \<Rightarrow> None)
           else if 0xF0 \<le> u \<and> u < 0xF5 then
             (case r0 of
                b1 # b2 # b3 # r3 \<Rightarrow>
                  if is_cont b1 \<and> is_cont b2 \<and> is_cont b3
                     \<and> (u = 0xF0 \<longrightarrow> 0x90 \<le> unat b1) \<and> (u = 0xF4 \<longrightarrow> unat b1 < 0x90)
                  then Some ((u - 0xF0) * 262144 + cont b1 * 4096 + cont b2 * 64 + cont b3, r3)
                  else None
              | _ \<Rightarrow> None)
           else None))"

lemma utf8_decode_cp_shorter: "utf8_decode_cp bs = Some (c, rest) \<Longrightarrow> length rest < length bs"
  by (auto simp: utf8_decode_cp_def Let_def split: list.splits if_splits)

text \<open>
  \<^verbatim>\<open>bs.decode("utf-8")\<close>, strict: \<^verbatim>\<open>UnicodeDecodeError\<close> at the first ill-formed
  sequence.
\<close>

function utf8_decode :: "byte list \<Rightarrow> error + ustr" where
  "utf8_decode bs =
     (if bs = [] then Inr []
      else
        (case utf8_decode_cp bs of
           None \<Rightarrow> Inl UnicodeDecodeError
         | Some (c, rest) \<Rightarrow>
             (case utf8_decode rest of Inl e \<Rightarrow> Inl e | Inr r \<Rightarrow> Inr (c # r))))"
  by pat_completeness auto

termination
  by (relation "measure length") (auto dest: utf8_decode_cp_shorter)

declare utf8_decode.simps [simp del]

subsection \<open>Type codes\<close>

datatype DataType =
    DT_null | DT_int | DT_long | DT_string | DT_date | DT_timestamp | DT_clazz | DT_double
  | DT_float | DT_list | DT_map | DT_set | DT_uuid | DT_edge | DT_path | DT_property
  | DT_graph | DT_vertex | DT_vertexproperty | DT_barrier | DT_binding | DT_bytecode
  | DT_cardinality | DT_column | DT_direction | DT_operator | DT_order | DT_pick | DT_pop
  | DT_lambda | DT_p | DT_scope | DT_t | DT_traverser | DT_bigdecimal | DT_biginteger
  | DT_byte | DT_bytebuffer | DT_short | DT_boolean | DT_textp | DT_traversalstrategy
  | DT_bulkset | DT_tree | DT_metrics | DT_traversalmetrics | DT_custom

text \<open>The members of \<^verbatim>\<open>class DataType(Enum)\<close> with their values, in declaration order.\<close>

definition DataType_members :: "(DataType \<times> int) list" where
  "DataType_members =
     [(DT_null, 0xfe), (DT_int, 0x01), (DT_long, 0x02), (DT_string, 0x03), (DT_date, 0x04),
      (DT_timestamp, 0x05), (DT_clazz, 0x06), (DT_double, 0x07), (DT_float, 0x08),
      (DT_list, 0x09), (DT_map, 0x0a), (DT_set, 0x0b), (DT_uuid, 0x0c), (DT_edge, 0x0d),
      (DT_path, 0x0e), (DT_property, 0x0f), (DT_graph, 0x10), (DT_vertex, 0x11),
      (DT_vertexproperty, 0x12), (DT_barrier, 0x13), (DT_binding, 0x14),
      (DT_bytecode, 0x15), (DT_cardinality, 0x16), (DT_column, 0x17),
      (DT_direction, 0x18), (DT_operator, 0x19), (DT_order, 0x1a), (DT_pick, 0x1b),
      (DT_pop, 0x1c), (DT_lambda, 0x1d), (DT_p, 0x1e), (DT_scope, 0x1f), (DT_t, 0x20),
      (DT_traverser, 0x21), (DT_bigdecimal, 0x22), (DT_biginteger, 0x23), (DT_byte, 0x24),
      (DT_bytebuffer, 0x25), (DT_short, 0x26), (DT_boolean, 0x27), (DT_textp, 0x28),
      (DT_traversalstrategy, 0x29), (DT_bulkset, 0x2a), (DT_tree, 0x2b),
      (DT_metrics, 0x2c), (DT_traversalmetrics, 0x2d), (DT_custom, 0x00)]"

text \<open>\<^verbatim>\<open>member.value\<close>.\<close>

definition DataType_value :: "DataType \<Rightarrow> int" where
  "DataType_value d = (case map_of DataType_members d of Some v \<Rightarrow> v | None \<Rightarrow> 0)"

text \<open>\<^verbatim>\<open>DataType(v)\<close>: the member with value \<open>v\<close>, \<^verbatim>\<open>ValueError\<close> when there is none.\<close>

definition DataType_of :: "int \<Rightarrow> error + DataType" where
  "DataType_of v =
     (case find (\<lambda>(d, w). w = v) DataType_members of
        Some (d, w) \<Rightarrow> Inr d
      | None \<Rightarrow> Inl ValueError)"

subsection \<open>Values\<close>

text \<open>The enum classes of \<^verbatim>\<open>gremlin_python.process.traversal\<close> that have a handler.\<close>

datatype enum_class =
  Barrier | Cardinality | Column | Direction | Operator | Order | Pick | Pop | Scope | T

text \<open>
  The classes a value can have: the keys of the serializer registry (\<^verbatim>\<open>LongType\<close> and
  \<^verbatim>\<open>IntType\<close> of \<^verbatim>\<open>gremlin_python.statics\<close>, \<^verbatim>\<open>str\<close>, \<^verbatim>\<open>list\<close>, ...), \<^verbatim>\<open>NoneType\<close>,
  \<^verbatim>\<open>bytearray\<close>, and \<open>T_object c\<close> for a class \<open>c\<close> that is not registered and has no
  registered base class.
\<close>

datatype pytype =
    T_long | T_int | T_datetime | T_timestamp | T_float | T_type | T_str | T_list | T_set
  | T_dict | T_UUID | T_Edge | T_Path | T_Property | T_Graph | T_Vertex
  | T_VertexProperty | T_enum enum_class | T_Binding | T_Bytecode | T_function | T_P
  | T_Traverser | T_SingleByte | T_bytes | T_bool | T_TextP | T_NoneType | T_bytearray
  | T_object string

text \<open>
  Modelled from the spec: the classes of \<^verbatim>\<open>gremlin_python.structure.graph\<close>,
  \<^verbatim>\<open>gremlin_python.process.traversal\<close> and \<^verbatim>\<open>gremlin_python.statics\<close> are imported by
  the module and are not in the sources. The values below have the fields the spec lists as
  the capabilities of these collaborators (section 6), which are the attributes the module
  reads, and the constructor arguments the module passes, in the order it passes them:
  \<^verbatim>\<open>Vertex(id, label)\<close>, \<^verbatim>\<open>Edge(id, outV, label, inV)\<close> with the two vertices as
  (id, label), \<^verbatim>\<open>Path(labels, objects)\<close>, \<^verbatim>\<open>Property(key, value, element)\<close>,
  \<^verbatim>\<open>VertexProperty(id, label, value, vertex)\<close>, \<^verbatim>\<open>Binding(key, value)\<close>,
  \<^verbatim>\<open>Bytecode\<close> with its step and source instructions, each instruction a name and its
  arguments, \<^verbatim>\<open>Traverser(object, bulk)\<close>, an enum member by its class and name,
  \<^verbatim>\<open>P(operator, value, other)\<close> and \<^verbatim>\<open>TextP(operator, value, other)\<close>. Labels, keys,
  operators and instruction names are strings and a bulk is an integer: the types leave
  other contents out. A \<^verbatim>\<open>set\<close> is the list of its elements and a \<^verbatim>\<open>dict\<close> the list of its
  items, both in iteration order. \<open>PyObject c\<close> is an instance of a class \<open>c\<close> that is not
  registered, has no registered base class and is not iterable.
\<close>

datatype pyobj =
    PyNone
  | PyInt int
  | PyLong int
  | PyBool bool
  | PyStr ustr
  | PyUUID "byte list"
  | PySingleByte int
  | PyBytes "byte list"
  | PyByteArray "byte list"
  | PyList "pyobj list"
  | PySet "pyobj list"
  | PyDict "(pyobj \<times> pyobj) list"
  | Vertex pyobj ustr
  | Edge pyobj "pyobj \<times> ustr" ustr "pyobj \<times> ustr"
  | Path pyobj pyobj
  | Property ustr pyobj pyobj
  | VertexProperty pyobj ustr pyobj pyobj
  | Binding ustr pyobj
  | Bytecode "(ustr \<times> pyobj list) list" "(ustr \<times> pyobj list) list"
  | Traverser pyobj int
  | EnumMember enum_class ustr
  | P ustr pyobj pyobj
  | TextP ustr pyobj pyobj
  | PyObject string

text \<open>\<^verbatim>\<open>type(obj)\<close>.\<close>

fun type_of :: "pyobj \<Rightarrow> pytype" where
  "type_of PyNone = T_NoneType"
| "type_of (PyInt v) = T_int"
| "type_of (PyLong v) = T_long"
| "type_of (PyBool b) = T_bool"
| "type_of (PyStr s) = T_str"
| "type_of (PyUUID bs) = T_UUID"
| "type_of (PySingleByte v) = T_SingleByte"
| "type_of (PyBytes bs) = T_bytes"
| "type_of (PyByteArray bs) = T_bytearray"
| "type_of (PyList xs) = T_list"
| "type_of (PySet xs) = T_set"
| "type_of (PyDict kvs) = T_dict"
| "type_of (Vertex i l) = T_Vertex"
| "type_of (Edge i ov l iv) = T_Edge"
| "type_of (Path ls os) = T_Path"
| "type_of (Property k v e) = T_Property"
| "type_of (VertexProperty i l v e) = T_VertexProperty"
| "type_of (Binding k v) = T_Binding"
| "type_of (Bytecode st so) = T_Bytecode"
| "type_of (Traverser ob bu) = T_Traverser"
| "type_of (EnumMember c n) = T_enum c"
| "type_of (P op v ot) = T_P"
| "type_of (TextP op v ot) = T_TextP"
| "type_of (PyObject c) = T_object c"

text \<open>
  Modelled from the spec: the class declarations of \<^verbatim>\<open>gremlin_python.statics\<close> and
  \<^verbatim>\<open>gremlin_python.process.traversal\<close> are not in the sources. The capability fallback of
  the spec (section 4.4) is for subtypes such as the numeric ones; the direct base classes
  are taken to be: \<^verbatim>\<open>int\<close> for \<^verbatim>\<open>bool\<close> (as in Python) and for \<^verbatim>\<open>long\<close> and \<^verbatim>\<open>SingleByte\<close>,
  \<^verbatim>\<open>float\<close> for \<^verbatim>\<open>timestamp\<close>, and \<^verbatim>\<open>P\<close> for \<^verbatim>\<open>TextP\<close>. Every value of \<open>pyobj\<close> whose class
  is registered is dispatched by the exact lookup, so that no result below depends on them.
\<close>

definition base_class :: "pytype \<Rightarrow> pytype option" where
  "base_class t =
     (if t = T_bool \<or> t = T_long \<or> t = T_SingleByte then Some T_int
      else if t = T_timestamp then Some T_float
      else if t = T_TextP then Some T_P
      else None)"

text \<open>\<^verbatim>\<open>isinstance(obj, key)\<close>.\<close>

definition isinstance :: "pyobj \<Rightarrow> pytype \<Rightarrow> bool" where
  "isinstance obj key = (type_of obj = key \<or> base_class (type_of obj) = Some key)"

subsection \<open>Hashing, equality and enum members\<close>

text \<open>
  What the module takes from its collaborators and from the interpreter without defining
  it: which values can be hashed (\<^verbatim>\<open>__hash__\<close>), which values are equal (\<^verbatim>\<open>__eq__\<close>),
  and the member names of each enum class. They are parameters of the model.
\<close>

record env =
  hashable :: "pyobj \<Rightarrow> bool"
  py_eq :: "pyobj \<Rightarrow> pyobj \<Rightarrow> bool"
  members :: "enum_class \<Rightarrow> ustr list"

text \<open>\<^verbatim>\<open>d[k] = v\<close> on a \<^verbatim>\<open>dict\<close>: an equal key keeps its place and takes the new value.\<close>

definition dict_setitem ::
  "env \<Rightarrow> (pyobj \<times> pyobj) list \<Rightarrow> pyobj \<Rightarrow> pyobj \<Rightarrow> error + (pyobj \<times> pyobj) list" where
  "dict_setitem E d k v =
     (if \<not> hashable E k then Inl TypeError
      else if list_ex (\<lambda>(k', v'). py_eq E k' k) d then
        Inr (map (\<lambda>(k', v'). if py_eq E k' k then (k', v) else (k', v')) d)
      else Inr (d @ [(k, v)]))"

text \<open>\<^verbatim>\<open>s.add(x)\<close> on a \<^verbatim>\<open>set\<close>.\<close>

definition set_add :: "env \<Rightarrow> pyobj list \<Rightarrow> pyobj \<Rightarrow> error + pyobj list" where
  "set_add E s x =
     (if \<not> hashable E x then Inl TypeError
      else if list_ex (\<lambda>y. py_eq E y x) s then Inr s
      else Inr (s @ [x]))"

text \<open>\<^verbatim>\<open>set(xs)\<close> for a list \<open>xs\<close>.\<close>

primrec set_of_list :: "env \<Rightarrow> pyobj list \<Rightarrow> pyobj list \<Rightarrow> error + pyobj list" where
  "set_of_list E s [] = Inr s"
| "set_of_list E s (x # xs) = ebind (set_add E s x) (\<lambda>s'. set_of_list E s' xs)"

subsection \<open>The handler classes and the two registries\<close>

datatype handler =
    LongIO | IntIO | DateIO | TimestampIO | FloatIO | DoubleIO | TypeSerializer | StringIO
  | ListIO | SetIO | MapIO | UuidIO | EdgeIO | PathIO | PropertyIO | TinkerGraphIO
  | VertexIO | VertexPropertyIO | BarrierIO | CardinalityIO | ColumnIO | DirectionIO
  | OperatorIO | OrderIO | PickIO | PopIO | BindingIO | BytecodeIO | LambdaIO | PIO
  | ScopeIO | TIO | TraverserIO | ByteIO | ByteBufferIO | BooleanIO | TextPIO | BulkSetIO

text \<open>
  The handler classes whose name does not start with an underscore, in the order of their
  declaration, each with its \<^verbatim>\<open>python_type\<close> and its \<^verbatim>\<open>graphbinary_type\<close> (its own or
  the inherited one; \<open>None\<close> is Python's \<^verbatim>\<open>None\<close>).
\<close>

definition handler_classes :: "(handler \<times> pytype option \<times> DataType option) list" where
  "handler_classes =
     [(LongIO, Some T_long, Some DT_long),
      (IntIO, Some T_int, Some DT_int),
      (DateIO, Some T_datetime, Some DT_date),
      (TimestampIO, Some T_timestamp, Some DT_timestamp),
      (FloatIO, Some T_float, Some DT_float),
      (DoubleIO, Some T_float, Some DT_double),
      (TypeSerializer, Some T_type, None),
      (StringIO, Some T_str, Some DT_string),
      (ListIO, Some T_list, Some DT_list),
      (SetIO, Some T_set, Some DT_set),
      (MapIO, Some T_dict, Some DT_map),
      (UuidIO, Some T_UUID, Some DT_uuid),
      (EdgeIO, Some T_Edge, Some DT_edge),
      (PathIO, Some T_Path, Some DT_path),
      (PropertyIO, Some T_Property, Some DT_property),
      (TinkerGraphIO, Some T_Graph, Some DT_graph),
      (VertexIO, Some T_Vertex, Some DT_vertex),
      (VertexPropertyIO, Some T_VertexProperty, Some DT_vertexproperty),
      (BarrierIO, Some (T_enum Barrier), Some DT_barrier),
      (CardinalityIO, Some (T_enum Cardinality), Some DT_cardinality),
      (ColumnIO, Some (T_enum Column), Some DT_column),
      (DirectionIO, Some (T_enum Direction), Some DT_direction),
      (OperatorIO, Some (T_enum Operator), Some DT_operator),
      (OrderIO, Some (T_enum Order), Some DT_order),
      (PickIO, Some (T_enum Pick), Some DT_pick),
      (PopIO, Some (T_enum Pop), Some DT_pop),
      (BindingIO, Some T_Binding, Some DT_binding),
      (BytecodeIO, Some T_Bytecode, Some DT_bytecode),
      (LambdaIO, Some T_function, Some DT_lambda),
      (PIO, Some T_P, Some DT_p),
      (ScopeIO, Some (T_enum Scope), Some DT_scope),
      (TIO, Some (T_enum T), Some DT_t),
      (TraverserIO, Some T_Traverser, Some DT_traverser),
      (ByteIO, Some T_SingleByte, Some DT_byte),
      (ByteBufferIO, Some T_bytes, Some DT_bytebuffer),
      (BooleanIO, Some T_bool, Some DT_boolean),
      (TextPIO, Some T_TextP, Some DT_textp),
      (BulkSetIO, None, Some DT_bulkset)]"

definition python_type :: "handler \<Rightarrow> pytype option" where
  "python_type h = (case map_of handler_classes h of Some (t, d) \<Rightarrow> t | None \<Rightarrow> None)"

definition graphbinary_type :: "handler \<Rightarrow> DataType option" where
  "graphbinary_type h = (case map_of handler_classes h of Some (t, d) \<Rightarrow> d | None \<Rightarrow> None)"

text \<open>\<^verbatim>\<open>cls.byte_format\<close> of \<^verbatim>\<open>LongIO\<close> and its subclasses.\<close>

definition byte_format :: "handler \<Rightarrow> string" where
  "byte_format h =
     (if h = IntIO then ''>i'' else if h = FloatIO then ''>f''
      else if h = DoubleIO then ''>d'' else ''>q'')"

text \<open>
  \<^verbatim>\<open>d[k] = v\<close> on an \<^verbatim>\<open>OrderedDict\<close> (and on the \<^verbatim>\<open>dict\<close> of deserializers): a key that
  is present keeps its position.
\<close>

primrec od_set :: "('k \<times> 'v) list \<Rightarrow> 'k \<Rightarrow> 'v \<Rightarrow> ('k \<times> 'v) list" where
  "od_set [] k v = [(k, v)]"
| "od_set (p # ps) k v = (if fst p = k then (k, v) # ps else p # od_set ps k v)"

text \<open>
  \<^verbatim>\<open>GraphBinaryTypeType.__new__\<close>, run once for every class of \<open>handler_classes\<close>: it
  fills \<^verbatim>\<open>_serializers\<close> and \<^verbatim>\<open>_deserializers\<close>.
\<close>

definition serializers :: "(pytype \<times> handler) list" where
  "serializers =
     foldl (\<lambda>m (h, t, d). case t of None \<Rightarrow> m | Some k \<Rightarrow> od_set m k h) [] handler_classes"

definition deserializers :: "(DataType \<times> handler) list" where
  "deserializers =
     foldl (\<lambda>m (h, t, d). case d of None \<Rightarrow> m | Some k \<Rightarrow> od_set m k h) [] handler_classes"

subsection \<open>Helpers of \<^verbatim>\<open>_GraphBinaryTypeIO\<close>\<close>

definition symbolMap :: "(string \<times> string) list" where
  "symbolMap =
     [(''global_'', ''global''), (''as_'', ''as''), (''in_'', ''in''), (''and_'', ''and''),
      (''or_'', ''or''), (''is_'', ''is''), (''not_'', ''not''), (''from_'', ''from''),
      (''set_'', ''set''), (''list_'', ''list''), (''all_'', ''all''), (''with_'', ''with''),
      (''filter_'', ''filter''), (''id_'', ''id''), (''max_'', ''max''), (''min_'', ''min''),
      (''sum_'', ''sum'')]"

text \<open>\<^verbatim>\<open>cls.symbolMap.get(symbol, symbol)\<close>.\<close>

definition unmangleKeyword :: "ustr \<Rightarrow> ustr" where
  "unmangleKeyword symbol =
     (case map_of (map (\<lambda>(k, v). (ustr_of k, ustr_of v)) symbolMap) symbol of
        Some v \<Rightarrow> v
      | None \<Rightarrow> symbol)"

definition write_as_value :: "DataType option \<Rightarrow> bool \<Rightarrow> DataType option" where
  "write_as_value graph_binary_type as_value = (if as_value then None else graph_binary_type)"

text \<open>
  \<^verbatim>\<open>as_bytes(graphbin_type, size, *args)\<close>: the type code unless \<open>graphbin_type\<close> is
  \<^verbatim>\<open>None\<close>, the value flag 0, the size \<open>sz\<close> as \<^verbatim>\<open>>i\<close> unless it is \<^verbatim>\<open>None\<close>, then the
  arguments. The arguments are byte strings by their type here, so the
  \<^verbatim>\<open>Exception("MISSING")\<close> of the source has no counterpart.
\<close>

definition as_bytes :: "DataType option \<Rightarrow> int option \<Rightarrow> byte list list \<Rightarrow> error + byte list" where
  "as_bytes graphbin_type sz args =
     (let ba = (case graphbin_type of None \<Rightarrow> [] | Some t \<Rightarrow> [word_of_int (DataType_value t)]) in
      ebind (struct_pack ''>b'' 0) (\<lambda>flag.
      ebind (case sz of None \<Rightarrow> Inr [] | Some n \<Rightarrow> struct_pack ''>i'' n) (\<lambda>ln.
      Inr (ba @ flag @ ln @ concat args))))"

text \<open>\<^verbatim>\<open>string_as_bytes(s)\<close>: \<^verbatim>\<open>len(s)\<close> as \<^verbatim>\<open>>i\<close>, then the UTF-8 bytes of \<open>s\<close>.\<close>

definition string_as_bytes :: "ustr \<Rightarrow> error + byte list" where
  "string_as_bytes s =
     ebind (struct_pack ''>i'' (int (length s))) (\<lambda>ln.
     ebind (utf8_encode s) (\<lambda>bs. Inr (ln @ bs)))"

subsection \<open>Serialization: the \<^verbatim>\<open>dictify\<close> methods\<close>

text \<open>
  The writer a handler calls back for nested values: \<^verbatim>\<open>writer.writeObject\<close>. It
  returns a \<^verbatim>\<open>bytearray\<close>, or any other object when no handler was found.
\<close>

type_synonym writer = "pyobj \<Rightarrow> error + pyobj"

text \<open>
  \<^verbatim>\<open>ba.extend(x)\<close> for the result \<open>x\<close> of the writer: the bytes of a \<^verbatim>\<open>bytearray\<close> or
  \<^verbatim>\<open>bytes\<close> object are appended; \<^verbatim>\<open>None\<close> and the other objects are not iterables of
  byte values.
\<close>

definition extend :: "byte list \<Rightarrow> pyobj \<Rightarrow> error + byte list" where
  "extend ba x =
     (case x of PyByteArray bs \<Rightarrow> Inr (ba @ bs) | PyBytes bs \<Rightarrow> Inr (ba @ bs)
      | _ \<Rightarrow> Inl TypeError)"

text \<open>\<^verbatim>\<open>ba.extend(writer.writeObject(x))\<close>.\<close>

definition ext_obj :: "writer \<Rightarrow> pyobj \<Rightarrow> byte list \<Rightarrow> error + byte list" where
  "ext_obj w x ba = ebind (w x) (extend ba)"

text \<open>\<^verbatim>\<open>ba.extend(cls.string_as_bytes(s))\<close>.\<close>

definition ext_str :: "ustr \<Rightarrow> byte list \<Rightarrow> error + byte list" where
  "ext_str s ba = ebind (string_as_bytes s) (\<lambda>bs. Inr (ba @ bs))"

text \<open>\<^verbatim>\<open>for item in xs: ba.extend(writer.writeObject(item))\<close>.\<close>

primrec ext_objs :: "writer \<Rightarrow> pyobj list \<Rightarrow> byte list \<Rightarrow> error + byte list" where
  "ext_objs w [] ba = Inr ba"
| "ext_objs w (x # xs) ba = ebind (ext_obj w x ba) (ext_objs w xs)"

text \<open>The numeric value of an \<^verbatim>\<open>int\<close> or of an instance of one of its subclasses.\<close>

definition int_value :: "pyobj \<Rightarrow> int option" where
  "int_value obj =
     (case obj of PyInt v \<Rightarrow> Some v | PyLong v \<Rightarrow> Some v | PySingleByte v \<Rightarrow> Some v
      | PyBool b \<Rightarrow> Some (if b then 1 else 0) | _ \<Rightarrow> None)"

text \<open>
  Each handler is given below for the values the writer passes to it, those of its own
  class. Applied to a value that lacks an attribute or an operation the method uses, the
  Python method fails there, which is rendered as \<^verbatim>\<open>TypeError\<close>.
\<close>

text \<open>\<^verbatim>\<open>LongIO.dictify\<close>, inherited by \<^verbatim>\<open>IntIO\<close> (\<open>cls\<close> is the class it is called on).\<close>

definition LongIO_dictify :: "handler \<Rightarrow> pyobj \<Rightarrow> writer \<Rightarrow> bool \<Rightarrow> error + byte list" where
  "LongIO_dictify cls obj w as_value =
     (case int_value obj of
        None \<Rightarrow> Inl TypeError
      | Some v \<Rightarrow>
          if v < - 9223372036854775808 \<or> v > 9223372036854775807 then
            Inl (Exception ''TODO: don't forget bigint'')
          else
            ebind (struct_pack (byte_format cls) v) (\<lambda>bs.
            as_bytes (write_as_value (graphbinary_type cls) as_value) None [bs]))"

definition StringIO_dictify :: "handler \<Rightarrow> pyobj \<Rightarrow> writer \<Rightarrow> bool \<Rightarrow> error + byte list" where
  "StringIO_dictify cls obj w as_value =
     (case obj of
        PyStr s \<Rightarrow>
          ebind (utf8_encode s) (\<lambda>bs.
          as_bytes (write_as_value (graphbinary_type cls) as_value) (Some (int (length s))) [bs])
      | _ \<Rightarrow> Inl TypeError)"

text \<open>\<^verbatim>\<open>ListIO.dictify\<close>, inherited by \<^verbatim>\<open>SetIO\<close>.\<close>

definition ListIO_dictify :: "handler \<Rightarrow> pyobj \<Rightarrow> writer \<Rightarrow> bool \<Rightarrow> error + byte list" where
  "ListIO_dictify cls obj w as_value =
     (case (case obj of PyList xs \<Rightarrow> Some xs | PySet xs \<Rightarrow> Some xs | _ \<Rightarrow> None) of
        Some xs \<Rightarrow>
          ebind (ext_objs w xs []) (\<lambda>list_data.
          as_bytes (write_as_value (graphbinary_type cls) as_value) (Some (int (length xs)))
            [list_data])
      | None \<Rightarrow> Inl TypeError)"

text \<open>The loop of \<^verbatim>\<open>MapIO.dictify\<close> over \<^verbatim>\<open>obj.items()\<close>.\<close>

primrec ext_items :: "writer \<Rightarrow> (pyobj \<times> pyobj) list \<Rightarrow> byte list \<Rightarrow> error + byte list" where
  "ext_items w [] ba = Inr ba"
| "ext_items w (kv # kvs) ba =
     ebind (ext_obj w (fst kv) ba) (\<lambda>ba.
     ebind (ext_obj w (snd kv) ba) (ext_items w kvs))"

definition MapIO_dictify :: "handler \<Rightarrow> pyobj \<Rightarrow> writer \<Rightarrow> bool \<Rightarrow> error + byte list" where
  "MapIO_dictify cls obj w as_value =
     (case obj of
        PyDict kvs \<Rightarrow>
          ebind (ext_items w kvs []) (\<lambda>map_data.
          as_bytes (write_as_value (graphbinary_type cls) as_value) (Some (int (length kvs)))
            [map_data])
      | _ \<Rightarrow> Inl TypeError)"

definition UuidIO_dictify :: "handler \<Rightarrow> pyobj \<Rightarrow> writer \<Rightarrow> bool \<Rightarrow> error + byte list" where
  "UuidIO_dictify cls obj w as_value =
     (case obj of
        PyUUID bs \<Rightarrow> as_bytes (write_as_value (graphbinary_type cls) as_value) None [bs]
      | _ \<Rightarrow> Inl TypeError)"

definition EdgeIO_dictify :: "handler \<Rightarrow> pyobj \<Rightarrow> writer \<Rightarrow> bool \<Rightarrow> error + byte list" where
  "EdgeIO_dictify cls obj w as_value =
     (case obj of
        Edge i outV l inV \<Rightarrow>
          ebind (ext_obj w i []) (\<lambda>ba.
          ebind (ext_str l ba) (\<lambda>ba.
          ebind (ext_obj w (fst inV) ba) (\<lambda>ba.
          ebind (ext_str (snd inV) ba) (\<lambda>ba.
          ebind (ext_obj w (fst outV) ba) (\<lambda>ba.
          ebind (ext_str (snd outV) ba) (\<lambda>ba.
          as_bytes (write_as_value (graphbinary_type cls) as_value) None
            [ba @ [word_of_int (DataType_value DT_null)]
                @ [word_of_int (DataType_value DT_null)]]))))))
      | _ \<Rightarrow> Inl TypeError)"

definition PathIO_dictify :: "handler \<Rightarrow> pyobj \<Rightarrow> writer \<Rightarrow> bool \<Rightarrow> error + byte list" where
  "PathIO_dictify cls obj w as_value =
     (case obj of
        Path labels objects \<Rightarrow>
          ebind (ext_obj w labels []) (\<lambda>ba.
          ebind (ext_obj w objects ba) (\<lambda>ba.
          as_bytes (write_as_value (graphbinary_type cls) as_value) None [ba]))
      | _ \<Rightarrow> Inl TypeError)"

definition PropertyIO_dictify :: "handler \<Rightarrow> pyobj \<Rightarrow> writer \<Rightarrow> bool \<Rightarrow> error + byte list" where
  "PropertyIO_dictify cls obj w as_value =
     (case obj of
        Property k v e \<Rightarrow>
          ebind (ext_str k []) (\<lambda>ba.
          ebind (ext_obj w v ba) (\<lambda>ba.
          as_bytes (write_as_value (graphbinary_type cls) as_value) None
            [ba @ [word_of_int (DataType_value DT_null)]]))
      | _ \<Rightarrow> Inl TypeError)"

definition TinkerGraphIO_dictify :: "handler \<Rightarrow> pyobj \<Rightarrow> writer \<Rightarrow> bool \<Rightarrow> error + byte list" where
  "TinkerGraphIO_dictify cls obj w as_value = Inl AttributeError"

definition VertexIO_dictify :: "handler \<Rightarrow> pyobj \<Rightarrow> writer \<Rightarrow> bool \<Rightarrow> error + byte list" where
  "VertexIO_dictify cls obj w as_value =
     (case obj of
        Vertex i l \<Rightarrow>
          ebind (ext_obj w i []) (\<lambda>ba.
          ebind (ext_str l ba) (\<lambda>ba.
          as_bytes (write_as_value (graphbinary_type cls) as_value) None
            [ba @ [word_of_int (DataType_value DT_null)]]))
      | _ \<Rightarrow> Inl TypeError)"

definition VertexPropertyIO_dictify ::
  "handler \<Rightarrow> pyobj \<Rightarrow> writer \<Rightarrow> bool \<Rightarrow> error + byte list" where
  "VertexPropertyIO_dictify cls obj w as_value =
     (case obj of
        VertexProperty i l v e \<Rightarrow>
          ebind (ext_obj w i []) (\<lambda>ba.
          ebind (ext_str l ba) (\<lambda>ba.
          ebind (ext_obj w v ba) (\<lambda>ba.
          as_bytes (write_as_value (graphbinary_type cls) as_value) None
            [ba @ [word_of_int (DataType_value DT_null)]
                @ [word_of_int (DataType_value DT_null)]])))
      | _ \<Rightarrow> Inl TypeError)"

text \<open>\<^verbatim>\<open>_EnumIO.dictify\<close>, inherited by the ten enum handlers.\<close>

definition EnumIO_dictify :: "handler \<Rightarrow> pyobj \<Rightarrow> writer \<Rightarrow> bool \<Rightarrow> error + byte list" where
  "EnumIO_dictify cls obj w as_value =
     (case obj of
        EnumMember c name \<Rightarrow>
          ebind (ext_str (unmangleKeyword name) []) (\<lambda>ba.
          as_bytes (write_as_value (graphbinary_type cls) as_value) None [ba])
      | _ \<Rightarrow> Inl TypeError)"

definition BindingIO_dictify :: "handler \<Rightarrow> pyobj \<Rightarrow> writer \<Rightarrow> bool \<Rightarrow> error + byte list" where
  "BindingIO_dictify cls obj w as_value =
     (case obj of
        Binding k v \<Rightarrow>
          ebind (ext_str k []) (\<lambda>ba.
          ebind (ext_obj w v ba) (\<lambda>ba.
          as_bytes (write_as_value (graphbinary_type cls) as_value) None [ba]))
      | _ \<Rightarrow> Inl TypeError)"

text \<open>
  The loop of \<^verbatim>\<open>BytecodeIO.dictify\<close> over a list of instructions: the name, the number
  of arguments, the arguments.
\<close>

primrec ext_insts :: "writer \<Rightarrow> (ustr \<times> pyobj list) list \<Rightarrow> byte list \<Rightarrow> error + byte list" where
  "ext_insts w [] ba = Inr ba"
| "ext_insts w (inst # insts) ba =
     ebind (ext_str (fst inst) ba) (\<lambda>ba.
     ebind (struct_pack ''>i'' (int (length (snd inst)))) (\<lambda>n.
     ebind (ext_objs w (snd inst) (ba @ n)) (ext_insts w insts)))"

definition BytecodeIO_dictify :: "handler \<Rightarrow> pyobj \<Rightarrow> writer \<Rightarrow> bool \<Rightarrow> error + byte list" where
  "BytecodeIO_dictify cls obj w as_value =
     (case obj of
        Bytecode step_instructions source_instructions \<Rightarrow>
          ebind (struct_pack ''>i'' (int (length step_instructions))) (\<lambda>ba.
          ebind (ext_insts w step_instructions ba) (\<lambda>ba.
          ebind (struct_pack ''>i'' (int (length source_instructions))) (\<lambda>n.
          ebind (ext_insts w source_instructions (ba @ n)) (\<lambda>ba.
          as_bytes (write_as_value (graphbinary_type cls) as_value) None [ba]))))
      | _ \<Rightarrow> Inl TypeError)"

text \<open>
  The body shared, word for word, by \<^verbatim>\<open>PIO.dictify\<close> and \<^verbatim>\<open>TextPIO.dictify\<close> once the
  fields \<^verbatim>\<open>operator\<close>, \<^verbatim>\<open>value\<close> and \<^verbatim>\<open>other\<close> of the predicate are read.
\<close>

definition predicate_bytes ::
  "handler \<Rightarrow> ustr \<Rightarrow> pyobj \<Rightarrow> pyobj \<Rightarrow> writer \<Rightarrow> bool \<Rightarrow> error + byte list" where
  "predicate_bytes cls operator val other w as_value =
     (let ba = (if as_value then []
                else (case graphbinary_type cls of
                        Some t \<Rightarrow> [word_of_int (DataType_value t)] | None \<Rightarrow> [])) in
      ebind (ext_str operator ba) (\<lambda>ba.
      ebind (if other \<noteq> PyNone
             then ebind (w val) (\<lambda>a. ebind (w other) (\<lambda>b. Inr [a, b]))
             else ebind (w val) (\<lambda>a. Inr [a])) (\<lambda>additional.
      ebind (struct_pack ''>i'' (int (length additional))) (\<lambda>n.
      foldl (\<lambda>r a. ebind r (\<lambda>ba. extend ba a)) (Inr (ba @ n)) additional))))"

definition PIO_dictify :: "handler \<Rightarrow> pyobj \<Rightarrow> writer \<Rightarrow> bool \<Rightarrow> error + byte list" where
  "PIO_dictify cls obj w as_value =
     (case obj of
        P operator val other \<Rightarrow> predicate_bytes cls operator val other w as_value
      | TextP operator val other \<Rightarrow> predicate_bytes cls operator val other w as_value
      | _ \<Rightarrow> Inl TypeError)"

definition TextPIO_dictify :: "handler \<Rightarrow> pyobj \<Rightarrow> writer \<Rightarrow> bool \<Rightarrow> error + byte list" where
  "TextPIO_dictify cls obj w as_value =
     (case obj of
        TextP operator val other \<Rightarrow> predicate_bytes cls operator val other w as_value
      | P operator val other \<Rightarrow> predicate_bytes cls operator val other w as_value
      | _ \<Rightarrow> Inl TypeError)"

definition TraverserIO_dictify :: "handler \<Rightarrow> pyobj \<Rightarrow> writer \<Rightarrow> bool \<Rightarrow> error + byte list" where
  "TraverserIO_dictify cls obj w as_value =
     (case obj of
        Traverser ob bulk \<Rightarrow>
          ebind (struct_pack ''>q'' bulk) (\<lambda>ba.
          ebind (ext_obj w ob ba) (\<lambda>ba.
          as_bytes (write_as_value (graphbinary_type cls) as_value) None [ba]))
      | _ \<Rightarrow> Inl TypeError)"

definition ByteIO_dictify :: "handler \<Rightarrow> pyobj \<Rightarrow> writer \<Rightarrow> bool \<Rightarrow> error + byte list" where
  "ByteIO_dictify cls obj w as_value =
     (case int_value obj of
        Some v \<Rightarrow>
          ebind (struct_pack ''>b'' v) (\<lambda>bs.
          as_bytes (write_as_value (graphbinary_type cls) as_value) None [bs])
      | None \<Rightarrow> Inl TypeError)"

text \<open>
  \<^verbatim>\<open>ByteBufferIO.dictify\<close> takes \<^verbatim>\<open>len(obj)\<close> and passes \<open>obj\<close> to \<^verbatim>\<open>as_bytes\<close>, which
  accepts a \<^verbatim>\<open>bytes\<close> and a \<^verbatim>\<open>bytearray\<close>.
\<close>

definition ByteBufferIO_dictify :: "handler \<Rightarrow> pyobj \<Rightarrow> writer \<Rightarrow> bool \<Rightarrow> error + byte list" where
  "ByteBufferIO_dictify cls obj w as_value =
     (case obj of
        PyBytes bs \<Rightarrow>
          as_bytes (write_as_value (graphbinary_type cls) as_value) (Some (int (length bs))) [bs]
      | PyByteArray bs \<Rightarrow>
          as_bytes (write_as_value (graphbinary_type cls) as_value) (Some (int (length bs))) [bs]
      | _ \<Rightarrow> Inl TypeError)"

text \<open>
  The truth value of \<open>obj\<close> in \<^verbatim>\<open>0x01 if obj else 0x00\<close>: \<^verbatim>\<open>None\<close>, the number 0 and
  the empty string, byte string and container are false, every other value of Python's own
  types is true, and so is an enum member. For an instance of a class that is not in the
  sources (it may define \<^verbatim>\<open>__bool__\<close> or \<^verbatim>\<open>__len__\<close>) the answer is \<open>None\<close>.
\<close>

definition truth :: "pyobj \<Rightarrow> bool option" where
  "truth obj =
     (case obj of
        PyNone \<Rightarrow> Some False
      | PyInt v \<Rightarrow> Some (v \<noteq> 0)
      | PyLong v \<Rightarrow> Some (v \<noteq> 0)
      | PySingleByte v \<Rightarrow> Some (v \<noteq> 0)
      | PyBool b \<Rightarrow> Some b
      | PyStr s \<Rightarrow> Some (s \<noteq> [])
      | PyUUID bs \<Rightarrow> Some True
      | PyBytes bs \<Rightarrow> Some (bs \<noteq> [])
      | PyByteArray bs \<Rightarrow> Some (bs \<noteq> [])
      | PyList xs \<Rightarrow> Some (xs \<noteq> [])
      | PySet xs \<Rightarrow> Some (xs \<noteq> [])
      | PyDict kvs \<Rightarrow> Some (kvs \<noteq> [])
      | EnumMember c name \<Rightarrow> Some True
      | _ \<Rightarrow> None)"

text \<open>
  \<^verbatim>\<open>BooleanIO.dictify\<close> writes the truth value of \<open>obj\<close>, whatever its class; where that
  is not known the result is \<open>NotModelled\<close>.
\<close>

definition BooleanIO_dictify :: "handler \<Rightarrow> pyobj \<Rightarrow> writer \<Rightarrow> bool \<Rightarrow> error + byte list" where
  "BooleanIO_dictify cls obj w as_value =
     (case truth obj of
        Some b \<Rightarrow>
          ebind (struct_pack ''>b'' (if b then 0x01 else 0x00)) (\<lambda>bs.
          as_bytes (write_as_value (graphbinary_type cls) as_value) None [bs])
      | None \<Rightarrow> Inl NotModelled)"

text \<open>
  \<^verbatim>\<open>cls.dictify(obj, writer)\<close> by class, and \<^verbatim>\<open>cls.dictify(obj, writer, as_value)\<close> where
  a class defines the method. \<^verbatim>\<open>BulkSetIO\<close> inherits the method of \<^verbatim>\<open>_GraphBinaryTypeIO\<close>,
  which is not a class method: called on the class with the two arguments the writer
  passes, it lacks its argument \<^verbatim>\<open>writer\<close> and the call raises \<^verbatim>\<open>TypeError\<close> before the
  body (\<^verbatim>\<open>raise NotImplementedError()\<close>) is run.
\<close>

definition dictify :: "handler \<Rightarrow> pyobj \<Rightarrow> writer \<Rightarrow> bool \<Rightarrow> error + byte list" where
  "dictify cls =
     (case cls of
        LongIO \<Rightarrow> LongIO_dictify cls
      | IntIO \<Rightarrow> LongIO_dictify cls
      | DateIO \<Rightarrow> (\<lambda>obj w as_value. Inl NotModelled)
      | TimestampIO \<Rightarrow> (\<lambda>obj w as_value. Inl NotModelled)
      | FloatIO \<Rightarrow> (\<lambda>obj w as_value. Inl NotModelled)
      | DoubleIO \<Rightarrow> (\<lambda>obj w as_value. Inl NotModelled)
      | TypeSerializer \<Rightarrow> (\<lambda>obj w as_value. Inl NotModelled)
      | StringIO \<Rightarrow> StringIO_dictify cls
      | ListIO \<Rightarrow> ListIO_dictify cls
      | SetIO \<Rightarrow> ListIO_dictify cls
      | MapIO \<Rightarrow> MapIO_dictify cls
      | UuidIO \<Rightarrow> UuidIO_dictify cls
      | EdgeIO \<Rightarrow> EdgeIO_dictify cls
      | PathIO \<Rightarrow> PathIO_dictify cls
      | PropertyIO \<Rightarrow> PropertyIO_dictify cls
      | TinkerGraphIO \<Rightarrow> TinkerGraphIO_dictify cls
      | VertexIO \<Rightarrow> VertexIO_dictify cls
      | VertexPropertyIO \<Rightarrow> VertexPropertyIO_dictify cls
      | BindingIO \<Rightarrow> BindingIO_dictify cls
      | BytecodeIO \<Rightarrow> BytecodeIO_dictify cls
      | LambdaIO \<Rightarrow> (\<lambda>obj w as_value. Inl NotModelled)
      | PIO \<Rightarrow> PIO_dictify cls
      | TraverserIO \<Rightarrow> TraverserIO_dictify cls
      | ByteIO \<Rightarrow> ByteIO_dictify cls
      | ByteBufferIO \<Rightarrow> ByteBufferIO_dictify cls
      | BooleanIO \<Rightarrow> BooleanIO_dictify cls
      | TextPIO \<Rightarrow> TextPIO_dictify cls
      | BulkSetIO \<Rightarrow> (\<lambda>obj w as_value. Inl TypeError)
      | _ \<Rightarrow> EnumIO_dictify cls)"

subsection \<open>\<^verbatim>\<open>GraphBinaryWriter\<close>\<close>

text \<open>\<^verbatim>\<open>[f(x) for x in xs]\<close>.\<close>

primrec map_results :: "('a \<Rightarrow> error + 'b) \<Rightarrow> 'a list \<Rightarrow> error + 'b list" where
  "map_results f [] = Inr []"
| "map_results f (x # xs) = ebind (f x) (\<lambda>y. ebind (map_results f xs) (\<lambda>ys. Inr (y # ys)))"

text \<open>\<^verbatim>\<open>dict((w(k), w(v)) for k, v in items)\<close>, the items added to \<open>d\<close> one by one.\<close>

primrec dict_of_items ::
  "env \<Rightarrow> writer \<Rightarrow> (pyobj \<times> pyobj) list \<Rightarrow> (pyobj \<times> pyobj) list
     \<Rightarrow> error + (pyobj \<times> pyobj) list" where
  "dict_of_items E w d [] = Inr d"
| "dict_of_items E w d (kv # kvs) =
     ebind (w (fst kv)) (\<lambda>k.
     ebind (w (snd kv)) (\<lambda>v.
     ebind (dict_setitem E d k v) (\<lambda>d'. dict_of_items E w d' kvs)))"

lemma ebind_cong [fundef_cong]:
  "m = m' \<Longrightarrow> (\<And>x. m' = Inr x \<Longrightarrow> f x = f' x) \<Longrightarrow> ebind m f = ebind m' f'"
  by (simp add: ebind_def split: sum.split)

lemma map_results_cong [fundef_cong]:
  "xs = ys \<Longrightarrow> (\<And>x. x \<in> set ys \<Longrightarrow> f x = g x) \<Longrightarrow> map_results f xs = map_results g ys"
  by (induction ys arbitrary: xs) auto

lemma dict_of_items_cong [fundef_cong]:
  "kvs = kvs' \<Longrightarrow> d = d' \<Longrightarrow> E = E'
   \<Longrightarrow> (\<And>kv. kv \<in> set kvs' \<Longrightarrow> w (fst kv) = w' (fst kv))
   \<Longrightarrow> (\<And>kv. kv \<in> set kvs' \<Longrightarrow> w (snd kv) = w' (snd kv))
   \<Longrightarrow> dict_of_items E w d kvs = dict_of_items E' w' d' kvs'"
  by (induction kvs' arbitrary: kvs d d') auto

lemma ext_objs_cong:
  "(\<And>x. x \<in> set xs \<Longrightarrow> w x = w' x) \<Longrightarrow> ext_objs w xs ba = ext_objs w' xs ba"
  by (induction xs arbitrary: ba) (auto simp: ext_obj_def cong: ebind_cong)

lemma ext_items_cong:
  "(\<And>kv. kv \<in> set kvs \<Longrightarrow> w (fst kv) = w' (fst kv) \<and> w (snd kv) = w' (snd kv))
   \<Longrightarrow> ext_items w kvs ba = ext_items w' kvs ba"
  by (induction kvs arbitrary: ba) (auto simp: ext_obj_def cong: ebind_cong)

lemma ext_insts_cong:
  "(\<And>inst x. inst \<in> set insts \<Longrightarrow> x \<in> set (snd inst) \<Longrightarrow> w x = w' x)
   \<Longrightarrow> ext_insts w insts ba = ext_insts w' insts ba"
proof (induction insts arbitrary: ba)
  case Nil
  show ?case by simp
next
  case (Cons inst insts)
  have args: "ext_objs w (snd inst) b = ext_objs w' (snd inst) b" for b
    by (rule ext_objs_cong) (rule Cons.prems [of inst], simp_all)
  have rest: "ext_insts w insts b = ext_insts w' insts b" for b
    by (rule Cons.IH) (rule Cons.prems, simp_all)
  show ?case by (simp add: args rest cong: ebind_cong)
qed

lemma size_list_elem: "x \<in> set xs \<Longrightarrow> size x < Suc (size_list size xs)"
  by (induction xs) auto

lemma size_items_elem:
  assumes "kv \<in> set kvs"
  shows "size (fst kv) < Suc (size_list (size_prod size size) kvs)
     \<and> size (snd kv) < Suc (size_list (size_prod size size) kvs)"
proof -
  have "size (fst kv) \<le> size_prod size size kv" and "size (snd kv) \<le> size_prod size size kv"
    by (cases kv; simp)+
  then have "size (fst kv) \<le> size_list (size_prod size size) kvs"
    and "size (snd kv) \<le> size_list (size_prod size size) kvs"
    using size_list_estimation' [OF assms] by blast+
  then show ?thesis by simp
qed

lemma size_insts_elem:
  "inst \<in> set insts \<Longrightarrow> x \<in> set (snd inst)
   \<Longrightarrow> size x < Suc (size_list (size_prod (\<lambda>_. 0) (size_list size)) insts)"
proof (induction insts)
  case Nil
  then show ?case by simp
next
  case (Cons a insts)
  show ?case
  proof (cases "inst = a")
    case True
    then have "size x < Suc (size_list size (snd a))"
      using Cons.prems size_list_elem by blast
    then show ?thesis by (simp add: size_prod_simp)
  next
    case False
    then have "size x < Suc (size_list (size_prod (\<lambda>_. 0) (size_list size)) insts)"
      using Cons by simp
    then show ?thesis by simp
  qed
qed

lemma dictify_cong [fundef_cong]:
  assumes "cls = cls'" and "obj = obj'" and "as_value = as_value'"
    and w: "\<And>x. size x < size obj' \<Longrightarrow> w x = w' x"
  shows "dictify cls obj w as_value = dictify cls' obj' w' as_value'"
proof -
  have objs: "ext_objs w xs ba = ext_objs w' xs ba"
    if "obj' = PyList xs \<or> obj' = PySet xs" for xs ba
    using that by (intro ext_objs_cong w) (auto dest: size_list_elem)
  have items: "ext_items w kvs ba = ext_items w' kvs ba" if "obj' = PyDict kvs" for kvs ba
    using that by (intro ext_items_cong conjI w) (auto dest: size_items_elem)
  have insts: "ext_insts w st ba = ext_insts w' st ba \<and> ext_insts w so ba = ext_insts w' so ba"
    if "obj' = Bytecode st so" for st so ba
    using that by (intro ext_insts_cong conjI w) (auto dest: size_insts_elem)
  have one: "ext_obj w x ba = ext_obj w' x ba" if "size x < size obj'" for x ba
    using that by (simp add: ext_obj_def w)
  have two: "w x = w' x" if "size x < size obj'" for x
    using that by (rule w)
  show ?thesis
    unfolding assms(1-3)
    by (cases cls'; cases obj')
       (simp_all add: dictify_def LongIO_dictify_def StringIO_dictify_def ListIO_dictify_def
          MapIO_dictify_def UuidIO_dictify_def EdgeIO_dictify_def PathIO_dictify_def
          PropertyIO_dictify_def TinkerGraphIO_dictify_def VertexIO_dictify_def
          VertexPropertyIO_dictify_def EnumIO_dictify_def BindingIO_dictify_def
          BytecodeIO_dictify_def PIO_dictify_def TextPIO_dictify_def predicate_bytes_def
          TraverserIO_dictify_def ByteIO_dictify_def ByteBufferIO_dictify_def
          BooleanIO_dictify_def int_value_def objs items insts one two size_prod_simp
          cong: ebind_cong)
qed

text \<open>
  \<^verbatim>\<open>GraphBinaryWriter.toDict\<close> with the default registry. The \<^verbatim>\<open>try\<close> covers the lookup
  and the call of \<^verbatim>\<open>dictify\<close>; on \<^verbatim>\<open>KeyError\<close> the entries are tried in insertion order
  with \<^verbatim>\<open>isinstance\<close>; when none applies, a \<^verbatim>\<open>dict\<close>, \<^verbatim>\<open>set\<close> or \<^verbatim>\<open>list\<close> is rebuilt from
  the results for its elements, and any other value is returned as it is.
\<close>

fun toDict :: "env \<Rightarrow> pyobj \<Rightarrow> error + pyobj" where
  "toDict E obj =
     (case (case map_of serializers (type_of obj) of
              None \<Rightarrow> Inl KeyError
            | Some s \<Rightarrow> ebind (dictify s obj (toDict E) False) (\<lambda>ba. Inr (PyByteArray ba))) of
        Inl KeyError \<Rightarrow>
          (case find (\<lambda>(key, serializer). isinstance obj key) serializers of
             Some (key, serializer) \<Rightarrow>
               ebind (dictify serializer obj (toDict E) False) (\<lambda>ba. Inr (PyByteArray ba))
           | None \<Rightarrow>
               (case obj of
                  PyDict kvs \<Rightarrow> ebind (dict_of_items E (toDict E) [] kvs) (\<lambda>d. Inr (PyDict d))
                | PySet xs \<Rightarrow>
                    ebind (map_results (toDict E) xs) (\<lambda>ys.
                    ebind (set_of_list E [] ys) (\<lambda>s. Inr (PySet s)))
                | PyList xs \<Rightarrow> ebind (map_results (toDict E) xs) (\<lambda>ys. Inr (PyList ys))
                | _ \<Rightarrow> Inr obj))
      | r \<Rightarrow> r)"

declare toDict.simps [simp del]

definition writeObject :: "env \<Rightarrow> pyobj \<Rightarrow> error + pyobj" where
  "writeObject E objectData = toDict E objectData"

subsection \<open>Reading from a byte stream\<close>

text \<open>
  A stream (\<^verbatim>\<open>io.BytesIO\<close>, or any \<^verbatim>\<open>io.BufferedIOBase\<close>) is the list of the bytes not
  yet read. A function that reads returns its result with the rest of the stream.
\<close>

type_synonym stream = "byte list"

text \<open>
  \<^verbatim>\<open>buff.read(n)\<close>: at most \<open>n\<close> bytes, fewer at the end of the stream and all that is
  left when \<open>n\<close> is negative.
\<close>

definition read :: "int \<Rightarrow> stream \<Rightarrow> byte list \<times> stream" where
  "read n buff = (if n < 0 then (buff, []) else (take (nat n) buff, drop (nat n) buff))"

definition read_int :: "stream \<Rightarrow> error + int \<times> stream" where
  "read_int buff =
     (case read 4 buff of (bs, rest) \<Rightarrow>
        ebind (struct_unpack ''>i'' bs) (\<lambda>v. Inr (v, rest)))"

definition read_string :: "stream \<Rightarrow> error + ustr \<times> stream" where
  "read_string buff =
     ebind (read_int buff) (\<lambda>(n, b).
     case read n b of (bs, rest) \<Rightarrow>
       ebind (utf8_decode bs) (\<lambda>s. Inr (s, rest)))"

text \<open>The reader a handler calls back for nested values: \<^verbatim>\<open>reader.readObject(b)\<close>.\<close>

type_synonym reader = "stream \<Rightarrow> error + pyobj \<times> stream"

text \<open>
  \<^verbatim>\<open>is_null(buff, reader, else_opt)\<close>: \<^verbatim>\<open>None\<close> when the next byte is 1, the result of
  \<open>else_opt\<close> on the stream after that byte otherwise.
\<close>

definition is_null :: "stream \<Rightarrow> reader \<Rightarrow> error + pyobj \<times> stream" where
  "is_null buff else_opt =
     (case read 1 buff of
        ([], rest) \<Rightarrow> Inl IndexError
      | (flag # bs, rest) \<Rightarrow> if uint flag = 0x01 then Inr (PyNone, rest) else else_opt rest)"

subsection \<open>Deserialization: the \<^verbatim>\<open>objectify\<close> methods\<close>

definition LongIO_objectify :: "handler \<Rightarrow> stream \<Rightarrow> reader \<Rightarrow> error + pyobj \<times> stream" where
  "LongIO_objectify cls buff r =
     is_null buff (\<lambda>b.
       case read 8 b of (bs, rest) \<Rightarrow>
         ebind (struct_unpack (byte_format cls) bs) (\<lambda>v. Inr (PyInt v, rest)))"

definition IntIO_objectify :: "handler \<Rightarrow> stream \<Rightarrow> reader \<Rightarrow> error + pyobj \<times> stream" where
  "IntIO_objectify cls buff r =
     is_null buff (\<lambda>b. ebind (read_int b) (\<lambda>(v, rest). Inr (PyInt v, rest)))"

text \<open>
  \<^verbatim>\<open>DateIO\<close>, \<^verbatim>\<open>TimestampIO\<close>, \<^verbatim>\<open>FloatIO\<close> and \<^verbatim>\<open>DoubleIO\<close>: the null flag is read as
  everywhere, the payload is not modelled.
\<close>

definition unmodelled_objectify :: "handler \<Rightarrow> stream \<Rightarrow> reader \<Rightarrow> error + pyobj \<times> stream" where
  "unmodelled_objectify cls buff r = is_null buff (\<lambda>b. Inl NotModelled)"

definition StringIO_objectify :: "handler \<Rightarrow> stream \<Rightarrow> reader \<Rightarrow> error + pyobj \<times> stream" where
  "StringIO_objectify cls buff r =
     is_null buff (\<lambda>b.
       ebind (read_int b) (\<lambda>(n, b).
       case read n b of (bs, rest) \<Rightarrow>
         ebind (utf8_decode bs) (\<lambda>s. Inr (PyStr s, rest))))"

text \<open>
  The loop \<^verbatim>\<open>while size > 0: the_list.append(r.readObject(b)); size = size - 1\<close>, by
  the number of rounds left.
\<close>

primrec read_objects :: "reader \<Rightarrow> nat \<Rightarrow> pyobj list \<Rightarrow> stream \<Rightarrow> error + pyobj list \<times> stream" where
  "read_objects r 0 the_list b = Inr (the_list, b)"
| "read_objects r (Suc n) the_list b =
     ebind (r b) (\<lambda>(x, b). read_objects r n (the_list @ [x]) b)"

definition read_list :: "reader \<Rightarrow> stream \<Rightarrow> error + pyobj \<times> stream" where
  "read_list r b =
     ebind (read_int b) (\<lambda>(sz, b).
     ebind (read_objects r (nat sz) [] b) (\<lambda>(the_list, b). Inr (PyList the_list, b)))"

definition ListIO_objectify :: "handler \<Rightarrow> stream \<Rightarrow> reader \<Rightarrow> error + pyobj \<times> stream" where
  "ListIO_objectify cls buff r = is_null buff (read_list r)"

text \<open>\<^verbatim>\<open>set(ListIO.objectify(buff, reader, as_value))\<close>: \<^verbatim>\<open>set(None)\<close> raises.\<close>

definition SetIO_objectify :: "env \<Rightarrow> handler \<Rightarrow> stream \<Rightarrow> reader \<Rightarrow> error + pyobj \<times> stream" where
  "SetIO_objectify E cls buff r =
     ebind (ListIO_objectify ListIO buff r) (\<lambda>(v, rest).
     case v of
       PyList xs \<Rightarrow> ebind (set_of_list E [] xs) (\<lambda>s. Inr (PySet s, rest))
     | _ \<Rightarrow> Inl TypeError)"

primrec read_items ::
  "env \<Rightarrow> reader \<Rightarrow> nat \<Rightarrow> (pyobj \<times> pyobj) list \<Rightarrow> stream
     \<Rightarrow> error + (pyobj \<times> pyobj) list \<times> stream" where
  "read_items E r 0 the_dict b = Inr (the_dict, b)"
| "read_items E r (Suc n) the_dict b =
     ebind (r b) (\<lambda>(k, b).
     ebind (r b) (\<lambda>(v, b).
     ebind (dict_setitem E the_dict k v) (\<lambda>d. read_items E r n d b)))"

definition read_map :: "env \<Rightarrow> reader \<Rightarrow> stream \<Rightarrow> error + pyobj \<times> stream" where
  "read_map E r b =
     ebind (read_int b) (\<lambda>(sz, b).
     ebind (read_items E r (nat sz) [] b) (\<lambda>(the_dict, b). Inr (PyDict the_dict, b)))"

definition MapIO_objectify :: "env \<Rightarrow> handler \<Rightarrow> stream \<Rightarrow> reader \<Rightarrow> error + pyobj \<times> stream" where
  "MapIO_objectify E cls buff r = is_null buff (read_map E r)"

text \<open>\<^verbatim>\<open>uuid.UUID(bytes=b.read(16))\<close>: \<^verbatim>\<open>ValueError\<close> unless there are 16 bytes.\<close>

definition UuidIO_objectify :: "handler \<Rightarrow> stream \<Rightarrow> reader \<Rightarrow> error + pyobj \<times> stream" where
  "UuidIO_objectify cls buff r =
     is_null buff (\<lambda>b.
       case read 16 b of (bs, rest) \<Rightarrow>
         if length bs = 16 then Inr (PyUUID bs, rest) else Inl ValueError)"

text \<open>
  \<^verbatim>\<open>_read_edge\<close>. The arguments of a call are evaluated from left to right: the vertex
  passed second to \<^verbatim>\<open>Edge\<close> is read before the one passed fourth.
\<close>

definition read_edge :: "reader \<Rightarrow> stream \<Rightarrow> error + pyobj \<times> stream" where
  "read_edge r b =
     ebind (r b) (\<lambda>(edgeid, b).
     ebind (read_string b) (\<lambda>(edgelbl, b).
     ebind (r b) (\<lambda>(id2, b).
     ebind (read_string b) (\<lambda>(label2, b).
     ebind (r b) (\<lambda>(id4, b).
     ebind (read_string b) (\<lambda>(label4, b).
     Inr (Edge edgeid (id2, label2) edgelbl (id4, label4), snd (read 2 b))))))))"

definition EdgeIO_objectify :: "handler \<Rightarrow> stream \<Rightarrow> reader \<Rightarrow> error + pyobj \<times> stream" where
  "EdgeIO_objectify cls buff r = is_null buff (read_edge r)"

definition PathIO_objectify :: "handler \<Rightarrow> stream \<Rightarrow> reader \<Rightarrow> error + pyobj \<times> stream" where
  "PathIO_objectify cls buff r =
     is_null buff (\<lambda>b.
       ebind (r b) (\<lambda>(labels, b).
       ebind (r b) (\<lambda>(objects, b). Inr (Path labels objects, b))))"

definition read_property :: "reader \<Rightarrow> stream \<Rightarrow> error + pyobj \<times> stream" where
  "read_property r b =
     ebind (read_string b) (\<lambda>(k, b).
     ebind (r b) (\<lambda>(v, b).
     Inr (Property k v PyNone, snd (read 1 b))))"

definition PropertyIO_objectify :: "handler \<Rightarrow> stream \<Rightarrow> reader \<Rightarrow> error + pyobj \<times> stream" where
  "PropertyIO_objectify cls buff r = is_null buff (read_property r)"

definition TinkerGraphIO_objectify :: "handler \<Rightarrow> stream \<Rightarrow> reader \<Rightarrow> error + pyobj \<times> stream" where
  "TinkerGraphIO_objectify cls b r = Inl AttributeError"

definition read_vertex :: "reader \<Rightarrow> stream \<Rightarrow> error + pyobj \<times> stream" where
  "read_vertex r b =
     ebind (r b) (\<lambda>(i, b).
     ebind (read_string b) (\<lambda>(l, b).
     Inr (Vertex i l, snd (read 1 b))))"

definition VertexIO_objectify :: "handler \<Rightarrow> stream \<Rightarrow> reader \<Rightarrow> error + pyobj \<times> stream" where
  "VertexIO_objectify cls buff r = is_null buff (read_vertex r)"

definition read_vertexproperty :: "reader \<Rightarrow> stream \<Rightarrow> error + pyobj \<times> stream" where
  "read_vertexproperty r b =
     ebind (r b) (\<lambda>(i, b).
     ebind (read_string b) (\<lambda>(l, b).
     ebind (r b) (\<lambda>(v, b).
     Inr (VertexProperty i l v PyNone, snd (read 1 (snd (read 1 b)))))))"

definition VertexPropertyIO_objectify ::
  "handler \<Rightarrow> stream \<Rightarrow> reader \<Rightarrow> error + pyobj \<times> stream" where
  "VertexPropertyIO_objectify cls buff r = is_null buff (read_vertexproperty r)"

text \<open>The enum class a handler is for: its \<^verbatim>\<open>python_type\<close>.\<close>

definition enum_of :: "handler \<Rightarrow> enum_class option" where
  "enum_of cls = (case python_type cls of Some (T_enum c) \<Rightarrow> Some c | _ \<Rightarrow> None)"

text \<open>
  \<^verbatim>\<open>_EnumIO.objectify\<close>: \<^verbatim>\<open>cls.python_type[name]\<close> is the member of that name,
  \<^verbatim>\<open>KeyError\<close> when the class has none.
\<close>

definition EnumIO_objectify :: "env \<Rightarrow> handler \<Rightarrow> stream \<Rightarrow> reader \<Rightarrow> error + pyobj \<times> stream" where
  "EnumIO_objectify E cls buff r =
     is_null buff (\<lambda>b.
       ebind (read_string b) (\<lambda>(name, b).
       case enum_of cls of
         None \<Rightarrow> Inl TypeError
       | Some c \<Rightarrow> if name \<in> set (members E c) then Inr (EnumMember c name, b) else Inl KeyError))"

definition BindingIO_objectify :: "handler \<Rightarrow> stream \<Rightarrow> reader \<Rightarrow> error + pyobj \<times> stream" where
  "BindingIO_objectify cls buff r =
     is_null buff (\<lambda>b.
       ebind (read_string b) (\<lambda>(k, b).
       ebind (r b) (\<lambda>(v, b). Inr (Binding k v, b))))"

text \<open>
  The outer loop of \<^verbatim>\<open>_read_bytecode\<close>, \<^verbatim>\<open>while ix < count\<close>, by the number of rounds
  left; the inner loop \<^verbatim>\<open>while iy < inst_ct: inst.append(r.readObject(b))\<close> is
  \<open>read_objects\<close>.
\<close>

primrec read_insts ::
  "reader \<Rightarrow> nat \<Rightarrow> (ustr \<times> pyobj list) list \<Rightarrow> stream
     \<Rightarrow> error + (ustr \<times> pyobj list) list \<times> stream" where
  "read_insts r 0 insts b = Inr (insts, b)"
| "read_insts r (Suc n) insts b =
     ebind (read_string b) (\<lambda>(name, b).
     ebind (read_int b) (\<lambda>(inst_ct, b).
     ebind (read_objects r (nat inst_ct) [] b) (\<lambda>(args, b).
     read_insts r n (insts @ [(name, args)]) b)))"

definition read_bytecode :: "reader \<Rightarrow> stream \<Rightarrow> error + pyobj \<times> stream" where
  "read_bytecode r b =
     ebind (read_int b) (\<lambda>(step_count, b).
     ebind (read_insts r (nat step_count) [] b) (\<lambda>(step_instructions, b).
     ebind (read_int b) (\<lambda>(source_count, b).
     ebind (read_insts r (nat source_count) [] b) (\<lambda>(source_instructions, b).
     Inr (Bytecode step_instructions source_instructions, b)))))"

definition BytecodeIO_objectify :: "handler \<Rightarrow> stream \<Rightarrow> reader \<Rightarrow> error + pyobj \<times> stream" where
  "BytecodeIO_objectify cls buff r = is_null buff (read_bytecode r)"

definition read_traverser :: "reader \<Rightarrow> stream \<Rightarrow> error + pyobj \<times> stream" where
  "read_traverser r b =
     (case read 8 b of (bs, b) \<Rightarrow>
        ebind (struct_unpack ''>q'' bs) (\<lambda>bulk.
        ebind (r b) (\<lambda>(ob, b). Inr (Traverser ob bulk, b))))"

definition TraverserIO_objectify :: "handler \<Rightarrow> stream \<Rightarrow> reader \<Rightarrow> error + pyobj \<times> stream" where
  "TraverserIO_objectify cls buff r = is_null buff (read_traverser r)"

definition ByteIO_objectify :: "handler \<Rightarrow> stream \<Rightarrow> reader \<Rightarrow> error + pyobj \<times> stream" where
  "ByteIO_objectify cls buff r =
     is_null buff (\<lambda>b.
       case read 1 b of (bs, rest) \<Rightarrow>
         ebind (struct_unpack ''>b'' bs) (\<lambda>v. Inr (PySingleByte v, rest)))"

definition read_bytebuffer :: "reader \<Rightarrow> stream \<Rightarrow> error + pyobj \<times> stream" where
  "read_bytebuffer r b =
     ebind (read_int b) (\<lambda>(sz, b).
     case read sz b of (bs, rest) \<Rightarrow> Inr (PyBytes bs, rest))"

definition ByteBufferIO_objectify :: "handler \<Rightarrow> stream \<Rightarrow> reader \<Rightarrow> error + pyobj \<times> stream" where
  "ByteBufferIO_objectify cls buff r = is_null buff (read_bytebuffer r)"

definition BooleanIO_objectify :: "handler \<Rightarrow> stream \<Rightarrow> reader \<Rightarrow> error + pyobj \<times> stream" where
  "BooleanIO_objectify cls buff r =
     is_null buff (\<lambda>b.
       case read 1 b of (bs, rest) \<Rightarrow>
         ebind (struct_unpack ''>b'' bs) (\<lambda>v. Inr (PyBool (v = 0x01), rest)))"

text \<open>
  The loop of \<^verbatim>\<open>_read_bulkset\<close>: an object, then \<^verbatim>\<open>bulk = cls.read_int(b)\<close>, then
  \<^verbatim>\<open>for y in range(bulk): the_list.append(itm)\<close>.
\<close>

primrec read_bulks :: "reader \<Rightarrow> nat \<Rightarrow> pyobj list \<Rightarrow> stream \<Rightarrow> error + pyobj list \<times> stream" where
  "read_bulks r 0 the_list b = Inr (the_list, b)"
| "read_bulks r (Suc n) the_list b =
     ebind (r b) (\<lambda>(itm, b).
     ebind (read_int b) (\<lambda>(bulk, b).
     read_bulks r n (the_list @ replicate (nat bulk) itm) b))"

definition read_bulkset :: "reader \<Rightarrow> stream \<Rightarrow> error + pyobj \<times> stream" where
  "read_bulkset r b =
     ebind (read_int b) (\<lambda>(sz, b).
     ebind (read_bulks r (nat sz) [] b) (\<lambda>(the_list, b). Inr (PyList the_list, b)))"

definition BulkSetIO_objectify :: "handler \<Rightarrow> stream \<Rightarrow> reader \<Rightarrow> error + pyobj \<times> stream" where
  "BulkSetIO_objectify cls buff r = is_null buff (read_bulkset r)"

text \<open>
  \<^verbatim>\<open>cls.objectify(buff, reader)\<close> by class. \<^verbatim>\<open>LambdaIO\<close>, \<^verbatim>\<open>PIO\<close>, \<^verbatim>\<open>TextPIO\<close> and
  \<^verbatim>\<open>TypeSerializer\<close> inherit the method of \<^verbatim>\<open>_GraphBinaryTypeIO\<close>, which is not a class
  method: called on the class with the two arguments the reader passes, it lacks its
  argument \<^verbatim>\<open>reader\<close> and the call raises \<^verbatim>\<open>TypeError\<close> before the body
  (\<^verbatim>\<open>raise NotImplementedError()\<close>) is run, and before any byte is read. \<^verbatim>\<open>FloatIO\<close> and
  \<^verbatim>\<open>DoubleIO\<close> override the method of \<^verbatim>\<open>LongIO\<close>.
\<close>

definition objectify :: "env \<Rightarrow> handler \<Rightarrow> stream \<Rightarrow> reader \<Rightarrow> error + pyobj \<times> stream" where
  "objectify E cls =
     (case cls of
        LongIO \<Rightarrow> LongIO_objectify cls
      | IntIO \<Rightarrow> IntIO_objectify cls
      | DateIO \<Rightarrow> unmodelled_objectify cls
      | TimestampIO \<Rightarrow> unmodelled_objectify cls
      | FloatIO \<Rightarrow> unmodelled_objectify cls
      | DoubleIO \<Rightarrow> unmodelled_objectify cls
      | TypeSerializer \<Rightarrow> (\<lambda>buff r. Inl TypeError)
      | StringIO \<Rightarrow> StringIO_objectify cls
      | ListIO \<Rightarrow> ListIO_objectify cls
      | SetIO \<Rightarrow> SetIO_objectify E cls
      | MapIO \<Rightarrow> MapIO_objectify E cls
      | UuidIO \<Rightarrow> UuidIO_objectify cls
      | EdgeIO \<Rightarrow> EdgeIO_objectify cls
      | PathIO \<Rightarrow> PathIO_objectify cls
      | PropertyIO \<Rightarrow> PropertyIO_objectify cls
      | TinkerGraphIO \<Rightarrow> TinkerGraphIO_objectify cls
      | VertexIO \<Rightarrow> VertexIO_objectify cls
      | VertexPropertyIO \<Rightarrow> VertexPropertyIO_objectify cls
      | BindingIO \<Rightarrow> BindingIO_objectify cls
      | BytecodeIO \<Rightarrow> BytecodeIO_objectify cls
      | LambdaIO \<Rightarrow> (\<lambda>buff r. Inl TypeError)
      | PIO \<Rightarrow> (\<lambda>buff r. Inl TypeError)
      | TraverserIO \<Rightarrow> TraverserIO_objectify cls
      | ByteIO \<Rightarrow> ByteIO_objectify cls
      | ByteBufferIO \<Rightarrow> ByteBufferIO_objectify cls
      | BooleanIO \<Rightarrow> BooleanIO_objectify cls
      | TextPIO \<Rightarrow> (\<lambda>buff r. Inl TypeError)
      | BulkSetIO \<Rightarrow> BulkSetIO_objectify cls
      | _ \<Rightarrow> EnumIO_objectify E cls)"

subsection \<open>\<^verbatim>\<open>GraphBinaryReader\<close>\<close>

text \<open>
  The body of \<^verbatim>\<open>GraphBinaryReader.toObject\<close>, with the reader that the handler calls
  back as a parameter: one byte is read; 0xfe gives \<^verbatim>\<open>None\<close>; otherwise the byte, read as
  \<^verbatim>\<open>>b\<close>, is looked up in \<^verbatim>\<open>DataType\<close> and in the deserializers.
\<close>

definition toObject_body :: "env \<Rightarrow> reader \<Rightarrow> stream \<Rightarrow> error + pyobj \<times> stream" where
  "toObject_body E r buff =
     (case read 1 buff of
        ([], rest) \<Rightarrow> Inl IndexError
      | (b0 # bs, rest) \<Rightarrow>
          if uint b0 = DataType_value DT_null then Inr (PyNone, rest)
          else
            ebind (struct_unpack ''>b'' (b0 # bs)) (\<lambda>bt_value.
            ebind (DataType_of bt_value) (\<lambda>d.
            case map_of deserializers d of
              None \<Rightarrow> Inl KeyError
            | Some h \<Rightarrow> objectify E h rest r)))"

text \<open>
  \<^verbatim>\<open>toObject\<close> calls itself through the handlers. The recursion is cut by a fuel: with
  fuel 0 a nested call answers \<open>OutOfFuel\<close>. Every call reads at least one byte before it
  recurses, so the length of the input is fuel enough (\<open>toObject_enough_fuel\<close> below).
\<close>

primrec toObject :: "nat \<Rightarrow> env \<Rightarrow> stream \<Rightarrow> error + pyobj \<times> stream" where
  "toObject 0 E = toObject_body E (\<lambda>b. Inl OutOfFuel)"
| "toObject (Suc n) E = toObject_body E (toObject n E)"

text \<open>
  What \<^verbatim>\<open>readObject\<close> is given: an object, or a buffered reader (an
  \<^verbatim>\<open>io.BufferedIOBase\<close>) with the bytes it has left.
\<close>

datatype rd_input = AnObject pyobj | BufferedReader stream

text \<open>
  \<^verbatim>\<open>GraphBinaryReader.readObject(b)\<close>, returning its result and \<open>b\<close> as the call leaves
  it: a \<^verbatim>\<open>bytearray\<close> is read through a fresh \<^verbatim>\<open>io.BytesIO\<close>; a buffered reader is read
  and advanced; for anything else neither branch applies and the method returns \<^verbatim>\<open>None\<close>.
\<close>

definition readObject :: "env \<Rightarrow> rd_input \<Rightarrow> error + pyobj \<times> rd_input" where
  "readObject E b =
     (case b of
        AnObject (PyByteArray bs) \<Rightarrow>
          ebind (toObject (length bs) E bs) (\<lambda>(v, rest). Inr (v, b))
      | BufferedReader s \<Rightarrow>
          ebind (toObject (length s) E s) (\<lambda>(v, rest). Inr (v, BufferedReader rest))
      | _ \<Rightarrow> Inr (PyNone, b))"

text \<open>
  An environment for the closed examples. It follows Python for the values of Python's own
  types and for enum members: \<^verbatim>\<open>None\<close>, the integers, \<^verbatim>\<open>bool\<close>, \<^verbatim>\<open>str\<close>, \<^verbatim>\<open>UUID\<close>,
  \<^verbatim>\<open>bytes\<close> and the enum members can be hashed, and \<^verbatim>\<open>bytearray\<close>, \<^verbatim>\<open>list\<close>, \<^verbatim>\<open>set\<close> and
  \<^verbatim>\<open>dict\<close> cannot; two integers (a \<^verbatim>\<open>bool\<close> is one) are equal when their values are,
  and two other values that can be hashed when they are the same. What the classes that
  are not in the sources define for hashing and equality is not known: this environment
  refuses their instances as elements of a set and as keys, and no example uses one so.
  The enum class \<^verbatim>\<open>Order\<close> has the members \<^verbatim>\<open>asc\<close> and \<^verbatim>\<open>desc\<close> here.
\<close>

definition example_hashable :: "pyobj \<Rightarrow> bool" where
  "example_hashable x =
     (case x of
        PyNone \<Rightarrow> True
      | PyInt v \<Rightarrow> True
      | PyLong v \<Rightarrow> True
      | PySingleByte v \<Rightarrow> True
      | PyBool b \<Rightarrow> True
      | PyStr s \<Rightarrow> True
      | PyUUID bs \<Rightarrow> True
      | PyBytes bs \<Rightarrow> True
      | EnumMember c name \<Rightarrow> True
      | _ \<Rightarrow> False)"

definition example_eq :: "pyobj \<Rightarrow> pyobj \<Rightarrow> bool" where
  "example_eq x y =
     (case (int_value x, int_value y) of
        (Some v, Some w) \<Rightarrow> v = w
      | _ \<Rightarrow> x = y)"

definition example_env :: env where
  "example_env =
     \<lparr>hashable = example_hashable, py_eq = example_eq,
      members = (\<lambda>c. if c = Order then [ustr_of ''asc'', ustr_of ''desc''] else [])\<rparr>"

section \<open>Properties\<close>

subsection \<open>The registries and the integer formats\<close>

lemma ebind_Inl: "ebind (Inl e) f = Inl e"
  by (simp add: ebind_def)

lemma ebind_Inr: "ebind (Inr x) f = f x"
  by (simp add: ebind_def)

lemma serializers_eq:
  "serializers =
     [(T_long, LongIO), (T_int, IntIO), (T_datetime, DateIO), (T_timestamp, TimestampIO),
      (T_float, DoubleIO), (T_type, TypeSerializer), (T_str, StringIO), (T_list, ListIO),
      (T_set, SetIO), (T_dict, MapIO), (T_UUID, UuidIO), (T_Edge, EdgeIO), (T_Path, PathIO),
      (T_Property, PropertyIO), (T_Graph, TinkerGraphIO), (T_Vertex, VertexIO),
      (T_VertexProperty, VertexPropertyIO), (T_enum Barrier, BarrierIO),
      (T_enum Cardinality, CardinalityIO), (T_enum Column, ColumnIO),
      (T_enum Direction, DirectionIO), (T_enum Operator, OperatorIO),
      (T_enum Order, OrderIO), (T_enum Pick, PickIO), (T_enum Pop, PopIO),
      (T_Binding, BindingIO), (T_Bytecode, BytecodeIO), (T_function, LambdaIO),
      (T_P, PIO), (T_enum Scope, ScopeIO), (T_enum T, TIO), (T_Traverser, TraverserIO),
      (T_SingleByte, ByteIO), (T_bytes, ByteBufferIO), (T_bool, BooleanIO),
      (T_TextP, TextPIO)]"
  by (simp add: serializers_def handler_classes_def)

lemma deserializers_eq:
  "deserializers =
     [(DT_long, LongIO), (DT_int, IntIO), (DT_date, DateIO), (DT_timestamp, TimestampIO),
      (DT_float, FloatIO), (DT_double, DoubleIO), (DT_string, StringIO), (DT_list, ListIO),
      (DT_set, SetIO), (DT_map, MapIO), (DT_uuid, UuidIO), (DT_edge, EdgeIO),
      (DT_path, PathIO), (DT_property, PropertyIO), (DT_graph, TinkerGraphIO),
      (DT_vertex, VertexIO), (DT_vertexproperty, VertexPropertyIO),
      (DT_barrier, BarrierIO), (DT_cardinality, CardinalityIO), (DT_column, ColumnIO),
      (DT_direction, DirectionIO), (DT_operator, OperatorIO), (DT_order, OrderIO),
      (DT_pick, PickIO), (DT_pop, PopIO), (DT_binding, BindingIO),
      (DT_bytecode, BytecodeIO), (DT_lambda, LambdaIO), (DT_p, PIO), (DT_scope, ScopeIO),
      (DT_t, TIO), (DT_traverser, TraverserIO), (DT_byte, ByteIO),
      (DT_bytebuffer, ByteBufferIO), (DT_boolean, BooleanIO), (DT_textp, TextPIO),
      (DT_bulkset, BulkSetIO)]"
  by (simp add: deserializers_def handler_classes_def)

lemma struct_pack_flag: "struct_pack ''>b'' 0 = Inr [0]"
  by (simp add: struct_pack_def pack_int_def)

lemma struct_pack_q:
  "struct_pack ''>q'' v =
     (if - 9223372036854775808 \<le> v \<and> v \<le> 9223372036854775807 then Inr (be_bytes 8 v)
      else Inl struct_error)"
  by (auto simp: struct_pack_def pack_int_def)

lemma length_be_bytes: "length (be_bytes n v) = n"
  by (induction n) auto

lemma be_uint_be_bytes: "be_uint (be_bytes n v) = v mod 2 ^ (8 * n)"
proof (induction n)
  case 0
  show ?case by simp
next
  case (Suc n)
  have "be_uint (be_bytes (Suc n) v)
      = (v div 2 ^ (8 * n)) mod 256 * 256 ^ n + v mod 2 ^ (8 * n)"
    by (simp add: Suc length_be_bytes uint_word_of_int)
  also have "(256::int) ^ n = 2 ^ (8 * n)"
    by (simp add: power_mult)
  also have "(v div 2 ^ (8 * n)) mod 256 * 2 ^ (8 * n) + v mod 2 ^ (8 * n)
      = v mod (2 ^ (8 * n) * 256)"
    using zmod_zmult2_eq [where a = v and b = "2 ^ (8 * n)" and c = 256] by simp
  also have "(2::int) ^ (8 * n) * 256 = 2 ^ (8 * Suc n)"
    by (simp add: power_add)
  finally show ?case .
qed

lemma be_sint_be_bytes:
  assumes "0 < n" and "- (2 ^ (8 * n - 1)) \<le> v" and "v < 2 ^ (8 * n - 1)"
  shows "be_sint (be_bytes n v) = v"
proof -
  have p: "(2::int) ^ (8 * n) = 2 * 2 ^ (8 * n - 1)"
    using assms(1) by (metis Suc_diff_1 mult_pos_pos power_Suc zero_less_numeral)
  show ?thesis
  proof (cases "0 \<le> v")
    case True
    then have "v mod 2 ^ (8 * n) = v" using assms p by simp
    then show ?thesis using assms by (simp add: be_sint_def be_uint_be_bytes length_be_bytes)
  next
    case False
    have "(v + 2 ^ (8 * n)) mod 2 ^ (8 * n) = v + 2 ^ (8 * n)"
      using False assms p by (intro mod_pos_pos_trivial) auto
    then have "v mod 2 ^ (8 * n) = v + 2 ^ (8 * n)"
      by simp
    then show ?thesis using assms False p by (simp add: be_sint_def be_uint_be_bytes length_be_bytes)
  qed
qed


lemma map_of_serializers_long: "map_of serializers T_long = Some LongIO"
  by (simp add: serializers_eq)

lemma gt_LongIO: "graphbinary_type LongIO = Some DT_long"
  by (simp add: graphbinary_type_def handler_classes_def)

lemma dv_long: "DataType_value DT_long = 2"
  by (simp add: DataType_value_def DataType_members_def)

lemma LongIO_dictify_PyLong:
  "dictify LongIO (PyLong v) w as_value =
     (if v < - (2 ^ 63) \<or> 2 ^ 63 - 1 < v then Inl (Exception ''TODO: don't forget bigint'')
      else Inr ((if as_value then [] else [0x02]) @ [0x00] @ be_bytes 8 v))"
  by (simp add: dictify_def LongIO_dictify_def int_value_def byte_format_def struct_pack_q
      struct_pack_flag as_bytes_def write_as_value_def gt_LongIO dv_long ebind_def)

lemma writeObject_PyLong:
  "writeObject E (PyLong v) =
     (if v < - (2 ^ 63) \<or> 2 ^ 63 - 1 < v then Inl (Exception ''TODO: don't forget bigint'')
      else Inr (PyByteArray ([0x02, 0x00] @ be_bytes 8 v)))"
  by (simp add: writeObject_def toDict.simps [of E "PyLong v"] map_of_serializers_long
      LongIO_dictify_PyLong ebind_def)


subsection \<open>Encoding a long\<close>

text \<open>
  Claim C6. Encoding a long \<open>v\<close> raises the out-of-range exception of \<^verbatim>\<open>LongIO.dictify\<close>
  (\<^verbatim>\<open>Exception("TODO: don't forget bigint")\<close>) exactly when \<open>v\<close> is below \<open>-2^63\<close> or
  above \<open>2^63 - 1\<close>; inside that range the result is the type code 2, the flag 0 and eight
  bytes whose reading as a big-endian two's complement number is \<open>v\<close>.
\<close>

theorem long_encode_range:
  "(writeObject E (PyLong v) = Inl (Exception ''TODO: don't forget bigint'')
      \<longleftrightarrow> v < - (2 ^ 63) \<or> 2 ^ 63 - 1 < v)
   \<and> (- (2 ^ 63) \<le> v \<and> v \<le> 2 ^ 63 - 1 \<longrightarrow>
        writeObject E (PyLong v) = Inr (PyByteArray ([0x02, 0x00] @ be_bytes 8 v))
        \<and> length (be_bytes 8 v) = 8 \<and> be_sint (be_bytes 8 v) = v)"
proof (intro conjI impI)
  show "writeObject E (PyLong v) = Inl (Exception ''TODO: don't forget bigint'')
      \<longleftrightarrow> v < - (2 ^ 63) \<or> 2 ^ 63 - 1 < v"
    by (simp add: writeObject_PyLong)
next
  assume r: "- (2 ^ 63) \<le> v \<and> v \<le> 2 ^ 63 - 1"
  then show "writeObject E (PyLong v) = Inr (PyByteArray ([0x02, 0x00] @ be_bytes 8 v))"
    by (simp add: writeObject_PyLong)
  show "length (be_bytes 8 v) = 8"
    by (rule length_be_bytes)
  show "be_sint (be_bytes 8 v) = v"
    using r by (intro be_sint_be_bytes) simp_all
qed

theorem long_encode_range_witness:
  "writeObject example_env (PyLong (2 ^ 63)) = Inl (Exception ''TODO: don't forget bigint'')
   \<and> writeObject example_env (PyLong 258) = Inr (PyByteArray [2, 0, 0, 0, 0, 0, 0, 0, 1, 2])
   \<and> be_sint (be_bytes 8 258) = 258"
proof -
  have "be_bytes 8 258 = [0, 0, 0, 0, 0, 0, 1, 2]"
    by code_simp
  then show ?thesis
    using long_encode_range [of example_env "2 ^ 63"] long_encode_range [of example_env 258]
    by simp
qed

subsection \<open>Exact dispatch of the writer\<close>

lemma utf8_encode_error: "utf8_encode s = Inl e \<Longrightarrow> e = UnicodeEncodeError"
  by (induction s arbitrary: e) (auto split: option.splits sum.splits)

lemma struct_pack_error: "struct_pack fmt v = Inl e \<Longrightarrow> e = struct_error \<or> e = NotModelled"
  by (auto simp: struct_pack_def pack_int_def split: if_splits)

lemma string_as_bytes_error:
  "string_as_bytes s = Inl e \<Longrightarrow> e = struct_error \<or> e = UnicodeEncodeError"
  by (auto simp: string_as_bytes_def ebind_def struct_pack_def pack_int_def
      dest: utf8_encode_error split: sum.splits if_splits)

lemma toDict_exact:
  assumes "map_of serializers (type_of obj) = Some s"
    and "dictify s obj (toDict E) False \<noteq> Inl KeyError"
  shows "toDict E obj = ebind (dictify s obj (toDict E) False) (\<lambda>ba. Inr (PyByteArray ba))"
proof (cases "dictify s obj (toDict E) False")
  case (Inl e)
  then have "e \<noteq> KeyError" using assms(2) by simp
  then show ?thesis
    using Inl assms(1) by (subst toDict.simps) (cases e; simp add: ebind_def)
next
  case (Inr ba)
  then show ?thesis
    using assms(1) by (subst toDict.simps) (simp add: ebind_def)
qed

lemma unmangleKeyword_cases:
  "unmangleKeyword name =
     (if name \<in> set (map ustr_of
          [''global_'', ''as_'', ''in_'', ''and_'', ''or_'', ''is_'', ''not_'', ''from_'',
           ''set_'', ''list_'', ''all_'', ''with_'', ''filter_'', ''id_'', ''max_'', ''min_'',
           ''sum_''])
      then butlast name else name)"
  by (auto simp: unmangleKeyword_def symbolMap_def ustr_of_def)


subsection \<open>Encoding an enum token\<close>

lemma enum_handler:
  "\<exists>h d. map_of serializers (T_enum c) = Some h \<and> graphbinary_type h = Some d
      \<and> dictify h = EnumIO_dictify h"
  by (cases c) (simp_all add: serializers_eq graphbinary_type_def handler_classes_def dictify_def)

lemma EnumIO_dictify_eq:
  assumes "graphbinary_type h = Some d"
  shows "EnumIO_dictify h (EnumMember c name) w False =
     ebind (string_as_bytes (unmangleKeyword name)) (\<lambda>raw.
       Inr ([word_of_int (DataType_value d), 0x00] @ raw))"
  using assms
  by (simp add: EnumIO_dictify_def ext_str_def as_bytes_def write_as_value_def struct_pack_flag
      ebind_def split: sum.splits)

lemma utf8_encode_plain:
  "list_all (\<lambda>c. c < 0x80) s \<Longrightarrow> utf8_encode s = Inr (map of_nat s)"
  by (induction s) (simp_all add: utf8_encode_cp_def)

lemma word_of_int_div_numeral:
  "(word_of_int (int l div numeral k) :: byte) = of_nat (l div numeral k)"
proof -
  have "int l div numeral k = int (l div numeral k)"
    by (simp add: zdiv_int)
  then show ?thesis
    by (simp only: of_int_of_nat_eq)
qed

lemma be_bytes_4:
  "be_bytes 4 (int l) =
     [of_nat (l div 2 ^ 24), of_nat (l div 2 ^ 16), of_nat (l div 2 ^ 8), of_nat l]"
proof -
  have "be_bytes (Suc (Suc (Suc (Suc 0)))) (int l) =
     [of_nat (l div 2 ^ 24), of_nat (l div 2 ^ 16), of_nat (l div 2 ^ 8), of_nat l]"
    by (simp add: word_of_int_div_numeral)
  moreover have "(4 :: nat) = Suc (Suc (Suc (Suc 0)))"
    by simp
  ultimately show ?thesis
    by (simp only:)
qed

lemma string_as_bytes_ascii:
  assumes "\<forall>cp \<in> set s. cp < 0x80" and "length s < 2 ^ 31"
  shows "string_as_bytes s =
     Inr ([of_nat (length s div 2 ^ 24), of_nat (length s div 2 ^ 16),
           of_nat (length s div 2 ^ 8), of_nat (length s)] @ map of_nat s)"
proof -
  have "list_all (\<lambda>c. c < 0x80) s"
    using assms(1) by (simp add: list_all_iff)
  then have "utf8_encode s = Inr (map of_nat s)"
    by (rule utf8_encode_plain)
  moreover have "struct_pack ''>i'' (int (length s)) = Inr (be_bytes 4 (int (length s)))"
    using assms(2) by (simp add: struct_pack_def pack_int_def)
  ultimately show ?thesis
    by (simp only: string_as_bytes_def ebind_Inr be_bytes_4)
qed

lemma enum_code:
  "map_of serializers (T_enum c) = Some h \<Longrightarrow> graphbinary_type h = Some d \<Longrightarrow>
   (word_of_int (DataType_value d) :: byte) =
     (case c of Barrier \<Rightarrow> 0x13 | Cardinality \<Rightarrow> 0x16 | Column \<Rightarrow> 0x17 | Direction \<Rightarrow> 0x18
      | Operator \<Rightarrow> 0x19 | Order \<Rightarrow> 0x1A | Pick \<Rightarrow> 0x1B | Pop \<Rightarrow> 0x1C | Scope \<Rightarrow> 0x1F
      | T \<Rightarrow> 0x20)"
  by (cases c)
     (auto simp: serializers_eq graphbinary_type_def handler_classes_def DataType_value_def
        DataType_members_def)

text \<open>
  Claim C8. An enum member is written as the type code of its class, the flag 0 and its
  name as a raw string (\<^verbatim>\<open>string_as_bytes\<close>), the name being looked up in \<^verbatim>\<open>symbolMap\<close>
  first: the seventeen names with a trailing underscore lose it, every other name is
  written as it is. For a name of ASCII characters the bytes are the type code (13, 16, 17,
  18, 19, 1A, 1B, 1C, 1F, 20 by class), 00, the length of the unmangled name as four bytes,
  most significant first, and one byte per character of the unmangled name.
  \<^verbatim>\<open>Order.desc\<close> gives the bytes 1A 00 00 00 00 04 64 65 73 63.
\<close>

theorem enum_encode_unmangled:
  "(\<exists>h d. map_of serializers (T_enum c) = Some h \<and> graphbinary_type h = Some d
      \<and> writeObject E (EnumMember c name) =
          ebind (string_as_bytes (unmangleKeyword name)) (\<lambda>raw.
            Inr (PyByteArray ([word_of_int (DataType_value d), 0x00] @ raw))))
   \<and> ((\<forall>cp \<in> set (unmangleKeyword name). cp < 0x80) \<and> length (unmangleKeyword name) < 2 ^ 31 \<longrightarrow>
        writeObject E (EnumMember c name) =
          Inr (PyByteArray
            ([case c of Barrier \<Rightarrow> 0x13 | Cardinality \<Rightarrow> 0x16 | Column \<Rightarrow> 0x17
                | Direction \<Rightarrow> 0x18 | Operator \<Rightarrow> 0x19 | Order \<Rightarrow> 0x1A | Pick \<Rightarrow> 0x1B
                | Pop \<Rightarrow> 0x1C | Scope \<Rightarrow> 0x1F | T \<Rightarrow> 0x20,
              0x00,
              of_nat (length (unmangleKeyword name) div 2 ^ 24),
              of_nat (length (unmangleKeyword name) div 2 ^ 16),
              of_nat (length (unmangleKeyword name) div 2 ^ 8),
              of_nat (length (unmangleKeyword name))]
             @ map of_nat (unmangleKeyword name))))
   \<and> (name \<in> set (map ustr_of
          [''global_'', ''as_'', ''in_'', ''and_'', ''or_'', ''is_'', ''not_'', ''from_'',
           ''set_'', ''list_'', ''all_'', ''with_'', ''filter_'', ''id_'', ''max_'', ''min_'',
           ''sum_'']) \<longrightarrow> unmangleKeyword name = butlast name)
   \<and> (name \<notin> set (map ustr_of
          [''global_'', ''as_'', ''in_'', ''and_'', ''or_'', ''is_'', ''not_'', ''from_'',
           ''set_'', ''list_'', ''all_'', ''with_'', ''filter_'', ''id_'', ''max_'', ''min_'',
           ''sum_'']) \<longrightarrow> unmangleKeyword name = name)
   \<and> writeObject E (EnumMember Order (ustr_of ''desc'')) =
        Inr (PyByteArray [0x1A, 0x00, 0x00, 0x00, 0x00, 0x04, 0x64, 0x65, 0x73, 0x63])"
proof (intro conjI)
  have general: "\<exists>h d. map_of serializers (T_enum c') = Some h \<and> graphbinary_type h = Some d
      \<and> writeObject E (EnumMember c' name') =
          ebind (string_as_bytes (unmangleKeyword name')) (\<lambda>raw.
            Inr (PyByteArray ([word_of_int (DataType_value d), 0x00] @ raw)))" for c' name'
  proof -
    obtain h d where h: "map_of serializers (T_enum c') = Some h"
      and d: "graphbinary_type h = Some d" and e: "dictify h = EnumIO_dictify h"
      using enum_handler by blast
    have eq: "dictify h (EnumMember c' name') (toDict E) False =
        ebind (string_as_bytes (unmangleKeyword name')) (\<lambda>raw.
          Inr ([word_of_int (DataType_value d), 0x00] @ raw))"
      by (simp add: e EnumIO_dictify_eq [OF d])
    have "dictify h (EnumMember c' name') (toDict E) False \<noteq> Inl KeyError"
      unfolding eq by (auto simp: ebind_def dest: string_as_bytes_error split: sum.splits)
    then have "toDict E (EnumMember c' name') =
        ebind (dictify h (EnumMember c' name') (toDict E) False) (\<lambda>ba. Inr (PyByteArray ba))"
      using h by (intro toDict_exact) simp_all
    then show ?thesis
      using h d by (auto simp: writeObject_def eq ebind_def split: sum.splits)
  qed
  show "\<exists>h d. map_of serializers (T_enum c) = Some h \<and> graphbinary_type h = Some d
      \<and> writeObject E (EnumMember c name) =
          ebind (string_as_bytes (unmangleKeyword name)) (\<lambda>raw.
            Inr (PyByteArray ([word_of_int (DataType_value d), 0x00] @ raw)))"
    by (rule general)
  show "(\<forall>cp \<in> set (unmangleKeyword name). cp < 0x80) \<and> length (unmangleKeyword name) < 2 ^ 31 \<longrightarrow>
        writeObject E (EnumMember c name) =
          Inr (PyByteArray
            ([case c of Barrier \<Rightarrow> 0x13 | Cardinality \<Rightarrow> 0x16 | Column \<Rightarrow> 0x17
                | Direction \<Rightarrow> 0x18 | Operator \<Rightarrow> 0x19 | Order \<Rightarrow> 0x1A | Pick \<Rightarrow> 0x1B
                | Pop \<Rightarrow> 0x1C | Scope \<Rightarrow> 0x1F | T \<Rightarrow> 0x20,
              0x00,
              of_nat (length (unmangleKeyword name) div 2 ^ 24),
              of_nat (length (unmangleKeyword name) div 2 ^ 16),
              of_nat (length (unmangleKeyword name) div 2 ^ 8),
              of_nat (length (unmangleKeyword name))]
             @ map of_nat (unmangleKeyword name)))"
  proof
    assume a: "(\<forall>cp \<in> set (unmangleKeyword name). cp < 0x80) \<and> length (unmangleKeyword name) < 2 ^ 31"
    obtain h d where h: "map_of serializers (T_enum c) = Some h"
      and d: "graphbinary_type h = Some d"
      and w: "writeObject E (EnumMember c name) =
          ebind (string_as_bytes (unmangleKeyword name)) (\<lambda>raw.
            Inr (PyByteArray ([word_of_int (DataType_value d), 0x00] @ raw)))"
      using general [of c name] by blast
    have s: "string_as_bytes (unmangleKeyword name) =
       Inr ([of_nat (length (unmangleKeyword name) div 2 ^ 24),
             of_nat (length (unmangleKeyword name) div 2 ^ 16),
             of_nat (length (unmangleKeyword name) div 2 ^ 8),
             of_nat (length (unmangleKeyword name))] @ map of_nat (unmangleKeyword name))"
      using a by (intro string_as_bytes_ascii) simp_all
    show "writeObject E (EnumMember c name) =
          Inr (PyByteArray
            ([case c of Barrier \<Rightarrow> 0x13 | Cardinality \<Rightarrow> 0x16 | Column \<Rightarrow> 0x17
                | Direction \<Rightarrow> 0x18 | Operator \<Rightarrow> 0x19 | Order \<Rightarrow> 0x1A | Pick \<Rightarrow> 0x1B
                | Pop \<Rightarrow> 0x1C | Scope \<Rightarrow> 0x1F | T \<Rightarrow> 0x20,
              0x00,
              of_nat (length (unmangleKeyword name) div 2 ^ 24),
              of_nat (length (unmangleKeyword name) div 2 ^ 16),
              of_nat (length (unmangleKeyword name) div 2 ^ 8),
              of_nat (length (unmangleKeyword name))]
             @ map of_nat (unmangleKeyword name)))"
      unfolding w s ebind_Inr enum_code [OF h d] by simp
  qed
  show "name \<in> set (map ustr_of
          [''global_'', ''as_'', ''in_'', ''and_'', ''or_'', ''is_'', ''not_'', ''from_'',
           ''set_'', ''list_'', ''all_'', ''with_'', ''filter_'', ''id_'', ''max_'', ''min_'',
           ''sum_'']) \<longrightarrow> unmangleKeyword name = butlast name"
    by (metis unmangleKeyword_cases)
  show "name \<notin> set (map ustr_of
          [''global_'', ''as_'', ''in_'', ''and_'', ''or_'', ''is_'', ''not_'', ''from_'',
           ''set_'', ''list_'', ''all_'', ''with_'', ''filter_'', ''id_'', ''max_'', ''min_'',
           ''sum_'']) \<longrightarrow> unmangleKeyword name = name"
    by (metis unmangleKeyword_cases)
  have order: "map_of serializers (T_enum Order) = Some OrderIO"
    by (simp add: serializers_eq)
  have "string_as_bytes (unmangleKeyword (ustr_of ''desc'')) = Inr [0, 0, 0, 4, 0x64, 0x65, 0x73, 0x63]"
    by code_simp
  moreover have "DataType_value DT_order = 0x1A"
    by (simp add: DataType_value_def DataType_members_def)
  moreover have "graphbinary_type OrderIO = Some DT_order"
    by (simp add: graphbinary_type_def handler_classes_def)
  ultimately show "writeObject E (EnumMember Order (ustr_of ''desc'')) =
        Inr (PyByteArray [0x1A, 0x00, 0x00, 0x00, 0x00, 0x04, 0x64, 0x65, 0x73, 0x63])"
    using general [of Order "ustr_of ''desc''"] order by (auto simp: ebind_def)
qed

theorem enum_encode_unmangled_witness:
  "unmangleKeyword (ustr_of ''global_'') = ustr_of ''global''
   \<and> writeObject example_env (EnumMember Scope (ustr_of ''global_'')) =
        Inr (PyByteArray [0x1F, 0x00, 0x00, 0x00, 0x00, 0x06, 0x67, 0x6C, 0x6F, 0x62, 0x61, 0x6C])
   \<and> unmangleKeyword (ustr_of ''desc'') = ustr_of ''desc''
   \<and> writeObject example_env (EnumMember Order (ustr_of ''desc'')) =
        Inr (PyByteArray [0x1A, 0x00, 0x00, 0x00, 0x00, 0x04, 0x64, 0x65, 0x73, 0x63])"
proof -
  have a: "ustr_of ''global_'' \<in> set (map ustr_of
          [''global_'', ''as_'', ''in_'', ''and_'', ''or_'', ''is_'', ''not_'', ''from_'',
           ''set_'', ''list_'', ''all_'', ''with_'', ''filter_'', ''id_'', ''max_'', ''min_'',
           ''sum_''])"
    by simp
  have b: "ustr_of ''desc'' \<notin> set (map ustr_of
          [''global_'', ''as_'', ''in_'', ''and_'', ''or_'', ''is_'', ''not_'', ''from_'',
           ''set_'', ''list_'', ''all_'', ''with_'', ''filter_'', ''id_'', ''max_'', ''min_'',
           ''sum_''])"
    by (simp add: ustr_of_def)
  have c: "butlast (ustr_of ''global_'') = [0x67, 0x6C, 0x6F, 0x62, 0x61, 0x6C]"
    "ustr_of ''global'' = [0x67, 0x6C, 0x6F, 0x62, 0x61, 0x6C]"
    by (simp_all add: ustr_of_def)
  show ?thesis
    using enum_encode_unmangled [where E = example_env and c = Scope and name = "ustr_of ''global_''"]
      enum_encode_unmangled [where E = example_env and c = Order and name = "ustr_of ''desc''"] a b c
    by simp
qed

subsection \<open>\<^verbatim>\<open>readObject\<close> on a \<^verbatim>\<open>bytes\<close> object\<close>

text \<open>
  Claim C10. Given an immutable \<^verbatim>\<open>bytes\<close> object, whatever its content,
  \<^verbatim>\<open>readObject\<close> returns \<^verbatim>\<open>None\<close> and reads nothing: neither \<^verbatim>\<open>isinstance\<close> test of
  the method holds.
\<close>

theorem readObject_of_bytes_is_None:
  "readObject E (AnObject (PyBytes bs)) = Inr (PyNone, AnObject (PyBytes bs))"
  by (simp add: readObject_def)

theorem readObject_of_bytes_is_None_witness:
  "readObject example_env (AnObject (PyBytes [0x01, 0x00, 0x00, 0x00, 0x00, 0x01]))
     = Inr (PyNone, AnObject (PyBytes [0x01, 0x00, 0x00, 0x00, 0x00, 0x01]))
   \<and> readObject example_env (AnObject (PyByteArray [0x01, 0x00, 0x00, 0x00, 0x00, 0x01]))
     = Inr (PyInt 1, AnObject (PyByteArray [0x01, 0x00, 0x00, 0x00, 0x00, 0x01]))"
proof -
  have "readObject example_env (AnObject (PyByteArray [0x01, 0x00, 0x00, 0x00, 0x00, 0x01]))
     = Inr (PyInt 1, AnObject (PyByteArray [0x01, 0x00, 0x00, 0x00, 0x00, 0x01]))"
    by code_simp
  then show ?thesis
    using readObject_of_bytes_is_None [of example_env "[0x01, 0x00, 0x00, 0x00, 0x00, 0x01]"]
    by simp
qed

subsection \<open>The null value\<close>

lemma dv_null: "DataType_value DT_null = 0xfe"
  by (simp add: DataType_value_def DataType_members_def)

lemma read_Cons: "read 1 (b # bs) = ([b], bs)"
  by (simp add: read_def)


lemma toObject_unfold: "toObject n E = toObject_body E (case n of 0 \<Rightarrow> (\<lambda>b. Inl OutOfFuel) | Suc m \<Rightarrow> toObject m E)"
  by (cases n) simp_all

lemma toObject_null: "toObject n E (0xFE # rest) = Inr (PyNone, rest)"
  by (simp add: toObject_unfold [of n] toObject_body_def read_Cons dv_null)

lemma toDict_unregistered:
  assumes "map_of serializers (type_of obj) = None"
    and "\<forall>key s. (key, s) \<in> set serializers \<longrightarrow> \<not> isinstance obj key"
    and "\<not> isinstance obj T_dict \<and> \<not> isinstance obj T_set \<and> \<not> isinstance obj T_list"
  shows "toDict E obj = Inr obj"
proof -
  have "find (\<lambda>(key, serializer). isinstance obj key) serializers = None"
    using assms(2) by (auto simp: find_None_iff)
  then show ?thesis
    using assms(1,3) by (subst toDict.simps) (cases obj; simp add: isinstance_def)
qed

text \<open>
  Claim C3 says that \<^verbatim>\<open>writeObject(None)\<close> produces the single byte 0xFE. It does not:
  no handler is registered for \<^verbatim>\<open>NoneType\<close>, and the writer returns the value it was given.
\<close>

theorem null_encode_decode_counterexample:
  "writeObject example_env PyNone \<noteq> Inr (PyByteArray [0xFE])"
  by code_simp

text \<open>
  Claim C3, amended. \<^verbatim>\<open>writeObject(None)\<close> returns \<^verbatim>\<open>None\<close> itself and produces no byte.
  Reading a stream that starts with 0xFE returns \<^verbatim>\<open>None\<close> and consumes that one byte
  only, no flag byte: the rest of the stream is left as it was, with any fuel. For the
  one-byte \<^verbatim>\<open>bytearray\<close> FE, \<^verbatim>\<open>readObject\<close> returns \<^verbatim>\<open>None\<close>.
\<close>

theorem null_returned_unchanged_and_decoded:
  "writeObject E PyNone = Inr PyNone
   \<and> toObject n E (0xFE # rest) = Inr (PyNone, rest)
   \<and> readObject E (AnObject (PyByteArray [0xFE])) = Inr (PyNone, AnObject (PyByteArray [0xFE]))
   \<and> readObject E (BufferedReader (0xFE # rest)) = Inr (PyNone, BufferedReader rest)"
proof (intro conjI)
  show "writeObject E PyNone = Inr PyNone"
    unfolding writeObject_def
    by (rule toDict_unregistered) (auto simp: serializers_eq isinstance_def base_class_def)
  show "toObject n E (0xFE # rest) = Inr (PyNone, rest)"
    by (rule toObject_null)
  show "readObject E (AnObject (PyByteArray [0xFE])) = Inr (PyNone, AnObject (PyByteArray [0xFE]))"
    by (simp add: readObject_def toObject_null ebind_def del: toObject.simps)
  show "readObject E (BufferedReader (0xFE # rest)) = Inr (PyNone, BufferedReader rest)"
    by (simp add: readObject_def toObject_null ebind_def del: toObject.simps)
qed

theorem null_returned_unchanged_and_decoded_witness:
  "writeObject example_env PyNone = Inr PyNone
   \<and> readObject example_env (AnObject (PyByteArray [0xFE])) = Inr (PyNone, AnObject (PyByteArray [0xFE]))
   \<and> readObject example_env (BufferedReader [0xFE, 0x01, 0x07]) = Inr (PyNone, BufferedReader [0x01, 0x07])"
  using null_returned_unchanged_and_decoded [of example_env 0 "[0x01, 0x07]"]
  by simp

subsection \<open>Values without a handler\<close>

text \<open>
  Claim C4 says that the writer raises for a value that no handler takes. It does not:
  an object of an unregistered class has no exact match, is an instance of no registered
  class, is no \<^verbatim>\<open>dict\<close>, \<^verbatim>\<open>set\<close> or \<^verbatim>\<open>list\<close>, and \<^verbatim>\<open>writeObject\<close> returns it.
\<close>

theorem unregistered_value_counterexample:
  "map_of serializers (type_of (PyObject ''Foo'')) = None
   \<and> find (\<lambda>(key, s). isinstance (PyObject ''Foo'') key) serializers = None
   \<and> \<not> isinstance (PyObject ''Foo'') T_dict \<and> \<not> isinstance (PyObject ''Foo'') T_set
   \<and> \<not> isinstance (PyObject ''Foo'') T_list
   \<and> writeObject example_env (PyObject ''Foo'') = Inr (PyObject ''Foo'')"
  by (simp add: serializers_eq isinstance_def base_class_def writeObject_def
      toDict.simps [of example_env "PyObject ''Foo''"])

text \<open>
  Claim C4, amended. For every value whose class has no entry in the registry, which is
  an instance of no registered class, and which is no \<^verbatim>\<open>dict\<close>, \<^verbatim>\<open>set\<close> or \<^verbatim>\<open>list\<close>,
  \<^verbatim>\<open>writeObject\<close> raises nothing and returns the value itself, unchanged (the final
  \<^verbatim>\<open>else: return obj\<close> of \<^verbatim>\<open>toDict\<close>).
\<close>

theorem unregistered_value_returned:
  assumes "map_of serializers (type_of obj) = None"
    and "\<forall>key s. (key, s) \<in> set serializers \<longrightarrow> \<not> isinstance obj key"
    and "\<not> isinstance obj T_dict \<and> \<not> isinstance obj T_set \<and> \<not> isinstance obj T_list"
  shows "writeObject E obj = Inr obj"
  unfolding writeObject_def using assms by (rule toDict_unregistered)

theorem unregistered_value_returned_witness:
  "map_of serializers (type_of (PyByteArray [0x01])) = None
   \<and> (\<forall>key s. \<not> ((key, s) \<in> set serializers \<and> isinstance (PyByteArray [0x01]) key))
   \<and> writeObject example_env (PyByteArray [0x01]) = Inr (PyByteArray [0x01])"
proof -
  have a: "map_of serializers (type_of (PyByteArray [0x01])) = None"
    by (simp add: serializers_eq)
  have b: "\<forall>key s. (key, s) \<in> set serializers \<longrightarrow> \<not> isinstance (PyByteArray [0x01]) key"
    by (auto simp: serializers_eq isinstance_def base_class_def)
  have c: "\<not> isinstance (PyByteArray [0x01]) T_dict \<and> \<not> isinstance (PyByteArray [0x01]) T_set
      \<and> \<not> isinstance (PyByteArray [0x01]) T_list"
    by (simp add: isinstance_def base_class_def)
  show ?thesis
    using unregistered_value_returned [OF a b c, of example_env] a b by blast
qed

subsection \<open>The predicates \<^verbatim>\<open>P\<close> and \<^verbatim>\<open>TextP\<close>\<close>

lemma extend_all_Inl: "foldl (\<lambda>r a. ebind r (\<lambda>ba. extend ba a)) (Inl e) as = Inl e"
  by (induction as) (simp_all add: ebind_Inl)

lemma extend_prefix: "extend (p @ x) a = ebind (extend x a) (\<lambda>bs. Inr (p @ bs))"
  by (cases a) (simp_all add: extend_def ebind_def)

lemma extend_all_prefix:
  "foldl (\<lambda>r a. ebind r (\<lambda>ba. extend ba a)) (Inr (p @ x)) as =
     ebind (foldl (\<lambda>r a. ebind r (\<lambda>ba. extend ba a)) (Inr x) as) (\<lambda>bs. Inr (p @ bs))"
proof (induction as arbitrary: x)
  case Nil
  show ?case by (simp add: ebind_Inr)
next
  case (Cons a as)
  show ?case
  proof (cases "extend x a")
    case (Inl e)
    then show ?thesis by (simp add: extend_prefix ebind_Inl ebind_Inr extend_all_Inl)
  next
    case (Inr y)
    then show ?thesis using Cons [of y] by (simp add: extend_prefix ebind_Inl ebind_Inr)
  qed
qed

lemma predicate_bytes_prefix:
  "predicate_bytes cls operator val other w False =
     ebind (predicate_bytes cls operator val other w True) (\<lambda>bs.
       Inr ((case graphbinary_type cls of Some t \<Rightarrow> [word_of_int (DataType_value t)] | None \<Rightarrow> [])
            @ bs))"
proof -
  let ?F = "\<lambda>r a. ebind r (\<lambda>ba. extend ba a)"
  let ?code = "case graphbinary_type cls of Some t \<Rightarrow> [word_of_int (DataType_value t)] | None \<Rightarrow> []"
  have tail: "ebind m (\<lambda>additional. ebind (k additional) (\<lambda>n. foldl ?F (Inr ((?code @ raw) @ n)) additional))
      = ebind (ebind m (\<lambda>additional. ebind (k additional) (\<lambda>n. foldl ?F (Inr (([] @ raw) @ n)) additional)))
          (\<lambda>bs. Inr (?code @ bs))" for m :: "error + pyobj list" and k raw
  proof (cases m)
    case (Inl e)
    then show ?thesis by (simp add: ebind_Inl)
  next
    case (Inr additional)
    show ?thesis
      by (cases "k additional")
         (simp_all add: Inr ebind_Inl ebind_Inr extend_all_prefix [of ?code] del: foldl_Cons)
  qed
  show ?thesis
    by (cases "string_as_bytes operator")
       (simp_all add: predicate_bytes_def ext_str_def ebind_Inl ebind_Inr tail Let_def
          del: foldl_Cons append_assoc append_Nil)
qed

lemma predicate_bytes_operator:
  assumes "predicate_bytes cls operator val other w True = Inr bs"
  shows "\<exists>raw rest. string_as_bytes operator = Inr raw \<and> bs = raw @ rest"
proof -
  let ?F = "\<lambda>r a. ebind r (\<lambda>ba. extend ba a)"
  obtain raw where raw: "string_as_bytes operator = Inr raw"
    using assms
    by (cases "string_as_bytes operator")
       (simp_all add: predicate_bytes_def ext_str_def ebind_Inl)
  obtain additional n where "foldl ?F (Inr (raw @ n)) additional = Inr bs"
    using assms raw
    by (simp add: predicate_bytes_def ext_str_def ebind_Inr del: foldl_Cons)
       (auto simp: ebind_def split: sum.splits simp del: foldl_Cons)
  then obtain rest where "bs = raw @ rest"
    unfolding extend_all_prefix [of raw n additional]
    by (cases "foldl ?F (Inr n) additional") (auto simp: ebind_Inl ebind_Inr)
  then show ?thesis
    using raw by blast
qed

lemma gt_PIO: "graphbinary_type PIO = Some DT_p" "graphbinary_type TextPIO = Some DT_textp"
  by (simp_all add: graphbinary_type_def handler_classes_def)

lemma dv_p: "DataType_value DT_p = 0x1e" "DataType_value DT_textp = 0x28"
  by (simp_all add: DataType_value_def DataType_members_def)

text \<open>
  Claim C5 says that \<^verbatim>\<open>P\<close> and \<^verbatim>\<open>TextP\<close> are written with their type code even when
  \<^verbatim>\<open>as_value\<close> is true. They are not: for \<^verbatim>\<open>P.eq(1)\<close> the value-only output starts with
  the length of the operator name, 00 00 00 02, not with 1e (nor, for \<^verbatim>\<open>TextP\<close>, with 28).
\<close>

theorem predicate_as_value_counterexample:
  "dictify PIO (P (ustr_of ''eq'') (PyInt 1) PyNone) (writeObject example_env) True =
     Inr [0x00, 0x00, 0x00, 0x02, 0x65, 0x71, 0x00, 0x00, 0x00, 0x01,
          0x01, 0x00, 0x00, 0x00, 0x00, 0x01]
   \<and> dictify TextPIO (TextP (ustr_of ''eq'') (PyInt 1) PyNone) (writeObject example_env) True =
     Inr [0x00, 0x00, 0x00, 0x02, 0x65, 0x71, 0x00, 0x00, 0x00, 0x01,
          0x01, 0x00, 0x00, 0x00, 0x00, 0x01]"
  by code_simp

text \<open>
  Claim C5, amended. \<^verbatim>\<open>PIO.dictify\<close> and \<^verbatim>\<open>TextPIO.dictify\<close> write the type code (1e
  for \<^verbatim>\<open>P\<close>, 28 for \<^verbatim>\<open>TextP\<close>) exactly when \<^verbatim>\<open>as_value\<close> is false: the output for
  \<^verbatim>\<open>as_value\<close> false is the type code followed by the output for \<^verbatim>\<open>as_value\<close> true (and
  fails as that one fails), and the output for \<^verbatim>\<open>as_value\<close> true starts with the raw
  string of the operator, with neither type code nor flag before it.
\<close>

theorem predicate_type_code_unless_as_value:
  "dictify PIO (P operator val other) w False =
     ebind (dictify PIO (P operator val other) w True) (\<lambda>bs. Inr (0x1e # bs))
   \<and> dictify TextPIO (TextP operator val other) w False =
     ebind (dictify TextPIO (TextP operator val other) w True) (\<lambda>bs. Inr (0x28 # bs))
   \<and> (\<forall>bs. dictify PIO (P operator val other) w True = Inr bs \<longrightarrow>
         (\<exists>raw rest. string_as_bytes operator = Inr raw \<and> bs = raw @ rest))
   \<and> (\<forall>bs. dictify TextPIO (TextP operator val other) w True = Inr bs \<longrightarrow>
         (\<exists>raw rest. string_as_bytes operator = Inr raw \<and> bs = raw @ rest))"
proof (intro conjI allI impI)
  show "dictify PIO (P operator val other) w False =
     ebind (dictify PIO (P operator val other) w True) (\<lambda>bs. Inr (0x1e # bs))"
    by (simp add: dictify_def PIO_dictify_def predicate_bytes_prefix [of PIO] gt_PIO dv_p)
  show "dictify TextPIO (TextP operator val other) w False =
     ebind (dictify TextPIO (TextP operator val other) w True) (\<lambda>bs. Inr (0x28 # bs))"
    by (simp add: dictify_def TextPIO_dictify_def predicate_bytes_prefix [of TextPIO] gt_PIO dv_p)
next
  fix bs
  assume "dictify PIO (P operator val other) w True = Inr bs"
  then show "\<exists>raw rest. string_as_bytes operator = Inr raw \<and> bs = raw @ rest"
    by (intro predicate_bytes_operator [of PIO _ val other w]) (simp add: dictify_def PIO_dictify_def)
next
  fix bs
  assume "dictify TextPIO (TextP operator val other) w True = Inr bs"
  then show "\<exists>raw rest. string_as_bytes operator = Inr raw \<and> bs = raw @ rest"
    by (intro predicate_bytes_operator [of TextPIO _ val other w]) (simp add: dictify_def TextPIO_dictify_def)
qed

theorem predicate_type_code_unless_as_value_witness:
  "dictify PIO (P (ustr_of ''eq'') (PyInt 1) PyNone) (writeObject example_env) True =
     Inr [0x00, 0x00, 0x00, 0x02, 0x65, 0x71, 0x00, 0x00, 0x00, 0x01,
          0x01, 0x00, 0x00, 0x00, 0x00, 0x01]
   \<and> dictify PIO (P (ustr_of ''eq'') (PyInt 1) PyNone) (writeObject example_env) False =
     Inr [0x1e, 0x00, 0x00, 0x00, 0x02, 0x65, 0x71, 0x00, 0x00, 0x00, 0x01,
          0x01, 0x00, 0x00, 0x00, 0x00, 0x01]
   \<and> string_as_bytes (ustr_of ''eq'') = Inr [0x00, 0x00, 0x00, 0x02, 0x65, 0x71]"
proof -
  have t: "dictify PIO (P (ustr_of ''eq'') (PyInt 1) PyNone) (writeObject example_env) True =
     Inr [0x00, 0x00, 0x00, 0x02, 0x65, 0x71, 0x00, 0x00, 0x00, 0x01,
          0x01, 0x00, 0x00, 0x00, 0x00, 0x01]"
    by code_simp
  have s: "string_as_bytes (ustr_of ''eq'') = Inr [0x00, 0x00, 0x00, 0x02, 0x65, 0x71]"
    by code_simp
  show ?thesis
    using predicate_type_code_unless_as_value
      [of "ustr_of ''eq''" "PyInt 1" PyNone "writeObject example_env"] t s
    by (simp add: ebind_def)
qed

subsection \<open>The value flag\<close>




lemma toObject_body_code:
  "map_of deserializers d = Some h \<Longrightarrow>
   toObject_body E r (word_of_int (DataType_value d) # buff) = objectify E h buff r"
  by (cases d)
     (simp_all add: deserializers_eq DataType_value_def DataType_members_def toObject_body_def
        read_Cons struct_unpack_def calcsize_def be_sint_def DataType_of_def ebind_def)


























subsection \<open>The length prefix of a string\<close>

text \<open>
  Claim C2 wants the length prefix of a string to be the number of its UTF-8 bytes. The
  code writes \<^verbatim>\<open>len(s)\<close>, the number of code points: for the one-character string U+00E9,
  whose UTF-8 form has the two bytes C3 A9, the prefix is 1, in \<^verbatim>\<open>string_as_bytes\<close> and
  in \<^verbatim>\<open>StringIO.dictify\<close> alike.
\<close>

theorem string_length_prefix_counts_code_points:
  "utf8_encode [0xE9] = Inr [0xC3, 0xA9]
   \<and> string_as_bytes [0xE9] = Inr [0x00, 0x00, 0x00, 0x01, 0xC3, 0xA9]
   \<and> writeObject example_env (PyStr [0xE9]) =
       Inr (PyByteArray [0x03, 0x00, 0x00, 0x00, 0x00, 0x01, 0xC3, 0xA9])"
  by code_simp

subsection \<open>Round trip\<close>

text \<open>
  Claim C1 wants \<^verbatim>\<open>readObject(writeObject(v)) == v\<close>. For the string of the two
  characters U+00E9 and U+0061 the writer gives the length 2 and the three bytes C3 A9 61;
  the reader takes the length as a number of bytes, reads C3 A9 and returns the
  one-character string U+00E9. For the string U+00E9 alone the reader is left with the
  single byte C3 and raises \<^verbatim>\<open>UnicodeDecodeError\<close>.
\<close>

theorem round_trip_fails_on_non_ascii_string:
  "writeObject example_env (PyStr [0xE9, 0x61]) =
     Inr (PyByteArray [0x03, 0x00, 0x00, 0x00, 0x00, 0x02, 0xC3, 0xA9, 0x61])
   \<and> readObject example_env
       (AnObject (PyByteArray [0x03, 0x00, 0x00, 0x00, 0x00, 0x02, 0xC3, 0xA9, 0x61])) =
     Inr (PyStr [0xE9],
          AnObject (PyByteArray [0x03, 0x00, 0x00, 0x00, 0x00, 0x02, 0xC3, 0xA9, 0x61]))
   \<and> readObject example_env
       (AnObject (PyByteArray [0x03, 0x00, 0x00, 0x00, 0x00, 0x01, 0xC3, 0xA9])) =
     Inl UnicodeDecodeError"
  by code_simp

subsection \<open>Bulk sets\<close>

text \<open>
  Claim C9 wants the bulk of a bulk-set entry read as a signed 64-bit number. The code
  reads it with \<^verbatim>\<open>read_int\<close>, four bytes: for one entry, the int 7 with the eight-byte
  bulk 2, it takes the first four bytes as the bulk 0, returns the empty list and leaves
  the last four bytes unread. With a four-byte bulk 2 the same entry gives the list 7, 7.
\<close>

theorem bulkset_bulk_read_as_int32:
  "readObject example_env
     (BufferedReader [0x2a, 0x00, 0x00, 0x00, 0x00, 0x01,
                      0x01, 0x00, 0x00, 0x00, 0x00, 0x07,
                      0x00, 0x00, 0x00, 0x00, 0x00, 0x00, 0x00, 0x02]) =
     Inr (PyList [], BufferedReader [0x00, 0x00, 0x00, 0x02])
   \<and> readObject example_env
     (BufferedReader [0x2a, 0x00, 0x00, 0x00, 0x00, 0x01,
                      0x01, 0x00, 0x00, 0x00, 0x00, 0x07,
                      0x00, 0x00, 0x00, 0x02]) =
     Inr (PyList [PyInt 7, PyInt 7], BufferedReader [])"
  by code_simp

subsection \<open>The fuel of the reader\<close>

text \<open>
  A reader is \<open>good\<close> up to \<open>m\<close> when, on every stream shorter than \<open>m\<close>, it does not run
  out of fuel and returns a stream that is not longer than the one it was given. Every
  handler keeps that property, one byte further; so \<open>toObject\<close> with fuel \<open>n\<close> never runs
  out of fuel on a stream of at most \<open>n + 1\<close> bytes, and \<open>readObject\<close>, which gives the length
  of its input as fuel, never does.
\<close>

definition good :: "nat \<Rightarrow> (stream \<Rightarrow> error + 'a \<times> stream) \<Rightarrow> bool" where
  "good m f \<longleftrightarrow>
     (\<forall>b. length b < m \<longrightarrow>
        f b \<noteq> Inl OutOfFuel \<and> (\<forall>x b'. f b = Inr (x, b') \<longrightarrow> length b' \<le> length b))"

lemma good_bind:
  assumes "good m f" and "\<And>x. good m (g x)"
  shows "good m (\<lambda>b. ebind (f b) (\<lambda>(x, b'). g x b'))"
  unfolding good_def
proof (intro allI impI)
  fix b :: stream
  assume b: "length b < m"
  show "ebind (f b) (\<lambda>(x, b'). g x b') \<noteq> Inl OutOfFuel \<and>
        (\<forall>x b'. ebind (f b) (\<lambda>(x, b'). g x b') = Inr (x, b') \<longrightarrow> length b' \<le> length b)"
  proof (cases "f b")
    case (Inl e)
    then show ?thesis using assms(1) b by (auto simp: good_def ebind_Inl)
  next
    case (Inr p)
    obtain x b1 where p: "p = (x, b1)" by (cases p)
    have b1: "length b1 \<le> length b" using assms(1) b Inr p by (auto simp: good_def)
    then have "length b1 < m" using b by simp
    then have "g x b1 \<noteq> Inl OutOfFuel"
      and "\<And>y b'. g x b1 = Inr (y, b') \<Longrightarrow> length b' \<le> length b1"
      using assms(2) [of x] by (auto simp: good_def)
    then show ?thesis using Inr p b1 by (fastforce simp: ebind_Inr)
  qed
qed

lemma good_mono: "good m f \<Longrightarrow> k \<le> m \<Longrightarrow> good k f"
  by (auto simp: good_def)

lemma length_read: "length (snd (read k b)) \<le> length b"
  by (simp add: read_def)

lemma good_ret: "good m (\<lambda>b. Inr (c, snd (read k b)))" "good m (\<lambda>b. Inr (c, b))"
  by (simp_all add: good_def length_read)

lemma good_Inl: "e \<noteq> OutOfFuel \<Longrightarrow> good m (\<lambda>b. Inl e)"
  by (simp add: good_def)

lemma struct_unpack_fuel: "struct_unpack fmt bs \<noteq> Inl OutOfFuel"
  by (simp add: struct_unpack_def)

lemma utf8_decode_fuel: "utf8_decode bs \<noteq> Inl OutOfFuel"
proof (induction bs rule: utf8_decode.induct)
  case (1 bs)
  show ?case
    using 1 by (subst utf8_decode.simps) (auto split: option.splits sum.splits)
qed

lemma good_unpack:
  "good m (\<lambda>b. case read k b of (bs, rest) \<Rightarrow> ebind (struct_unpack fmt bs) (\<lambda>v. Inr (c v, rest)))"
  using struct_unpack_fuel [of fmt]
  by (auto simp: good_def read_def ebind_def split: sum.splits prod.splits)

lemma good_read_int: "good m read_int"
  using good_unpack [where m = m and k = 4 and fmt = "''>i''" and c = "\<lambda>v. v"]
  by (simp add: read_int_def [abs_def])

lemma good_decode:
  "good m (\<lambda>b. case read k b of (bs, rest) \<Rightarrow> ebind (utf8_decode bs) (\<lambda>s. Inr (c s, rest)))"
  using utf8_decode_fuel
  by (auto simp: good_def read_def ebind_def split: sum.splits prod.splits)

lemma good_read_string: "good m read_string"
  unfolding read_string_def [abs_def]
  by (intro good_bind good_read_int good_decode)

lemma good_read_objects: "good m r \<Longrightarrow> good m (read_objects r n the_list)"
proof (induction n arbitrary: the_list)
  case 0
  show ?case by (simp add: good_ret)
next
  case (Suc n)
  show ?case
    unfolding read_objects.simps
    by (intro good_bind Suc)
qed


lemma dict_setitem_fuel: "dict_setitem E d k v \<noteq> Inl OutOfFuel"
  by (simp add: dict_setitem_def)

lemma set_of_list_fuel: "set_of_list E s xs \<noteq> Inl OutOfFuel"
  by (induction xs arbitrary: s) (auto simp: set_add_def ebind_def split: sum.splits)

lemma good_read_items: "good m r \<Longrightarrow> good m (read_items E r n the_dict)"
proof (induction n arbitrary: the_dict)
  case 0
  show ?case by (simp add: good_ret)
next
  case (Suc n)
  have step: "good m (\<lambda>b. ebind (dict_setitem E the_dict k v) (\<lambda>d. read_items E r n d b))" for k v
    using Suc.IH [OF Suc.prems] dict_setitem_fuel [of E the_dict k v]
    by (cases "dict_setitem E the_dict k v") (auto simp: good_def ebind_def)
  show ?case
    unfolding read_items.simps
    by (intro good_bind Suc.prems step)
qed

lemma good_read_insts: "good m r \<Longrightarrow> good m (read_insts r n insts)"
proof (induction n arbitrary: insts)
  case 0
  show ?case by (simp add: good_ret)
next
  case (Suc n)
  show ?case
    unfolding read_insts.simps
    by (intro good_bind good_read_string good_read_int good_read_objects Suc)
qed

lemma good_read_bulks: "good m r \<Longrightarrow> good m (read_bulks r n the_list)"
proof (induction n arbitrary: the_list)
  case 0
  show ?case by (simp add: good_ret)
next
  case (Suc n)
  show ?case
    unfolding read_bulks.simps
    by (intro good_bind good_read_int Suc)
qed

lemma good_is_null:
  assumes "good m f"
  shows "good (Suc m) (\<lambda>buff. is_null buff f)"
  unfolding good_def
proof (intro allI impI)
  fix b :: stream
  assume b: "length b < Suc m"
  show "is_null b f \<noteq> Inl OutOfFuel \<and>
        (\<forall>x b'. is_null b f = Inr (x, b') \<longrightarrow> length b' \<le> length b)"
  proof (cases b)
    case Nil
    then show ?thesis by (simp add: is_null_def read_def)
  next
    case (Cons flag rest)
    then have "length rest < m" using b by simp
    then have "f rest \<noteq> Inl OutOfFuel"
      and "\<And>x b'. f rest = Inr (x, b') \<Longrightarrow> length b' \<le> length rest"
      using assms by (auto simp: good_def)
    then show ?thesis
      using Cons by (cases "uint flag = 1") (auto simp: is_null_def read_def le_SucI)
  qed
qed

lemma good_objectify:
  assumes r: "good m r"
  shows "good (Suc m) (\<lambda>buff. objectify E h buff r)"
proof -
  have unpack: "good (Suc m) (\<lambda>buff. is_null buff (\<lambda>b. case read k b of (bs, rest) \<Rightarrow>
      ebind (struct_unpack fmt bs) (\<lambda>v. Inr (c v, rest))))" for k fmt c
    by (intro good_is_null good_unpack)
  have int: "good (Suc m) (\<lambda>buff. IntIO_objectify cls buff r)" for cls
    unfolding IntIO_objectify_def by (intro good_is_null good_bind good_read_int good_ret)
  have unm: "good (Suc m) (\<lambda>buff. unmodelled_objectify cls buff r)" for cls
    unfolding unmodelled_objectify_def by (intro good_is_null good_Inl) simp
  have str: "good (Suc m) (\<lambda>buff. StringIO_objectify cls buff r)" for cls
    unfolding StringIO_objectify_def by (intro good_is_null good_bind good_read_int good_decode)
  have lst: "good (Suc m) (\<lambda>buff. ListIO_objectify h' buff r)" for h'
    unfolding ListIO_objectify_def read_list_def
    by (intro good_is_null good_bind good_read_int good_read_objects good_ret r)
  have post: "good (Suc m) (\<lambda>rest. case v of
       PyList xs \<Rightarrow> ebind (set_of_list E [] xs) (\<lambda>s. Inr (PySet s, rest))
     | _ \<Rightarrow> Inl TypeError)" for v
    using set_of_list_fuel [of E "[]"]
    by (cases v) (auto simp: good_def ebind_def split: sum.splits)
  have st: "good (Suc m) (\<lambda>buff. SetIO_objectify E cls buff r)" for cls
    unfolding SetIO_objectify_def by (intro good_bind lst post)
  have mp: "good (Suc m) (\<lambda>buff. MapIO_objectify E cls buff r)" for cls
    unfolding MapIO_objectify_def read_map_def
    by (intro good_is_null good_bind good_read_int good_read_items good_ret r)
  have uu: "good (Suc m) (\<lambda>buff. UuidIO_objectify cls buff r)" for cls
    unfolding UuidIO_objectify_def
    by (intro good_is_null) (auto simp: good_def read_def)
  have ed: "good (Suc m) (\<lambda>buff. EdgeIO_objectify cls buff r)" for cls
    unfolding EdgeIO_objectify_def read_edge_def
    by (intro good_is_null good_bind good_read_string good_ret r)
  have pa: "good (Suc m) (\<lambda>buff. PathIO_objectify cls buff r)" for cls
    unfolding PathIO_objectify_def
    by (intro good_is_null good_bind good_ret r)
  have pr: "good (Suc m) (\<lambda>buff. PropertyIO_objectify cls buff r)" for cls
    unfolding PropertyIO_objectify_def read_property_def
    by (intro good_is_null good_bind good_read_string good_ret r)
  have ve: "good (Suc m) (\<lambda>buff. VertexIO_objectify cls buff r)" for cls
    unfolding VertexIO_objectify_def read_vertex_def
    by (intro good_is_null good_bind good_read_string good_ret r)
  have skip2: "good m (\<lambda>b. Inr (c, snd (read 1 (snd (read 1 b)))))" for c :: pyobj
    by (simp add: good_def read_def)
  have vp: "good (Suc m) (\<lambda>buff. VertexPropertyIO_objectify cls buff r)" for cls
    unfolding VertexPropertyIO_objectify_def read_vertexproperty_def
    by (intro good_is_null good_bind good_read_string skip2 r)
  have enum_post: "good m (\<lambda>b. case enum_of cls of None \<Rightarrow> Inl TypeError
      | Some c \<Rightarrow> if name \<in> set (members E c) then Inr (EnumMember c name, b) else Inl KeyError)"
    for name cls
    by (auto simp: good_def split: option.splits)
  have en: "good (Suc m) (\<lambda>buff. EnumIO_objectify E cls buff r)" for cls
    unfolding EnumIO_objectify_def
    by (intro good_is_null good_bind good_read_string enum_post)
  have bi: "good (Suc m) (\<lambda>buff. BindingIO_objectify cls buff r)" for cls
    unfolding BindingIO_objectify_def
    by (intro good_is_null good_bind good_read_string good_ret r)
  have bc: "good (Suc m) (\<lambda>buff. BytecodeIO_objectify cls buff r)" for cls
    unfolding BytecodeIO_objectify_def read_bytecode_def
    by (intro good_is_null good_bind good_read_int good_read_insts good_ret r)
  have tr_post: "good m (\<lambda>b. ebind (struct_unpack ''>q'' bs) (\<lambda>bulk.
      ebind (r b) (\<lambda>(ob, b). Inr (Traverser ob bulk, b))))" for bs
  proof (cases "struct_unpack ''>q'' bs")
    case (Inl e)
    then show ?thesis using struct_unpack_fuel [of "''>q''" bs] by (simp add: good_def ebind_Inl)
  next
    case (Inr bulk)
    show ?thesis unfolding Inr ebind_Inr by (intro good_bind good_ret r)
  qed
  have tr_read: "good m (read_traverser r)"
    unfolding good_def
  proof (intro allI impI)
    fix b :: stream
    assume b: "length b < m"
    obtain bs rest where rd: "read 8 b = (bs, rest)" by (cases "read 8 b")
    then have "length rest \<le> length b" using length_read [of 8 b] by simp
    then have "length rest < m" using b by simp
    then show "read_traverser r b \<noteq> Inl OutOfFuel \<and>
        (\<forall>x b'. read_traverser r b = Inr (x, b') \<longrightarrow> length b' \<le> length b)"
      using tr_post [of bs] \<open>length rest \<le> length b\<close>
      by (fastforce simp: good_def read_traverser_def rd)
  qed
  have tr: "good (Suc m) (\<lambda>buff. TraverserIO_objectify cls buff r)" for cls
    unfolding TraverserIO_objectify_def by (intro good_is_null tr_read)
  have bb_post: "good m (\<lambda>b. case read sz b of (bs, rest) \<Rightarrow> Inr (PyBytes bs, rest))" for sz
    by (auto simp: good_def read_def)
  have bb: "good (Suc m) (\<lambda>buff. ByteBufferIO_objectify cls buff r)" for cls
    unfolding ByteBufferIO_objectify_def read_bytebuffer_def
    by (intro good_is_null good_bind good_read_int bb_post)
  have bs: "good (Suc m) (\<lambda>buff. BulkSetIO_objectify cls buff r)" for cls
    unfolding BulkSetIO_objectify_def read_bulkset_def
    by (intro good_is_null good_bind good_read_int good_read_bulks good_ret r)
  have ni: "good (Suc m) (\<lambda>buff. (Inl TypeError :: error + pyobj \<times> stream))"
    by (simp add: good_def)
  have tg: "good (Suc m) (\<lambda>buff. TinkerGraphIO_objectify cls buff r)" for cls
    by (simp add: good_def TinkerGraphIO_objectify_def)
  show ?thesis
    by (cases h)
       (simp_all add: objectify_def LongIO_objectify_def ByteIO_objectify_def
          BooleanIO_objectify_def unpack int unm str lst st mp uu ed pa pr ve vp en bi bc tr bb
          bs ni tg)
qed

lemma good_toObject_body:
  assumes "good m r"
  shows "good (Suc (Suc m)) (toObject_body E r)"
  unfolding good_def
proof (intro allI impI)
  fix b :: stream
  assume b: "length b < Suc (Suc m)"
  show "toObject_body E r b \<noteq> Inl OutOfFuel \<and>
        (\<forall>x b'. toObject_body E r b = Inr (x, b') \<longrightarrow> length b' \<le> length b)"
  proof (cases b)
    case Nil
    then show ?thesis by (simp add: toObject_body_def read_def)
  next
    case (Cons b0 rest)
    then have rest: "length rest < Suc m" using b by simp
    have h: "objectify E h rest r \<noteq> Inl OutOfFuel
        \<and> (\<forall>x b'. objectify E h rest r = Inr (x, b') \<longrightarrow> length b' \<le> length rest)" for h
      using good_objectify [OF assms, of E h] rest by (simp add: good_def)
    have "struct_unpack ''>b'' [b0] \<noteq> Inl OutOfFuel"
      by (rule struct_unpack_fuel)
    moreover have "DataType_of v \<noteq> Inl OutOfFuel" for v
      by (simp add: DataType_of_def split: option.splits)
    ultimately show ?thesis
      using h Cons
      by (auto simp: toObject_body_def read_Cons ebind_def split: sum.splits option.splits)
         (meson le_Suc_eq)+
  qed
qed

lemma good_toObject: "good (Suc (Suc n)) (toObject n E)"
proof (induction n)
  case 0
  have "good 0 (\<lambda>b. (Inl OutOfFuel :: error + pyobj \<times> stream))"
    by (simp add: good_def)
  then show ?case
    by (simp add: good_toObject_body)
next
  case (Suc n)
  have "good (Suc n) (toObject n E)"
    using Suc by (rule good_mono) simp
  then show ?case
    by (simp add: good_toObject_body)
qed

lemma toObject_enough_fuel: "length buff \<le> Suc n \<Longrightarrow> toObject n E buff \<noteq> Inl OutOfFuel"
  using good_toObject [of n E] by (simp add: good_def)

lemma toObject_consumes:
  "toObject n E buff = Inr (v, rest) \<Longrightarrow> length buff \<le> Suc n \<Longrightarrow> length rest \<le> length buff"
  using good_toObject [of n E] by (simp add: good_def)

lemma readObject_never_OutOfFuel: "readObject E b \<noteq> Inl OutOfFuel"
proof (cases b)
  case (AnObject obj)
  show ?thesis
    using toObject_enough_fuel [of _ _ E]
    by (cases obj) (auto simp: AnObject readObject_def ebind_def split: sum.splits)
next
  case (BufferedReader s)
  show ?thesis
    using toObject_enough_fuel [of s "length s" E]
    by (auto simp: BufferedReader readObject_def ebind_def split: sum.splits)
qed

subsection \<open>Round trip of the supported values\<close>

text \<open>
  What does hold of the round trip. A string is \<open>plain\<close> when all its characters are ASCII
  (then the number of characters is the number of UTF-8 bytes) and its length fits the
  \<^verbatim>\<open>>i\<close> prefix.
\<close>

definition plain :: "ustr \<Rightarrow> bool" where
  "plain s \<longleftrightarrow> list_all (\<lambda>c. c < 0x80) s \<and> length s < 2 ^ 31"

lemma is_null_0: "is_null (0 # buff) f = f buff"
  by (simp add: is_null_def read_Cons)

lemma struct_unpack_pack:
  assumes "struct_pack fmt v = Inr bs"
  shows "struct_unpack fmt bs = Inr v \<and> length bs = calcsize fmt"
proof -
  have fmt: "fmt = ''>b'' \<or> fmt = ''>i'' \<or> fmt = ''>q''"
    using assms by (auto simp: struct_pack_def split: if_splits)
  then obtain n :: nat where n: "calcsize fmt = n" "0 < n" "pack_int n v = Inr bs"
    using assms by (auto simp: struct_pack_def calcsize_def)
  then have bs: "bs = be_bytes n v" and lo: "- (2 ^ (8 * n - 1)) \<le> v" and hi: "v < 2 ^ (8 * n - 1)"
    by (auto simp: pack_int_def split: if_splits)
  have "be_sint (be_bytes n v) = v"
    using n(2) lo hi by (rule be_sint_be_bytes)
  then show ?thesis
    using fmt n bs by (auto simp: struct_unpack_def length_be_bytes)
qed

lemma read_exact: "length bs = n \<Longrightarrow> read (int n) (bs @ rest) = (bs, rest)"
  by (simp add: read_def)

lemma read_int_pack:
  assumes "struct_pack ''>i'' v = Inr bs"
  shows "read_int (bs @ rest) = Inr (v, rest)"
proof -
  have "struct_unpack ''>i'' bs = Inr v" and "length bs = 4"
    using struct_unpack_pack [OF assms] by (simp_all add: calcsize_def)
  then show ?thesis
    using read_exact [of bs 4 rest] by (simp add: read_int_def ebind_Inr)
qed

lemma struct_pack_i_length:
  "n < 2 ^ 31 \<Longrightarrow> \<exists>bs. struct_pack ''>i'' (int n) = Inr bs \<and> length bs = 4"
  by (simp add: struct_pack_def pack_int_def length_be_bytes)

lemma unat_of_nat_byte: "c < 0x80 \<Longrightarrow> unat (of_nat c :: byte) = c"
  by (simp add: unat_of_nat)

lemma utf8_decode_plain:
  "list_all (\<lambda>c. c < 0x80) s \<Longrightarrow> utf8_decode (map of_nat s) = Inr s"
proof (induction s)
  case Nil
  show ?case by (simp add: utf8_decode.simps)
next
  case (Cons c s)
  then have c: "c < 0x80" by simp
  have "utf8_decode_cp (of_nat c # map of_nat s) = Some (c, map of_nat s)"
    using c by (simp add: utf8_decode_cp_def unat_of_nat_byte Let_def)
  then show ?case
    using Cons by (subst utf8_decode.simps) simp
qed

lemma string_round_trip:
  assumes "plain s"
  shows "\<exists>bs. string_as_bytes s = Inr bs \<and> (\<forall>rest. read_string (bs @ rest) = Inr (s, rest))"
proof -
  obtain ln where ln: "struct_pack ''>i'' (int (length s)) = Inr ln"
    using assms struct_pack_i_length [of "length s"] by (auto simp: plain_def)
  have enc: "utf8_encode s = Inr (map of_nat s)"
    using assms by (simp add: plain_def utf8_encode_plain)
  have dec: "utf8_decode (map of_nat s) = Inr s"
    using assms by (simp add: plain_def utf8_decode_plain)
  have "read_string ((ln @ map of_nat s) @ rest) = Inr (s, rest)" for rest
    using read_int_pack [OF ln, of "map of_nat s @ rest"]
      read_exact [of "map of_nat s" "length s" rest] dec
    by (simp add: read_string_def ebind_Inr)
  then show ?thesis
    by (simp add: string_as_bytes_def ln enc ebind_Inr)
qed


text \<open>
  \<open>norm v\<close> is what the reader makes of what the writer wrote for \<open>v\<close>: a \<^verbatim>\<open>long\<close>
  comes back as an \<^verbatim>\<open>int\<close> of the same value; a \<^verbatim>\<open>Property\<close> and a \<^verbatim>\<open>VertexProperty\<close>
  come back without their element (\<^verbatim>\<open>None\<close> is passed to the constructor); an enum member
  comes back under its unmangled name; the two vertices of an \<^verbatim>\<open>Edge\<close> come back in each
  other's place, since \<^verbatim>\<open>_read_edge\<close> passes the vertex read first, which the writer wrote
  from \<^verbatim>\<open>inV\<close>, as the second argument of \<^verbatim>\<open>Edge\<close>. Everything else comes back as it was.
\<close>

fun norm :: "pyobj \<Rightarrow> pyobj" where
  "norm PyNone = PyNone"
| "norm (PyInt v) = PyInt v"
| "norm (PyLong v) = PyInt v"
| "norm (PyBool b) = PyBool b"
| "norm (PyStr s) = PyStr s"
| "norm (PyUUID bs) = PyUUID bs"
| "norm (PySingleByte v) = PySingleByte v"
| "norm (PyBytes bs) = PyBytes bs"
| "norm (PyByteArray bs) = PyByteArray bs"
| "norm (PyList xs) = PyList (map norm xs)"
| "norm (PySet xs) = PySet (map norm xs)"
| "norm (PyDict kvs) = PyDict (map (\<lambda>(k, v). (norm k, norm v)) kvs)"
| "norm (Vertex i l) = Vertex (norm i) l"
| "norm (Edge i (oi, ol) l (ii, il)) = Edge (norm i) (norm ii, il) l (norm oi, ol)"
| "norm (Path ls os) = Path (norm ls) (norm os)"
| "norm (Property k v e) = Property k (norm v) PyNone"
| "norm (VertexProperty i l v e) = VertexProperty (norm i) l (norm v) PyNone"
| "norm (Binding k v) = Binding k (norm v)"
| "norm (Bytecode st so) =
     Bytecode (map (\<lambda>(name, args). (name, map norm args)) st)
              (map (\<lambda>(name, args). (name, map norm args)) so)"
| "norm (Traverser ob bulk) = Traverser (norm ob) bulk"
| "norm (EnumMember c name) = EnumMember c (unmangleKeyword name)"
| "norm (P operator v other) = P operator v other"
| "norm (TextP operator v other) = TextP operator v other"
| "norm (PyObject c) = PyObject c"

text \<open>The items of a list put into a \<^verbatim>\<open>dict\<close> one after the other.\<close>

primrec dict_of_pairs ::
  "env \<Rightarrow> (pyobj \<times> pyobj) list \<Rightarrow> (pyobj \<times> pyobj) list \<Rightarrow> error + (pyobj \<times> pyobj) list" where
  "dict_of_pairs E d [] = Inr d"
| "dict_of_pairs E d (kv # kvs) =
     ebind (dict_setitem E d (fst kv) (snd kv)) (\<lambda>d'. dict_of_pairs E d' kvs)"

text \<open>
  The values the round trip is proved for: numbers within the range of their format,
  plain strings, UUIDs of 16 bytes, containers of fewer than \<open>2^31\<close> supported elements (the
  elements of a set and the keys of a dict hashable and pairwise unequal once read back),
  graph elements and traversal values built from these, and enum members whose unmangled
  name is a member of their class. \<^verbatim>\<open>None\<close>, \<^verbatim>\<open>P\<close>, \<^verbatim>\<open>TextP\<close> and the objects without a
  handler are not among them: the writer returns the first and the last as they are, and
  the reader has no \<^verbatim>\<open>objectify\<close> for the predicates.
\<close>

fun supported :: "env \<Rightarrow> pyobj \<Rightarrow> bool" where
  "supported E (PyInt v) \<longleftrightarrow> - (2 ^ 31) \<le> v \<and> v < 2 ^ 31"
| "supported E (PyLong v) \<longleftrightarrow> - (2 ^ 63) \<le> v \<and> v < 2 ^ 63"
| "supported E (PyBool b) \<longleftrightarrow> True"
| "supported E (PyStr s) \<longleftrightarrow> plain s"
| "supported E (PyUUID bs) \<longleftrightarrow> length bs = 16"
| "supported E (PySingleByte v) \<longleftrightarrow> - 128 \<le> v \<and> v < 128"
| "supported E (PyBytes bs) \<longleftrightarrow> length bs < 2 ^ 31"
| "supported E (PyList xs) \<longleftrightarrow> list_all (supported E) xs \<and> length xs < 2 ^ 31"
| "supported E (PySet xs) \<longleftrightarrow>
     list_all (supported E) xs \<and> length xs < 2 ^ 31
     \<and> set_of_list E [] (map norm xs) = Inr (map norm xs)"
| "supported E (PyDict kvs) \<longleftrightarrow>
     list_all (\<lambda>(k, v). supported E k \<and> supported E v) kvs \<and> length kvs < 2 ^ 31
     \<and> dict_of_pairs E [] (map (\<lambda>(k, v). (norm k, norm v)) kvs)
         = Inr (map (\<lambda>(k, v). (norm k, norm v)) kvs)"
| "supported E (Vertex i l) \<longleftrightarrow> supported E i \<and> plain l"
| "supported E (Edge i (oi, ol) l (ii, il)) \<longleftrightarrow>
     supported E i \<and> plain l \<and> supported E ii \<and> plain il \<and> supported E oi \<and> plain ol"
| "supported E (Path ls os) \<longleftrightarrow> supported E ls \<and> supported E os"
| "supported E (Property k v e) \<longleftrightarrow> plain k \<and> supported E v"
| "supported E (VertexProperty i l v e) \<longleftrightarrow> supported E i \<and> plain l \<and> supported E v"
| "supported E (Binding k v) \<longleftrightarrow> plain k \<and> supported E v"
| "supported E (Bytecode st so) \<longleftrightarrow>
     list_all (\<lambda>(name, args). plain name \<and> list_all (supported E) args \<and> length args < 2 ^ 31) st
     \<and> length st < 2 ^ 31
     \<and> list_all (\<lambda>(name, args). plain name \<and> list_all (supported E) args \<and> length args < 2 ^ 31) so
     \<and> length so < 2 ^ 31"
| "supported E (Traverser ob bulk) \<longleftrightarrow> supported E ob \<and> - (2 ^ 63) \<le> bulk \<and> bulk < 2 ^ 63"
| "supported E (EnumMember c name) \<longleftrightarrow>
     plain (unmangleKeyword name) \<and> unmangleKeyword name \<in> set (members E c)"
| "supported E obj \<longleftrightarrow> False"


text \<open>
  The three statements of the induction. \<open>crt\<close>: the writer \<open>w\<close> gives bytes for the nested
  value \<open>c\<close>, and the reader \<open>r\<close> reads them back, from the front of any stream, when they
  are at most \<open>m\<close>. \<open>hrt\<close>: the same for the handler \<open>h\<close>, its type code and flag, and its
  payload. \<open>round_trips\<close>: the same for \<open>toDict\<close> and \<open>toObject\<close>, with any fuel that is at
  least the number of bytes less one.
\<close>

definition crt :: "writer \<Rightarrow> reader \<Rightarrow> nat \<Rightarrow> pyobj \<Rightarrow> bool" where
  "crt w r m c \<longleftrightarrow>
     (\<exists>bs. w c = Inr (PyByteArray bs)
        \<and> (length bs \<le> m \<longrightarrow> (\<forall>rest. r (bs @ rest) = Inr (norm c, rest))))"

definition hrt :: "env \<Rightarrow> handler \<Rightarrow> DataType \<Rightarrow> writer \<Rightarrow> reader \<Rightarrow> nat \<Rightarrow> pyobj \<Rightarrow> bool" where
  "hrt E h d w r m obj \<longleftrightarrow>
     (\<exists>pl. dictify h obj w False = Inr (word_of_int (DataType_value d) # 0 # pl)
        \<and> (length pl \<le> m \<longrightarrow>
             (\<forall>rest. objectify E h (0 # pl @ rest) r = Inr (norm obj, rest))))"

definition round_trips :: "env \<Rightarrow> pyobj \<Rightarrow> bool" where
  "round_trips E v \<longleftrightarrow>
     (\<exists>bs. toDict E v = Inr (PyByteArray bs)
        \<and> (\<forall>n rest. length bs \<le> Suc n \<longrightarrow> toObject n E (bs @ rest) = Inr (norm v, rest)))"

lemma crt_of_round_trips: "round_trips E c \<Longrightarrow> crt (toDict E) (toObject k E) (Suc k) c"
  by (auto simp: round_trips_def crt_def)

lemma round_trips_of_hrt:
  assumes ser: "map_of serializers (type_of obj) = Some h"
    and des: "map_of deserializers d = Some h"
    and h: "\<And>k. hrt E h d (toDict E) (toObject k E) (Suc k) obj"
  shows "round_trips E obj"
proof -
  obtain pl where pl: "dictify h obj (toDict E) False = Inr (word_of_int (DataType_value d) # 0 # pl)"
    using h [of 0] by (auto simp: hrt_def)
  have rd: "objectify E h (0 # pl @ rest) (toObject k E) = Inr (norm obj, rest)"
    if "length pl \<le> Suc k" for k rest
    using h [of k] pl that by (auto simp: hrt_def)
  have wr: "toDict E obj = Inr (PyByteArray (word_of_int (DataType_value d) # 0 # pl))"
    using toDict_exact [OF ser, of E] pl by (simp add: ebind_Inr)
  have "toObject n E ((word_of_int (DataType_value d) # 0 # pl) @ rest) = Inr (norm obj, rest)"
    if n: "length (word_of_int (DataType_value d) # 0 # pl) \<le> Suc n" for n rest
  proof -
    obtain k where k: "n = Suc k" using n by (cases n) simp_all
    then have "length pl \<le> Suc k" using n by simp
    then show ?thesis
      using rd [of k rest] by (simp add: k toObject_body_code [OF des])
  qed
  then show ?thesis
    unfolding round_trips_def using wr by blast
qed

lemma as_bytes_plain:
  "as_bytes (write_as_value (Some d) False) None [pl]
     = Inr (word_of_int (DataType_value d) # 0 # pl)"
  by (simp add: as_bytes_def write_as_value_def struct_pack_flag ebind_Inr)

lemma as_bytes_sized:
  "struct_pack ''>i'' n = Inr ln \<Longrightarrow>
   as_bytes (write_as_value (Some d) False) (Some n) [pl]
     = Inr (word_of_int (DataType_value d) # 0 # ln @ pl)"
  by (simp add: as_bytes_def write_as_value_def struct_pack_flag ebind_Inr)

lemma gt_simps:
  "graphbinary_type LongIO = Some DT_long" "graphbinary_type IntIO = Some DT_int"
  "graphbinary_type StringIO = Some DT_string" "graphbinary_type ListIO = Some DT_list"
  "graphbinary_type SetIO = Some DT_set" "graphbinary_type MapIO = Some DT_map"
  "graphbinary_type UuidIO = Some DT_uuid" "graphbinary_type EdgeIO = Some DT_edge"
  "graphbinary_type PathIO = Some DT_path" "graphbinary_type PropertyIO = Some DT_property"
  "graphbinary_type VertexIO = Some DT_vertex"
  "graphbinary_type VertexPropertyIO = Some DT_vertexproperty"
  "graphbinary_type BindingIO = Some DT_binding" "graphbinary_type BytecodeIO = Some DT_bytecode"
  "graphbinary_type TraverserIO = Some DT_traverser" "graphbinary_type ByteIO = Some DT_byte"
  "graphbinary_type ByteBufferIO = Some DT_bytebuffer"
  "graphbinary_type BooleanIO = Some DT_boolean"
  by (simp_all add: graphbinary_type_def handler_classes_def)

lemma struct_pack_ok:
  assumes "fmt = ''>b'' \<and> n = 1 \<or> fmt = ''>i'' \<and> n = 4 \<or> fmt = ''>q'' \<and> n = 8"
    and "- (2 ^ (8 * n - 1)) \<le> v" and "v < 2 ^ (8 * n - 1)"
  obtains bs where "struct_pack fmt v = Inr bs" and "struct_unpack fmt bs = Inr v"
    and "length bs = n"
proof -
  have p: "struct_pack fmt v = Inr (be_bytes n v)"
    using assms by (auto simp: struct_pack_def pack_int_def)
  have u: "struct_unpack fmt (be_bytes n v) = Inr v"
    using struct_unpack_pack [OF p] by blast
  show thesis
    by (rule that [of "be_bytes n v"]) (simp_all add: p u length_be_bytes)
qed

lemma hrt_int:
  assumes "- (2 ^ 31) \<le> v" and "v < 2 ^ 31"
  shows "hrt E IntIO DT_int w r m (PyInt v)"
proof -
  obtain bs where p: "struct_pack ''>i'' v = Inr bs"
    using assms by (auto intro: struct_pack_ok [of "''>i''" 4 v])
  have "dictify IntIO (PyInt v) w False = Inr (word_of_int (DataType_value DT_int) # 0 # bs)"
    using assms
    by (simp add: dictify_def LongIO_dictify_def int_value_def byte_format_def p ebind_Inr
        as_bytes_plain gt_simps)
  moreover have "objectify E IntIO (0 # bs @ rest) r = Inr (norm (PyInt v), rest)" for rest
    by (simp add: objectify_def IntIO_objectify_def is_null_0 read_int_pack [OF p] ebind_Inr)
  ultimately show ?thesis
    unfolding hrt_def by blast
qed

lemma hrt_long:
  assumes "- (2 ^ 63) \<le> v" and "v < 2 ^ 63"
  shows "hrt E LongIO DT_long w r m (PyLong v)"
proof -
  obtain bs where p: "struct_pack ''>q'' v = Inr bs" and u: "struct_unpack ''>q'' bs = Inr v"
    and l: "length bs = 8"
    using assms by (auto intro: struct_pack_ok [of "''>q''" 8 v])
  have "dictify LongIO (PyLong v) w False = Inr (word_of_int (DataType_value DT_long) # 0 # bs)"
    using assms
    by (simp add: dictify_def LongIO_dictify_def int_value_def byte_format_def p ebind_Inr
        as_bytes_plain gt_simps)
  moreover have "objectify E LongIO (0 # bs @ rest) r = Inr (norm (PyLong v), rest)" for rest
    using read_exact [of bs 8 rest] l
    by (simp add: objectify_def LongIO_objectify_def is_null_0 byte_format_def u ebind_Inr)
  ultimately show ?thesis
    unfolding hrt_def by blast
qed

lemma hrt_byte:
  assumes "- 128 \<le> v" and "v < 128"
  shows "hrt E ByteIO DT_byte w r m (PySingleByte v)"
proof -
  obtain bs where p: "struct_pack ''>b'' v = Inr bs" and u: "struct_unpack ''>b'' bs = Inr v"
    and l: "length bs = 1"
    using assms by (auto intro: struct_pack_ok [of "''>b''" 1 v])
  have "dictify ByteIO (PySingleByte v) w False = Inr (word_of_int (DataType_value DT_byte) # 0 # bs)"
    by (simp add: dictify_def ByteIO_dictify_def int_value_def p ebind_Inr as_bytes_plain gt_simps)
  moreover have "objectify E ByteIO (0 # bs @ rest) r = Inr (norm (PySingleByte v), rest)" for rest
    using read_exact [of bs 1 rest] l
    by (simp add: objectify_def ByteIO_objectify_def is_null_0 u ebind_Inr)
  ultimately show ?thesis
    unfolding hrt_def by blast
qed

lemma hrt_bool: "hrt E BooleanIO DT_boolean w r m (PyBool b)"
proof -
  define v :: int where "v = (if b then 1 else 0)"
  have v: "b \<longleftrightarrow> v = 1" by (simp add: v_def)
  obtain bs where p: "struct_pack ''>b'' v = Inr bs" and u: "struct_unpack ''>b'' bs = Inr v"
    and l: "length bs = 1"
    by (rule struct_pack_ok [of "''>b''" 1 v]) (auto simp: v_def)
  have "dictify BooleanIO (PyBool b) w False = Inr (word_of_int (DataType_value DT_boolean) # 0 # bs)"
    using p by (simp add: dictify_def BooleanIO_dictify_def truth_def ebind_Inr as_bytes_plain gt_simps v_def)
  moreover have "objectify E BooleanIO (0 # bs @ rest) r = Inr (norm (PyBool b), rest)" for rest
    using read_exact [of bs 1 rest] l v
    by (simp add: objectify_def BooleanIO_objectify_def is_null_0 u ebind_Inr)
  ultimately show ?thesis
    unfolding hrt_def by blast
qed

lemma hrt_str:
  assumes "plain s"
  shows "hrt E StringIO DT_string w r m (PyStr s)"
proof -
  obtain ln where ln: "struct_pack ''>i'' (int (length s)) = Inr ln"
    using assms struct_pack_i_length [of "length s"] by (auto simp: plain_def)
  have enc: "utf8_encode s = Inr (map of_nat s)"
    using assms by (simp add: plain_def utf8_encode_plain)
  have dec: "utf8_decode (map of_nat s) = Inr s"
    using assms by (simp add: plain_def utf8_decode_plain)
  have "dictify StringIO (PyStr s) w False
      = Inr (word_of_int (DataType_value DT_string) # 0 # ln @ map of_nat s)"
    by (simp add: dictify_def StringIO_dictify_def enc ebind_Inr as_bytes_sized [OF ln] gt_simps)
  moreover have "objectify E StringIO (0 # (ln @ map of_nat s) @ rest) r = Inr (norm (PyStr s), rest)"
    for rest
    using read_int_pack [OF ln, of "map of_nat s @ rest"]
      read_exact [of "map of_nat s" "length s" rest] dec
    by (simp add: objectify_def StringIO_objectify_def is_null_0 ebind_Inr)
  ultimately show ?thesis
    unfolding hrt_def by blast
qed

lemma hrt_uuid:
  assumes "length bs = 16"
  shows "hrt E UuidIO DT_uuid w r m (PyUUID bs)"
proof -
  have "dictify UuidIO (PyUUID bs) w False = Inr (word_of_int (DataType_value DT_uuid) # 0 # bs)"
    by (simp add: dictify_def UuidIO_dictify_def as_bytes_plain gt_simps)
  moreover have "objectify E UuidIO (0 # bs @ rest) r = Inr (norm (PyUUID bs), rest)" for rest
    using read_exact [of bs 16 rest] assms
    by (simp add: objectify_def UuidIO_objectify_def is_null_0)
  ultimately show ?thesis
    unfolding hrt_def by blast
qed

lemma hrt_bytes:
  assumes "length bs < 2 ^ 31"
  shows "hrt E ByteBufferIO DT_bytebuffer w r m (PyBytes bs)"
proof -
  obtain ln where ln: "struct_pack ''>i'' (int (length bs)) = Inr ln"
    using assms struct_pack_i_length [of "length bs"] by auto
  have "dictify ByteBufferIO (PyBytes bs) w False
      = Inr (word_of_int (DataType_value DT_bytebuffer) # 0 # ln @ bs)"
    by (simp add: dictify_def ByteBufferIO_dictify_def as_bytes_sized [OF ln] gt_simps)
  moreover have "objectify E ByteBufferIO (0 # (ln @ bs) @ rest) r = Inr (norm (PyBytes bs), rest)"
    for rest
    using read_int_pack [OF ln, of "bs @ rest"] read_exact [of bs "length bs" rest]
    by (simp add: objectify_def ByteBufferIO_objectify_def read_bytebuffer_def is_null_0 ebind_Inr)
  ultimately show ?thesis
    unfolding hrt_def by blast
qed

lemma crt_ext_obj:
  assumes "crt w r m c"
  shows "\<exists>bs. (\<forall>ba. ext_obj w c ba = Inr (ba @ bs))
     \<and> (length bs \<le> m \<longrightarrow> (\<forall>rest. r (bs @ rest) = Inr (norm c, rest)))"
proof -
  obtain bs where bs: "w c = Inr (PyByteArray bs)"
    and rd: "length bs \<le> m \<longrightarrow> (\<forall>rest. r (bs @ rest) = Inr (norm c, rest))"
    using assms by (auto simp: crt_def)
  have "ext_obj w c ba = Inr (ba @ bs)" for ba
    by (simp add: ext_obj_def bs ebind_Inr extend_def)
  then show ?thesis using rd by blast
qed

lemma plain_ext_str:
  assumes "plain s"
  shows "\<exists>bs. (\<forall>ba. ext_str s ba = Inr (ba @ bs))
     \<and> (\<forall>rest. read_string (bs @ rest) = Inr (s, rest))"
proof -
  obtain bs where e: "string_as_bytes s = Inr bs"
    and d: "\<And>rest. read_string (bs @ rest) = Inr (s, rest)"
    using string_round_trip [OF assms] by blast
  have "ext_str s ba = Inr (ba @ bs)" for ba
    by (simp add: ext_str_def ebind_Inr e)
  then show ?thesis using d by blast
qed

lemma hrt_vertex:
  assumes "crt w r m i" and "plain l"
  shows "hrt E VertexIO DT_vertex w r m (Vertex i l)"
proof -
  obtain bi where wi: "\<forall>ba. ext_obj w i ba = Inr (ba @ bi)"
    and ri: "length bi \<le> m \<longrightarrow> (\<forall>rest. r (bi @ rest) = Inr (norm i, rest))"
    using crt_ext_obj [OF assms(1)] by blast
  obtain bl where wl: "\<forall>ba. ext_str l ba = Inr (ba @ bl)"
    and rl: "\<forall>rest. read_string (bl @ rest) = Inr (l, rest)"
    using plain_ext_str [OF assms(2)] by blast
  let ?pl = "bi @ bl @ [0xfe]"
  have "dictify VertexIO (Vertex i l) w False = Inr (word_of_int (DataType_value DT_vertex) # 0 # ?pl)"
    by (simp add: dictify_def VertexIO_dictify_def wi wl ebind_Inr as_bytes_plain gt_simps dv_null)
  moreover have "objectify E VertexIO (0 # ?pl @ rest) r = Inr (norm (Vertex i l), rest)"
    if "length ?pl \<le> m" for rest
    using that ri
    by (simp add: objectify_def VertexIO_objectify_def read_vertex_def is_null_0 rl ebind_Inr
        read_def)
  ultimately show ?thesis
    unfolding hrt_def by blast
qed


lemma hrt_edge:
  assumes "crt w r m i" and "plain l" and "crt w r m ii" and "plain il"
    and "crt w r m oi" and "plain ol"
  shows "hrt E EdgeIO DT_edge w r m (Edge i (oi, ol) l (ii, il))"
proof -
  obtain b1 where w1: "\<forall>ba. ext_obj w i ba = Inr (ba @ b1)"
    and r1: "length b1 \<le> m \<longrightarrow> (\<forall>rest. r (b1 @ rest) = Inr (norm i, rest))"
    using crt_ext_obj [OF assms(1)] by blast
  obtain b2 where w2: "\<forall>ba. ext_str l ba = Inr (ba @ b2)"
    and r2: "\<forall>rest. read_string (b2 @ rest) = Inr (l, rest)"
    using plain_ext_str [OF assms(2)] by blast
  obtain b3 where w3: "\<forall>ba. ext_obj w ii ba = Inr (ba @ b3)"
    and r3: "length b3 \<le> m \<longrightarrow> (\<forall>rest. r (b3 @ rest) = Inr (norm ii, rest))"
    using crt_ext_obj [OF assms(3)] by blast
  obtain b4 where w4: "\<forall>ba. ext_str il ba = Inr (ba @ b4)"
    and r4: "\<forall>rest. read_string (b4 @ rest) = Inr (il, rest)"
    using plain_ext_str [OF assms(4)] by blast
  obtain b5 where w5: "\<forall>ba. ext_obj w oi ba = Inr (ba @ b5)"
    and r5: "length b5 \<le> m \<longrightarrow> (\<forall>rest. r (b5 @ rest) = Inr (norm oi, rest))"
    using crt_ext_obj [OF assms(5)] by blast
  obtain b6 where w6: "\<forall>ba. ext_str ol ba = Inr (ba @ b6)"
    and r6: "\<forall>rest. read_string (b6 @ rest) = Inr (ol, rest)"
    using plain_ext_str [OF assms(6)] by blast
  let ?pl = "b1 @ b2 @ b3 @ b4 @ b5 @ b6 @ [0xfe, 0xfe]"
  have "dictify EdgeIO (Edge i (oi, ol) l (ii, il)) w False
      = Inr (word_of_int (DataType_value DT_edge) # 0 # ?pl)"
    by (simp add: dictify_def EdgeIO_dictify_def w1 w2 w3 w4 w5 w6 ebind_Inr as_bytes_plain
        gt_simps dv_null)
  moreover have "objectify E EdgeIO (0 # ?pl @ rest) r = Inr (norm (Edge i (oi, ol) l (ii, il)), rest)"
    if "length ?pl \<le> m" for rest
    using that r1 r3 r5
    by (simp add: objectify_def EdgeIO_objectify_def read_edge_def is_null_0 r2 r4 r6 ebind_Inr
        read_def)
  ultimately show ?thesis
    unfolding hrt_def by blast
qed

lemma hrt_path:
  assumes "crt w r m ls" and "crt w r m os"
  shows "hrt E PathIO DT_path w r m (Path ls os)"
proof -
  obtain b1 where w1: "\<forall>ba. ext_obj w ls ba = Inr (ba @ b1)"
    and r1: "length b1 \<le> m \<longrightarrow> (\<forall>rest. r (b1 @ rest) = Inr (norm ls, rest))"
    using crt_ext_obj [OF assms(1)] by blast
  obtain b2 where w2: "\<forall>ba. ext_obj w os ba = Inr (ba @ b2)"
    and r2: "length b2 \<le> m \<longrightarrow> (\<forall>rest. r (b2 @ rest) = Inr (norm os, rest))"
    using crt_ext_obj [OF assms(2)] by blast
  let ?pl = "b1 @ b2"
  have "dictify PathIO (Path ls os) w False = Inr (word_of_int (DataType_value DT_path) # 0 # ?pl)"
    by (simp add: dictify_def PathIO_dictify_def w1 w2 ebind_Inr as_bytes_plain gt_simps)
  moreover have "objectify E PathIO (0 # ?pl @ rest) r = Inr (norm (Path ls os), rest)"
    if "length ?pl \<le> m" for rest
    using that r1 r2
    by (simp add: objectify_def PathIO_objectify_def is_null_0 ebind_Inr)
  ultimately show ?thesis
    unfolding hrt_def by blast
qed

lemma hrt_property:
  assumes "plain k" and "crt w r m v"
  shows "hrt E PropertyIO DT_property w r m (Property k v e)"
proof -
  obtain b1 where w1: "\<forall>ba. ext_str k ba = Inr (ba @ b1)"
    and r1: "\<forall>rest. read_string (b1 @ rest) = Inr (k, rest)"
    using plain_ext_str [OF assms(1)] by blast
  obtain b2 where w2: "\<forall>ba. ext_obj w v ba = Inr (ba @ b2)"
    and r2: "length b2 \<le> m \<longrightarrow> (\<forall>rest. r (b2 @ rest) = Inr (norm v, rest))"
    using crt_ext_obj [OF assms(2)] by blast
  let ?pl = "b1 @ b2 @ [0xfe]"
  have "dictify PropertyIO (Property k v e) w False
      = Inr (word_of_int (DataType_value DT_property) # 0 # ?pl)"
    by (simp add: dictify_def PropertyIO_dictify_def w1 w2 ebind_Inr as_bytes_plain gt_simps
        dv_null)
  moreover have "objectify E PropertyIO (0 # ?pl @ rest) r = Inr (norm (Property k v e), rest)"
    if "length ?pl \<le> m" for rest
    using that r2
    by (simp add: objectify_def PropertyIO_objectify_def read_property_def is_null_0 r1
        ebind_Inr read_def)
  ultimately show ?thesis
    unfolding hrt_def by blast
qed

lemma hrt_vertexproperty:
  assumes "crt w r m i" and "plain l" and "crt w r m v"
  shows "hrt E VertexPropertyIO DT_vertexproperty w r m (VertexProperty i l v e)"
proof -
  obtain b1 where w1: "\<forall>ba. ext_obj w i ba = Inr (ba @ b1)"
    and r1: "length b1 \<le> m \<longrightarrow> (\<forall>rest. r (b1 @ rest) = Inr (norm i, rest))"
    using crt_ext_obj [OF assms(1)] by blast
  obtain b2 where w2: "\<forall>ba. ext_str l ba = Inr (ba @ b2)"
    and r2: "\<forall>rest. read_string (b2 @ rest) = Inr (l, rest)"
    using plain_ext_str [OF assms(2)] by blast
  obtain b3 where w3: "\<forall>ba. ext_obj w v ba = Inr (ba @ b3)"
    and r3: "length b3 \<le> m \<longrightarrow> (\<forall>rest. r (b3 @ rest) = Inr (norm v, rest))"
    using crt_ext_obj [OF assms(3)] by blast
  let ?pl = "b1 @ b2 @ b3 @ [0xfe, 0xfe]"
  have "dictify VertexPropertyIO (VertexProperty i l v e) w False
      = Inr (word_of_int (DataType_value DT_vertexproperty) # 0 # ?pl)"
    by (simp add: dictify_def VertexPropertyIO_dictify_def w1 w2 w3 ebind_Inr as_bytes_plain
        gt_simps dv_null)
  moreover have "objectify E VertexPropertyIO (0 # ?pl @ rest) r
      = Inr (norm (VertexProperty i l v e), rest)"
    if "length ?pl \<le> m" for rest
    using that r1 r3
    by (simp add: objectify_def VertexPropertyIO_objectify_def read_vertexproperty_def
        is_null_0 r2 ebind_Inr read_def)
  ultimately show ?thesis
    unfolding hrt_def by blast
qed

lemma hrt_binding:
  assumes "plain k" and "crt w r m v"
  shows "hrt E BindingIO DT_binding w r m (Binding k v)"
proof -
  obtain b1 where w1: "\<forall>ba. ext_str k ba = Inr (ba @ b1)"
    and r1: "\<forall>rest. read_string (b1 @ rest) = Inr (k, rest)"
    using plain_ext_str [OF assms(1)] by blast
  obtain b2 where w2: "\<forall>ba. ext_obj w v ba = Inr (ba @ b2)"
    and r2: "length b2 \<le> m \<longrightarrow> (\<forall>rest. r (b2 @ rest) = Inr (norm v, rest))"
    using crt_ext_obj [OF assms(2)] by blast
  let ?pl = "b1 @ b2"
  have "dictify BindingIO (Binding k v) w False
      = Inr (word_of_int (DataType_value DT_binding) # 0 # ?pl)"
    by (simp add: dictify_def BindingIO_dictify_def w1 w2 ebind_Inr as_bytes_plain gt_simps)
  moreover have "objectify E BindingIO (0 # ?pl @ rest) r = Inr (norm (Binding k v), rest)"
    if "length ?pl \<le> m" for rest
    using that r2
    by (simp add: objectify_def BindingIO_objectify_def is_null_0 r1 ebind_Inr)
  ultimately show ?thesis
    unfolding hrt_def by blast
qed

lemma hrt_traverser:
  assumes "crt w r m ob" and "- (2 ^ 63) \<le> bulk" and "bulk < 2 ^ 63"
  shows "hrt E TraverserIO DT_traverser w r m (Traverser ob bulk)"
proof -
  obtain b1 where p: "struct_pack ''>q'' bulk = Inr b1" and u: "struct_unpack ''>q'' b1 = Inr bulk"
    and l: "length b1 = 8"
    using assms by (auto intro: struct_pack_ok [of "''>q''" 8 bulk])
  obtain b2 where w2: "\<forall>ba. ext_obj w ob ba = Inr (ba @ b2)"
    and r2: "length b2 \<le> m \<longrightarrow> (\<forall>rest. r (b2 @ rest) = Inr (norm ob, rest))"
    using crt_ext_obj [OF assms(1)] by blast
  let ?pl = "b1 @ b2"
  have "dictify TraverserIO (Traverser ob bulk) w False
      = Inr (word_of_int (DataType_value DT_traverser) # 0 # ?pl)"
    by (simp add: dictify_def TraverserIO_dictify_def p w2 ebind_Inr as_bytes_plain gt_simps)
  moreover have "objectify E TraverserIO (0 # ?pl @ rest) r = Inr (norm (Traverser ob bulk), rest)"
    if "length ?pl \<le> m" for rest
    using that r2 read_exact [of b1 8 "b2 @ rest"] l
    by (simp add: objectify_def TraverserIO_objectify_def read_traverser_def is_null_0 u
        ebind_Inr)
  ultimately show ?thesis
    unfolding hrt_def by blast
qed

lemma enum_handler_full:
  "\<exists>h d. map_of serializers (T_enum c) = Some h \<and> map_of deserializers d = Some h
      \<and> graphbinary_type h = Some d \<and> enum_of h = Some c
      \<and> dictify h = EnumIO_dictify h \<and> objectify E h = EnumIO_objectify E h"
  by (cases c)
     (simp_all add: serializers_eq deserializers_eq graphbinary_type_def python_type_def
        enum_of_def handler_classes_def dictify_def objectify_def)

lemma hrt_enum:
  assumes "graphbinary_type h = Some d" and "enum_of h = Some c"
    and "dictify h = EnumIO_dictify h" and "objectify E h = EnumIO_objectify E h"
    and "plain (unmangleKeyword name)" and "unmangleKeyword name \<in> set (members E c)"
  shows "hrt E h d w r m (EnumMember c name)"
proof -
  obtain b1 where w1: "\<forall>ba. ext_str (unmangleKeyword name) ba = Inr (ba @ b1)"
    and r1: "\<forall>rest. read_string (b1 @ rest) = Inr (unmangleKeyword name, rest)"
    using plain_ext_str [OF assms(5)] by blast
  have "dictify h (EnumMember c name) w False = Inr (word_of_int (DataType_value d) # 0 # b1)"
    by (simp add: assms(1,3) EnumIO_dictify_def w1 ebind_Inr as_bytes_plain)
  moreover have "objectify E h (0 # b1 @ rest) r = Inr (norm (EnumMember c name), rest)" for rest
    by (simp add: assms(2,4,6) EnumIO_objectify_def is_null_0 r1 ebind_Inr)
  ultimately show ?thesis
    unfolding hrt_def by blast
qed


lemma ext_objs_round_trip:
  assumes "\<forall>c\<in>set xs. crt w r m c"
  shows "\<exists>bs. (\<forall>ba. ext_objs w xs ba = Inr (ba @ bs))
     \<and> (length bs \<le> m \<longrightarrow>
          (\<forall>acc rest. read_objects r (length xs) acc (bs @ rest) = Inr (acc @ map norm xs, rest)))"
  using assms
proof (induction xs)
  case Nil
  show ?case by simp
next
  case (Cons x xs)
  obtain b1 where w1: "\<forall>ba. ext_obj w x ba = Inr (ba @ b1)"
    and r1: "length b1 \<le> m \<longrightarrow> (\<forall>rest. r (b1 @ rest) = Inr (norm x, rest))"
    using crt_ext_obj [of w r m x] Cons.prems by auto
  obtain b2 where w2: "\<forall>ba. ext_objs w xs ba = Inr (ba @ b2)"
    and r2: "length b2 \<le> m \<longrightarrow>
      (\<forall>acc rest. read_objects r (length xs) acc (b2 @ rest) = Inr (acc @ map norm xs, rest))"
    using Cons by auto
  have "ext_objs w (x # xs) ba = Inr (ba @ b1 @ b2)" for ba
    by (simp add: w1 w2 ebind_Inr)
  moreover have "read_objects r (length (x # xs)) acc ((b1 @ b2) @ rest)
      = Inr (acc @ map norm (x # xs), rest)" if "length (b1 @ b2) \<le> m" for acc rest
    using that r1 r2 by (simp add: ebind_Inr)
  ultimately show ?case by blast
qed

lemma hrt_list:
  assumes "\<forall>c\<in>set xs. crt w r m c" and "length xs < 2 ^ 31"
  shows "hrt E ListIO DT_list w r m (PyList xs)"
proof -
  obtain ln where ln: "struct_pack ''>i'' (int (length xs)) = Inr ln"
    using assms(2) struct_pack_i_length [of "length xs"] by auto
  obtain bs where wr: "\<forall>ba. ext_objs w xs ba = Inr (ba @ bs)"
    and rd: "length bs \<le> m \<longrightarrow>
      (\<forall>acc rest. read_objects r (length xs) acc (bs @ rest) = Inr (acc @ map norm xs, rest))"
    using ext_objs_round_trip [OF assms(1)] by blast
  have "dictify ListIO (PyList xs) w False
      = Inr (word_of_int (DataType_value DT_list) # 0 # ln @ bs)"
    by (simp add: dictify_def ListIO_dictify_def wr ebind_Inr as_bytes_sized [OF ln] gt_simps)
  moreover have "objectify E ListIO (0 # (ln @ bs) @ rest) r = Inr (norm (PyList xs), rest)"
    if "length (ln @ bs) \<le> m" for rest
    using that rd read_int_pack [OF ln, of "bs @ rest"]
    by (simp add: objectify_def ListIO_objectify_def read_list_def is_null_0 ebind_Inr)
  ultimately show ?thesis
    unfolding hrt_def by blast
qed

lemma hrt_set:
  assumes "\<forall>c\<in>set xs. crt w r m c" and "length xs < 2 ^ 31"
    and "set_of_list E [] (map norm xs) = Inr (map norm xs)"
  shows "hrt E SetIO DT_set w r m (PySet xs)"
proof -
  obtain ln where ln: "struct_pack ''>i'' (int (length xs)) = Inr ln"
    using assms(2) struct_pack_i_length [of "length xs"] by auto
  obtain bs where wr: "\<forall>ba. ext_objs w xs ba = Inr (ba @ bs)"
    and rd: "length bs \<le> m \<longrightarrow>
      (\<forall>acc rest. read_objects r (length xs) acc (bs @ rest) = Inr (acc @ map norm xs, rest))"
    using ext_objs_round_trip [OF assms(1)] by blast
  have "dictify SetIO (PySet xs) w False
      = Inr (word_of_int (DataType_value DT_set) # 0 # ln @ bs)"
    by (simp add: dictify_def ListIO_dictify_def wr ebind_Inr as_bytes_sized [OF ln] gt_simps)
  moreover have "objectify E SetIO (0 # (ln @ bs) @ rest) r = Inr (norm (PySet xs), rest)"
    if "length (ln @ bs) \<le> m" for rest
    using that rd read_int_pack [OF ln, of "bs @ rest"] assms(3)
    by (simp add: objectify_def SetIO_objectify_def ListIO_objectify_def read_list_def is_null_0
        ebind_Inr)
  ultimately show ?thesis
    unfolding hrt_def by blast
qed

lemma ext_items_round_trip:
  assumes "\<forall>kv\<in>set kvs. crt w r m (fst kv) \<and> crt w r m (snd kv)"
  shows "\<exists>bs. (\<forall>ba. ext_items w kvs ba = Inr (ba @ bs))
     \<and> (length bs \<le> m \<longrightarrow>
          (\<forall>d rest. read_items E r (length kvs) d (bs @ rest)
             = ebind (dict_of_pairs E d (map (\<lambda>(k, v). (norm k, norm v)) kvs))
                 (\<lambda>d'. Inr (d', rest))))"
  using assms
proof (induction kvs)
  case Nil
  show ?case by (simp add: ebind_Inr)
next
  case (Cons kv kvs)
  obtain k v where kv: "kv = (k, v)" by (cases kv)
  obtain b1 where w1: "\<forall>ba. ext_obj w k ba = Inr (ba @ b1)"
    and r1: "length b1 \<le> m \<longrightarrow> (\<forall>rest. r (b1 @ rest) = Inr (norm k, rest))"
    using crt_ext_obj [of w r m k] Cons.prems kv by auto
  obtain b2 where w2: "\<forall>ba. ext_obj w v ba = Inr (ba @ b2)"
    and r2: "length b2 \<le> m \<longrightarrow> (\<forall>rest. r (b2 @ rest) = Inr (norm v, rest))"
    using crt_ext_obj [of w r m v] Cons.prems kv by auto
  obtain b3 where w3: "\<forall>ba. ext_items w kvs ba = Inr (ba @ b3)"
    and r3: "length b3 \<le> m \<longrightarrow>
      (\<forall>d rest. read_items E r (length kvs) d (b3 @ rest)
         = ebind (dict_of_pairs E d (map (\<lambda>(k, v). (norm k, norm v)) kvs)) (\<lambda>d'. Inr (d', rest)))"
    using Cons by auto
  have "ext_items w (kv # kvs) ba = Inr (ba @ b1 @ b2 @ b3)" for ba
    by (simp add: kv w1 w2 w3 ebind_Inr)
  moreover have "read_items E r (length (kv # kvs)) d ((b1 @ b2 @ b3) @ rest)
      = ebind (dict_of_pairs E d (map (\<lambda>(k, v). (norm k, norm v)) (kv # kvs)))
          (\<lambda>d'. Inr (d', rest))" if "length (b1 @ b2 @ b3) \<le> m" for d rest
  proof (cases "dict_setitem E d (norm k) (norm v)")
    case (Inl e)
    then show ?thesis using that r1 r2 by (simp add: kv ebind_Inr ebind_Inl)
  next
    case (Inr d')
    then show ?thesis using that r1 r2 r3 by (simp add: kv ebind_Inr)
  qed
  ultimately show ?case by blast
qed

lemma hrt_dict:
  assumes "\<forall>kv\<in>set kvs. crt w r m (fst kv) \<and> crt w r m (snd kv)" and "length kvs < 2 ^ 31"
    and "dict_of_pairs E [] (map (\<lambda>(k, v). (norm k, norm v)) kvs)
         = Inr (map (\<lambda>(k, v). (norm k, norm v)) kvs)"
  shows "hrt E MapIO DT_map w r m (PyDict kvs)"
proof -
  obtain ln where ln: "struct_pack ''>i'' (int (length kvs)) = Inr ln"
    using assms(2) struct_pack_i_length [of "length kvs"] by auto
  obtain bs where wr: "\<forall>ba. ext_items w kvs ba = Inr (ba @ bs)"
    and rd: "length bs \<le> m \<longrightarrow>
      (\<forall>d rest. read_items E r (length kvs) d (bs @ rest)
         = ebind (dict_of_pairs E d (map (\<lambda>(k, v). (norm k, norm v)) kvs)) (\<lambda>d'. Inr (d', rest)))"
    using ext_items_round_trip [OF assms(1), of E] by blast
  have "dictify MapIO (PyDict kvs) w False
      = Inr (word_of_int (DataType_value DT_map) # 0 # ln @ bs)"
    by (simp add: dictify_def MapIO_dictify_def wr ebind_Inr as_bytes_sized [OF ln] gt_simps)
  moreover have "objectify E MapIO (0 # (ln @ bs) @ rest) r = Inr (norm (PyDict kvs), rest)"
    if "length (ln @ bs) \<le> m" for rest
    using that rd read_int_pack [OF ln, of "bs @ rest"] assms(3)
    by (simp add: objectify_def MapIO_objectify_def read_map_def is_null_0 ebind_Inr)
  ultimately show ?thesis
    unfolding hrt_def by blast
qed

lemma ext_insts_round_trip:
  assumes "\<forall>inst\<in>set insts. plain (fst inst) \<and> length (snd inst) < 2 ^ 31
             \<and> (\<forall>c\<in>set (snd inst). crt w r m c)"
  shows "\<exists>bs. (\<forall>ba. ext_insts w insts ba = Inr (ba @ bs))
     \<and> (length bs \<le> m \<longrightarrow>
          (\<forall>acc rest. read_insts r (length insts) acc (bs @ rest)
             = Inr (acc @ map (\<lambda>(name, args). (name, map norm args)) insts, rest)))"
  using assms
proof (induction insts)
  case Nil
  show ?case by simp
next
  case (Cons inst insts)
  obtain name args where inst: "inst = (name, args)" by (cases inst)
  have name: "plain name" and args: "length args < 2 ^ 31" and cs: "\<forall>c\<in>set args. crt w r m c"
    using Cons.prems inst by auto
  obtain b1 where w1: "\<forall>ba. ext_str name ba = Inr (ba @ b1)"
    and r1: "\<forall>rest. read_string (b1 @ rest) = Inr (name, rest)"
    using plain_ext_str [OF name] by blast
  obtain ln where ln: "struct_pack ''>i'' (int (length args)) = Inr ln"
    using args struct_pack_i_length [of "length args"] by auto
  obtain b2 where w2: "\<forall>ba. ext_objs w args ba = Inr (ba @ b2)"
    and r2: "length b2 \<le> m \<longrightarrow>
      (\<forall>acc rest. read_objects r (length args) acc (b2 @ rest) = Inr (acc @ map norm args, rest))"
    using ext_objs_round_trip [OF cs] by blast
  obtain b3 where w3: "\<forall>ba. ext_insts w insts ba = Inr (ba @ b3)"
    and r3: "length b3 \<le> m \<longrightarrow>
      (\<forall>acc rest. read_insts r (length insts) acc (b3 @ rest)
         = Inr (acc @ map (\<lambda>(name, args). (name, map norm args)) insts, rest))"
    using Cons by auto
  have "ext_insts w (inst # insts) ba = Inr (ba @ b1 @ ln @ b2 @ b3)" for ba
    by (simp add: inst w1 ln w2 w3 ebind_Inr)
  moreover have "read_insts r (length (inst # insts)) acc ((b1 @ ln @ b2 @ b3) @ rest)
      = Inr (acc @ map (\<lambda>(name, args). (name, map norm args)) (inst # insts), rest)"
    if "length (b1 @ ln @ b2 @ b3) \<le> m" for acc rest
    using that r2 r3 read_int_pack [OF ln, of "b2 @ b3 @ rest"]
    by (simp add: inst r1 ebind_Inr)
  ultimately show ?case by blast
qed

lemma hrt_bytecode:
  assumes "\<forall>inst\<in>set st. plain (fst inst) \<and> length (snd inst) < 2 ^ 31
             \<and> (\<forall>c\<in>set (snd inst). crt w r m c)"
    and "length st < 2 ^ 31"
    and "\<forall>inst\<in>set so. plain (fst inst) \<and> length (snd inst) < 2 ^ 31
             \<and> (\<forall>c\<in>set (snd inst). crt w r m c)"
    and "length so < 2 ^ 31"
  shows "hrt E BytecodeIO DT_bytecode w r m (Bytecode st so)"
proof -
  obtain l1 where l1: "struct_pack ''>i'' (int (length st)) = Inr l1"
    using assms(2) struct_pack_i_length [of "length st"] by auto
  obtain l2 where l2: "struct_pack ''>i'' (int (length so)) = Inr l2"
    using assms(4) struct_pack_i_length [of "length so"] by auto
  obtain b1 where w1: "\<forall>ba. ext_insts w st ba = Inr (ba @ b1)"
    and r1: "length b1 \<le> m \<longrightarrow>
      (\<forall>acc rest. read_insts r (length st) acc (b1 @ rest)
         = Inr (acc @ map (\<lambda>(name, args). (name, map norm args)) st, rest))"
    using ext_insts_round_trip [OF assms(1)] by blast
  obtain b2 where w2: "\<forall>ba. ext_insts w so ba = Inr (ba @ b2)"
    and r2: "length b2 \<le> m \<longrightarrow>
      (\<forall>acc rest. read_insts r (length so) acc (b2 @ rest)
         = Inr (acc @ map (\<lambda>(name, args). (name, map norm args)) so, rest))"
    using ext_insts_round_trip [OF assms(3)] by blast
  let ?pl = "l1 @ b1 @ l2 @ b2"
  have "dictify BytecodeIO (Bytecode st so) w False
      = Inr (word_of_int (DataType_value DT_bytecode) # 0 # ?pl)"
    by (simp add: dictify_def BytecodeIO_dictify_def l1 l2 w1 w2 ebind_Inr as_bytes_plain gt_simps)
  moreover have "objectify E BytecodeIO (0 # ?pl @ rest) r = Inr (norm (Bytecode st so), rest)"
    if "length ?pl \<le> m" for rest
    using that r1 r2 read_int_pack [OF l1, of "b1 @ l2 @ b2 @ rest"]
      read_int_pack [OF l2, of "b2 @ rest"]
    by (simp add: objectify_def BytecodeIO_objectify_def read_bytecode_def is_null_0 ebind_Inr)
  ultimately show ?thesis
    unfolding hrt_def by blast
qed


lemma round_trip_induct: "supported E v \<longrightarrow> round_trips E v"
proof (induction v rule: norm.induct)
  case (3 v)
  show ?case
    by (intro impI round_trips_of_hrt [where h = LongIO and d = DT_long] hrt_long)
       (simp_all add: serializers_eq deserializers_eq)
next
  case (10 xs)
  show ?case
  proof (intro impI round_trips_of_hrt [where h = ListIO and d = DT_list])
    assume s: "supported E (PyList xs)"
    show "hrt E ListIO DT_list (toDict E) (toObject k E) (Suc k) (PyList xs)" for k
      using s 10 by (intro hrt_list ballI crt_of_round_trips) (auto simp: list_all_iff)
  qed (simp_all add: serializers_eq deserializers_eq)
next
  case (11 xs)
  show ?case
  proof (intro impI round_trips_of_hrt [where h = SetIO and d = DT_set])
    assume s: "supported E (PySet xs)"
    show "hrt E SetIO DT_set (toDict E) (toObject k E) (Suc k) (PySet xs)" for k
      using s 11 by (intro hrt_set ballI crt_of_round_trips) (auto simp: list_all_iff)
  qed (simp_all add: serializers_eq deserializers_eq)
next
  case (12 kvs)
  show ?case
  proof (intro impI round_trips_of_hrt [where h = MapIO and d = DT_map])
    assume s: "supported E (PyDict kvs)"
    have "round_trips E (fst kv) \<and> round_trips E (snd kv)" if "kv \<in> set kvs" for kv
      using s that 12 [of kv "fst kv" "snd kv"] by (cases kv) (auto simp: list_all_iff)
    then show "hrt E MapIO DT_map (toDict E) (toObject k E) (Suc k) (PyDict kvs)" for k
      using s by (intro hrt_dict ballI conjI crt_of_round_trips) auto
  qed (simp_all add: serializers_eq deserializers_eq)
next
  case (13 i l)
  show ?case
  proof (intro impI round_trips_of_hrt [where h = VertexIO and d = DT_vertex])
    assume s: "supported E (Vertex i l)"
    show "hrt E VertexIO DT_vertex (toDict E) (toObject k E) (Suc k) (Vertex i l)" for k
      using s 13 by (intro hrt_vertex crt_of_round_trips) auto
  qed (simp_all add: serializers_eq deserializers_eq)
next
  case (14 i oi ol l ii il)
  show ?case
  proof (intro impI round_trips_of_hrt [where h = EdgeIO and d = DT_edge])
    assume s: "supported E (Edge i (oi, ol) l (ii, il))"
    show "hrt E EdgeIO DT_edge (toDict E) (toObject k E) (Suc k) (Edge i (oi, ol) l (ii, il))" for k
      using s 14 by (intro hrt_edge crt_of_round_trips) auto
  qed (simp_all add: serializers_eq deserializers_eq)
next
  case (15 ls os)
  show ?case
  proof (intro impI round_trips_of_hrt [where h = PathIO and d = DT_path])
    assume s: "supported E (Path ls os)"
    show "hrt E PathIO DT_path (toDict E) (toObject k E) (Suc k) (Path ls os)" for k
      using s 15 by (intro hrt_path crt_of_round_trips) auto
  qed (simp_all add: serializers_eq deserializers_eq)
next
  case (16 k v e)
  show ?case
  proof (intro impI round_trips_of_hrt [where h = PropertyIO and d = DT_property])
    assume s: "supported E (Property k v e)"
    show "hrt E PropertyIO DT_property (toDict E) (toObject n E) (Suc n) (Property k v e)" for n
      using s 16 by (intro hrt_property crt_of_round_trips) auto
  qed (simp_all add: serializers_eq deserializers_eq)
next
  case (17 i l v e)
  show ?case
  proof (intro impI round_trips_of_hrt [where h = VertexPropertyIO and d = DT_vertexproperty])
    assume s: "supported E (VertexProperty i l v e)"
    show "hrt E VertexPropertyIO DT_vertexproperty (toDict E) (toObject k E) (Suc k)
        (VertexProperty i l v e)" for k
      using s 17 by (intro hrt_vertexproperty crt_of_round_trips) auto
  qed (simp_all add: serializers_eq deserializers_eq)
next
  case (18 k v)
  show ?case
  proof (intro impI round_trips_of_hrt [where h = BindingIO and d = DT_binding])
    assume s: "supported E (Binding k v)"
    show "hrt E BindingIO DT_binding (toDict E) (toObject n E) (Suc n) (Binding k v)" for n
      using s 18 by (intro hrt_binding crt_of_round_trips) auto
  qed (simp_all add: serializers_eq deserializers_eq)
next
  case (19 st so)
  show ?case
  proof (intro impI round_trips_of_hrt [where h = BytecodeIO and d = DT_bytecode])
    assume s: "supported E (Bytecode st so)"
    have a: "round_trips E c" if "inst \<in> set st" and "c \<in> set (snd inst)" for inst c
      using s that 19(1) [of inst "fst inst" "snd inst" c]
      by (cases inst) (auto simp: list_all_iff)
    have b: "round_trips E c" if "inst \<in> set so" and "c \<in> set (snd inst)" for inst c
      using s that 19(2) [of inst "fst inst" "snd inst" c]
      by (cases inst) (auto simp: list_all_iff)
    show "hrt E BytecodeIO DT_bytecode (toDict E) (toObject k E) (Suc k) (Bytecode st so)" for k
      using s a b
      by (intro hrt_bytecode ballI conjI crt_of_round_trips) (auto simp: list_all_iff)
  qed (simp_all add: serializers_eq deserializers_eq)
next
  case (20 ob bulk)
  show ?case
  proof (intro impI round_trips_of_hrt [where h = TraverserIO and d = DT_traverser])
    assume s: "supported E (Traverser ob bulk)"
    show "hrt E TraverserIO DT_traverser (toDict E) (toObject k E) (Suc k) (Traverser ob bulk)" for k
      using s 20 by (intro hrt_traverser crt_of_round_trips) auto
  qed (simp_all add: serializers_eq deserializers_eq)
next
  case (21 c name)
  obtain h d where h: "map_of serializers (T_enum c) = Some h" "map_of deserializers d = Some h"
      "graphbinary_type h = Some d" "enum_of h = Some c" "dictify h = EnumIO_dictify h"
      "objectify E h = EnumIO_objectify E h"
    using enum_handler_full [of c E] by blast
  show ?case
  proof (intro impI round_trips_of_hrt [where h = h and d = d])
    assume s: "supported E (EnumMember c name)"
    show "hrt E h d (toDict E) (toObject k E) (Suc k) (EnumMember c name)" for k
      using s h by (intro hrt_enum) auto
  qed (simp_all add: h)
next
  case (2 v)
  show ?case
    by (intro impI round_trips_of_hrt [where h = IntIO and d = DT_int] hrt_int)
       (simp_all add: serializers_eq deserializers_eq)
next
  case (4 v)
  show ?case
    by (intro impI round_trips_of_hrt [where h = BooleanIO and d = DT_boolean] hrt_bool)
       (simp_all add: serializers_eq deserializers_eq)
next
  case (5 v)
  show ?case
    by (intro impI round_trips_of_hrt [where h = StringIO and d = DT_string] hrt_str)
       (simp_all add: serializers_eq deserializers_eq)
next
  case (6 v)
  show ?case
    by (intro impI round_trips_of_hrt [where h = UuidIO and d = DT_uuid] hrt_uuid)
       (simp_all add: serializers_eq deserializers_eq)
next
  case (7 v)
  show ?case
    by (intro impI round_trips_of_hrt [where h = ByteIO and d = DT_byte] hrt_byte)
       (simp_all add: serializers_eq deserializers_eq)
next
  case (8 v)
  show ?case
    by (intro impI round_trips_of_hrt [where h = ByteBufferIO and d = DT_bytebuffer] hrt_bytes)
       (simp_all add: serializers_eq deserializers_eq)
qed simp_all

text \<open>
  For every supported value \<open>v\<close>, \<^verbatim>\<open>writeObject\<close> returns a \<^verbatim>\<open>bytearray\<close>, and
  \<^verbatim>\<open>readObject\<close> of that \<^verbatim>\<open>bytearray\<close> returns \<open>norm v\<close>.
\<close>

theorem round_trip_supported:
  assumes "supported E v"
  shows "\<exists>bs. writeObject E v = Inr (PyByteArray bs)
     \<and> readObject E (AnObject (PyByteArray bs)) = Inr (norm v, AnObject (PyByteArray bs))"
proof -
  obtain bs where wr: "toDict E v = Inr (PyByteArray bs)"
    and rd: "\<And>n rest. length bs \<le> Suc n \<Longrightarrow> toObject n E (bs @ rest) = Inr (norm v, rest)"
    using assms round_trip_induct [of E v] by (auto simp: round_trips_def)
  have "toObject (length bs) E bs = Inr (norm v, [])"
    using rd [of "length bs" "[]"] by simp
  then show ?thesis
    using wr by (simp add: writeObject_def readObject_def ebind_Inr del: toObject.simps)
qed

end
